theory Spec2Isabelle
  imports Main "HOL-Library.Sublist"
begin

section \<open>JavaScript values and strings\<close>

text \<open>
  Request bodies and database rows are JavaScript objects. An object is a partial map from
  property names to values; an absent property reads as \<open>undefined\<close>, which is \<open>None\<close>
  here. Values are the JSON scalars. Numbers are integers (money in the smallest unit, times in
  milliseconds); \<open>JNaN\<close> is the number that a failed numeric conversion yields.

  A string is the sequence of its UTF-16 code units, each a number from \<open>0\<close> to
  \<open>0xFFFF\<close>; a character outside the basic plane is a pair of surrogates. The property names
  and the action names of the answers, which the source spells out, are kept as literals;
  \<open>js\<close> turns a literal into the string of its code units.
\<close>

type_synonym jschar = int

type_synonym jsstring = "jschar list"

definition js :: "string \<Rightarrow> jsstring" where
  "js s = map of_char s"

datatype jsval = JNull | JBool bool | JNum int | JNaN | JStr jsstring

type_synonym jsobj = "string \<rightharpoonup> jsval"

text \<open>Truthiness of a property read, as \<open>if (x)\<close>, \<open>!x\<close>, \<open>x || y\<close> and \<open>x && y\<close> use it.\<close>

fun truthy :: "jsval option \<Rightarrow> bool" where
  "truthy None = False"
| "truthy (Some JNull) = False"
| "truthy (Some (JBool b)) = b"
| "truthy (Some (JNum n)) = (n \<noteq> 0)"
| "truthy (Some JNaN) = False"
| "truthy (Some (JStr s)) = (s \<noteq> [])"

text \<open>\<open>a ?? b\<close>: the right operand replaces \<open>null\<close> and \<open>undefined\<close> only.\<close>

fun nullish :: "jsval option \<Rightarrow> jsval option \<Rightarrow> jsval option" where
  "nullish None d = d"
| "nullish (Some JNull) d = d"
| "nullish (Some v) d = Some v"

text \<open>\<open>a || b\<close>: the right operand replaces every falsy value.\<close>

definition js_or :: "jsval option \<Rightarrow> jsval option \<Rightarrow> jsval option" where
  "js_or a b = (if truthy a then a else b)"

subsection \<open>Characters\<close>

definition is_ascii :: "jschar \<Rightarrow> bool" where
  "is_ascii c = (0 \<le> c \<and> c < 0x80)"

definition is_upper :: "jschar \<Rightarrow> bool" where
  "is_upper c = (0x41 \<le> c \<and> c \<le> 0x5A)"

definition is_lower :: "jschar \<Rightarrow> bool" where
  "is_lower c = (0x61 \<le> c \<and> c \<le> 0x7A)"

definition is_digit :: "jschar \<Rightarrow> bool" where
  "is_digit c = (0x30 \<le> c \<and> c \<le> 0x39)"

text \<open>The regular expression class \<open>\s\<close>, which \<open>trim\<close> strips too: the white space and
  the line terminators of the language. These are tab, line feed, vertical tab, form feed,
  carriage return, space, the no-break space, the byte order mark, the line and paragraph
  separators, and the other space separators of Unicode (\<open>U+1680\<close>, \<open>U+2000\<close> to
  \<open>U+200A\<close>, \<open>U+202F\<close>, \<open>U+205F\<close>, \<open>U+3000\<close>).\<close>

definition is_space :: "jschar \<Rightarrow> bool" where
  "is_space c =
     (c \<in> set [0x09, 0x0A, 0x0B, 0x0C, 0x0D, 0x20, 0xA0, 0x1680,
                0x2000, 0x2001, 0x2002, 0x2003, 0x2004, 0x2005, 0x2006, 0x2007, 0x2008, 0x2009, 0x200A,
                0x2028, 0x2029, 0x202F, 0x205F, 0x3000, 0xFEFF])"

text \<open>The class \<open>\w\<close> of a regular expression without the flags \<open>u\<close> and \<open>i\<close> is
  \<open>[A-Za-z0-9_]\<close>.\<close>

definition is_word_char :: "jschar \<Rightarrow> bool" where
  "is_word_char c = (is_upper c \<or> is_lower c \<or> is_digit c \<or> c = 0x5F)"

text \<open>The case mappings of the ASCII letters.\<close>

definition lower_ascii :: "jschar \<Rightarrow> jschar" where
  "lower_ascii c = (if is_upper c then c + 0x20 else c)"

definition upper_ascii :: "jschar \<Rightarrow> jschar" where
  "upper_ascii c = (if is_lower c then c - 0x20 else c)"

text \<open>Surrogates, and the code point of a pair: a regular expression with the flag \<open>u\<close>
  reads a lead surrogate followed by a trail surrogate as one character.\<close>

definition is_lead :: "jschar \<Rightarrow> bool" where
  "is_lead c = (0xD800 \<le> c \<and> c \<le> 0xDBFF)"

definition is_trail :: "jschar \<Rightarrow> bool" where
  "is_trail c = (0xDC00 \<le> c \<and> c \<le> 0xDFFF)"

definition code_point :: "jschar \<Rightarrow> jschar \<Rightarrow> int" where
  "code_point c d = 0x10000 + (c - 0xD800) * 0x400 + (d - 0xDC00)"

definition trim :: "jsstring \<Rightarrow> jsstring" where
  "trim s = rev (dropWhile is_space (rev (dropWhile is_space s)))"

text \<open>\<open>s.split(d)\<close> for a one-character separator: the empty string splits into one empty
  piece, and two adjacent separators give an empty piece between them.\<close>

fun split_on :: "jschar \<Rightarrow> jsstring \<Rightarrow> jsstring list" where
  "split_on d [] = [[]]"
| "split_on d (c # cs) =
     (if c = d then [] # split_on d cs
      else (case split_on d cs of [] \<Rightarrow> [[c]] | w # ws \<Rightarrow> (c # w) # ws))"

text \<open>\<open>xs.join(' ')\<close>.\<close>

fun join_space :: "jsstring list \<Rightarrow> jsstring" where
  "join_space [] = []"
| "join_space [w] = w"
| "join_space (w # ws) = w @ js '' '' @ join_space ws"

text \<open>\<open>Array.from(new Set(xs))\<close>: a set iterates in insertion order, so the first occurrence
  of every element stays and the later ones go.\<close>

definition array_from_set :: "'a list \<Rightarrow> 'a list" where
  "array_from_set xs = rev (remdups (rev xs))"

text \<open>\<open>s.includes(t)\<close> on strings.\<close>

definition str_includes :: "jsstring \<Rightarrow> jsstring \<Rightarrow> bool" where
  "str_includes s t = sublist t s"

subsection \<open>Conversions\<close>

definition digit_of :: "nat \<Rightarrow> jschar" where
  "digit_of n = 0x30 + int (n mod 10)"

function nat_to_string :: "nat \<Rightarrow> jsstring" where
  "nat_to_string n =
     (if n < 10 then [digit_of n] else nat_to_string (n div 10) @ [digit_of n])"
  by pat_completeness auto
termination
  by (relation "measure (\<lambda>n. n)") auto

declare nat_to_string.simps [simp del]

text \<open>\<open>String(v)\<close> on a scalar.\<close>

fun js_String :: "jsval \<Rightarrow> jsstring" where
  "js_String JNull = js ''null''"
| "js_String (JBool b) = (if b then js ''true'' else js ''false'')"
| "js_String (JNum n) = (if n < 0 then js ''-'' @ nat_to_string (nat (- n)) else nat_to_string (nat n))"
| "js_String JNaN = js ''NaN''"
| "js_String (JStr s) = s"

text \<open>\<open>String(x || '')\<close>, the way the handler reads a channel id.\<close>

definition string_or_empty :: "jsval option \<Rightarrow> jsstring" where
  "string_or_empty x = (case x of None \<Rightarrow> [] | Some v \<Rightarrow> if truthy x then js_String v else [])"

section \<open>The environment of one request\<close>

text \<open>
  Everything the handler asks of the outside world is a field of the environment: the remote
  application flags, the cloud credentials, the clock, the columns of the offers table, the
  category that the categorisation service assigns to a title (its answer mapped to one of the
  categories, \<open>Uncategorized\<close> when the call fails), the outcome of every push delivery,
  and what belongs to the runtime
  and the database and is left uninterpreted. These are the numeric parsers, the character
  database of the runtime (which code points are letters or numbers, the classes \<open>\p{L}\<close>
  and \<open>\p{N}\<close>, and the case conversions of a string that is not plain ASCII), and the
  function \<open>lower\<close> of the database, which follows its locale.
\<close>

record app_init =
  accept_incoming_requests :: bool
  send_favorites_notifications :: bool
  send_super_offers_notifications :: bool

datatype col_type = ColInt | ColDecimal | ColBool | ColString

datatype send_outcome = SendOk | SendRejected | SendThrows

record env =
  app_init_config :: "app_init option"
  auth_project_id :: "jsstring option"
  auth_access_token :: "jsstring option"
  now :: int
  col_types :: "(string \<times> col_type) list"
  groq_category :: "jsval option \<Rightarrow> jsstring"
  generated_offer_id :: jsstring
  push_outcome :: "jsstring \<Rightarrow> send_outcome"
  data_outcome :: "jsstring \<Rightarrow> send_outcome"
  string_to_number :: "jsstring \<Rightarrow> jsval"
  parse_int :: "jsstring \<Rightarrow> jsval"
  parse_float :: "jsstring \<Rightarrow> jsval"
  unicode_letter_or_number :: "int \<Rightarrow> bool"
  unicode_lower_case :: "jsstring \<Rightarrow> jsstring"
  unicode_upper_case :: "jsstring \<Rightarrow> jsstring"
  sql_lower :: "jsstring \<Rightarrow> jsstring"

text \<open>\<open>Number(v)\<close> on a defined value.\<close>

fun js_Number :: "env \<Rightarrow> jsval \<Rightarrow> jsval" where
  "js_Number e JNull = JNum 0"
| "js_Number e (JBool b) = JNum (if b then 1 else 0)"
| "js_Number e (JNum n) = JNum n"
| "js_Number e JNaN = JNaN"
| "js_Number e (JStr s) = string_to_number e s"

text \<open>\<open>nowMs\<close> and \<open>deleteAtPlusDays\<close> of utils.js, the latter with its default of 7 days.\<close>

definition nowMs :: "env \<Rightarrow> jsval" where
  "nowMs e = JNum (now e)"

definition deleteAtPlusDays :: "env \<Rightarrow> jsval" where
  "deleteAtPlusDays e = JNum (now e + 7 * 24 * 60 * 60 * 1000)"

subsection \<open>Case conversion and the classes of letters and numbers\<close>

text \<open>\<open>s.toLowerCase()\<close> and \<open>s.toUpperCase()\<close>: on a string of ASCII characters the
  letters are mapped one by one; on any other string the result is the one the character
  database of the runtime gives (it may differ in length, and a letter may depend on its
  neighbours).\<close>

definition toLowerCase :: "env \<Rightarrow> jsstring \<Rightarrow> jsstring" where
  "toLowerCase e s = (if list_all is_ascii s then map lower_ascii s else unicode_lower_case e s)"

definition toUpperCase :: "env \<Rightarrow> jsstring \<Rightarrow> jsstring" where
  "toUpperCase e s = (if list_all is_ascii s then map upper_ascii s else unicode_upper_case e s)"

text \<open>The classes \<open>\p{L}\<close> and \<open>\p{N}\<close> of a code point: the ASCII letters and digits,
  and beyond ASCII what the character database says.\<close>

definition is_letter_or_number :: "env \<Rightarrow> int \<Rightarrow> bool" where
  "is_letter_or_number e c =
     (if is_ascii c then is_upper c \<or> is_lower c \<or> is_digit c else unicode_letter_or_number e c)"

text \<open>\<open>toBool\<close> of utils.js.\<close>

definition toBool :: "env \<Rightarrow> jsval option \<Rightarrow> bool" where
  "toBool e v =
     (case v of
        Some (JBool b) \<Rightarrow> b
      | None \<Rightarrow> False
      | Some JNull \<Rightarrow> False
      | Some (JNum n) \<Rightarrow> n = 1
      | Some JNaN \<Rightarrow> False
      | Some (JStr s) \<Rightarrow>
          toLowerCase e (trim s) \<in> set [js ''1'', js ''t'', js ''true'', js ''yes'', js ''on''])"

section \<open>Priority Arbiter\<close>

definition getChannelPriority :: "jsstring \<Rightarrow> nat" where
  "getChannelPriority cid =
     (if cid = js ''-1001305107383'' then 1
      else if cid = js ''-1001207516682'' then 2
      else 3)"

definition SKIP_CHANNELS :: "jsstring set" where
  "SKIP_CHANNELS = {js ''-1003191179900'', js ''-1002335639614'', js ''-1001313053355''}"

section \<open>The offers table\<close>

text \<open>
  A row of the offers table is an object from column names to values; a column that is absent
  or \<open>JNull\<close> is SQL \<open>NULL\<close>. The table is the list of its rows. The driver sends
  every parameter as text, so \<open>column = $1\<close> compares the text forms, and is not true when
  either side is \<open>NULL\<close>.
\<close>

definition pg_text :: "jsval option \<Rightarrow> jsstring option" where
  "pg_text x = (case x of None \<Rightarrow> None | Some JNull \<Rightarrow> None | Some v \<Rightarrow> Some (js_String v))"

definition sql_eq :: "jsval option \<Rightarrow> jsval option \<Rightarrow> bool" where
  "sql_eq a b = (pg_text a \<noteq> None \<and> pg_text a = pg_text b)"

definition has_offer_id :: "jsval option \<Rightarrow> jsobj \<Rightarrow> bool" where
  "has_offer_id oid r = sql_eq (r ''offer_id'') oid"

definition has_code :: "jsval option \<Rightarrow> jsobj \<Rightarrow> bool" where
  "has_code c r = sql_eq (r ''code'') c"

text \<open>\<open>ORDER BY "timestamp" DESC\<close>: \<open>NULL\<close> sorts before every number, then larger
  numbers come first. \<open>LIMIT 1\<close> takes the head of that order; among rows that tie, the one
  that is earlier in the table.\<close>

definition row_timestamp :: "jsobj \<Rightarrow> int option" where
  "row_timestamp r = (case r ''timestamp'' of Some (JNum t) \<Rightarrow> Some t | _ \<Rightarrow> None)"

definition sorts_before :: "jsobj \<Rightarrow> jsobj \<Rightarrow> bool" where
  "sorts_before a b =
     (case (row_timestamp a, row_timestamp b) of
        (None, Some _) \<Rightarrow> True
      | (Some x, Some y) \<Rightarrow> y < x
      | _ \<Rightarrow> False)"

definition getOfferByCode :: "jsval option \<Rightarrow> jsobj list \<Rightarrow> jsobj option" where
  "getOfferByCode c tbl =
     (case filter (has_code c) tbl of
        [] \<Rightarrow> None
      | r # rs \<Rightarrow> Some (foldl (\<lambda>best x. if sorts_before x best then x else best) r rs))"

text \<open>\<open>insertOrUpdateOffer\<close>: an \<open>INSERT\<close> of the row's columns when no row has its
  \<open>offer_id\<close>, else an \<open>UPDATE\<close> that assigns every column of the row but
  \<open>offer_id\<close> to the rows that have it.\<close>

definition update_columns :: "jsobj \<Rightarrow> jsobj \<Rightarrow> jsobj" where
  "update_columns row r =
     (\<lambda>c. if c = ''offer_id'' then r c else (case row c of None \<Rightarrow> r c | Some v \<Rightarrow> Some v))"

definition insertOrUpdateOffer :: "jsobj \<Rightarrow> jsobj list \<Rightarrow> jsobj list" where
  "insertOrUpdateOffer row tbl =
     (if filter (has_offer_id (row ''offer_id'')) tbl = [] then tbl @ [row]
      else map (\<lambda>r. if has_offer_id (row ''offer_id'') r then update_columns row r else r) tbl)"

text \<open>\<open>markOfferDeleted(id, deleteTs = null)\<close> stores \<open>deleteTs ?? nowMs()\<close>.\<close>

definition mark_deleted_row :: "jsval \<Rightarrow> jsobj \<Rightarrow> jsobj" where
  "mark_deleted_row ts r =
     r(''is_deleted'' \<mapsto> JBool True, ''is_expired'' \<mapsto> JBool True, ''timestamp_expired'' \<mapsto> ts)"

definition stored_timestamp :: "env \<Rightarrow> jsval option \<Rightarrow> jsval" where
  "stored_timestamp e deleteTs =
     (case nullish deleteTs (Some (nowMs e)) of Some ts \<Rightarrow> ts | None \<Rightarrow> JNull)"

definition markOfferDeleted :: "env \<Rightarrow> jsval option \<Rightarrow> jsval option \<Rightarrow> jsobj list \<Rightarrow> jsobj list" where
  "markOfferDeleted e oid deleteTs tbl =
     map (\<lambda>r. if has_offer_id oid r then mark_deleted_row (stored_timestamp e deleteTs) r else r) tbl"

definition hardDeleteOffer :: "jsval option \<Rightarrow> jsobj list \<Rightarrow> jsobj list" where
  "hardDeleteOffer oid tbl = filter (\<lambda>r. \<not> has_offer_id oid r) tbl"

text \<open>The invariant of the table that the replay of a request relies on: every row has an
  \<open>offer_id\<close> that is not \<open>NULL\<close>, and no two rows have the same one (in the text form
  the queries compare). The handler keeps it, and the empty table has it.\<close>

definition offer_ids_unique :: "jsobj list \<Rightarrow> bool" where
  "offer_ids_unique tbl =
     (distinct (map (\<lambda>r. pg_text (r ''offer_id'')) tbl)
      \<and> None \<notin> set (map (\<lambda>r. pg_text (r ''offer_id'')) tbl))"

section \<open>Match Engine\<close>

text \<open>\<open>extractWordsFromTitle\<close> of utils.js: lower-case the title, blank every code unit
  outside \<open>[\w\s]\<close>, split at single spaces, trim the pieces, keep those of length at
  least 3, and drop repetitions.\<close>

definition blank_non_word :: "jsstring \<Rightarrow> jsstring" where
  "blank_non_word s = map (\<lambda>c. if is_word_char c \<or> is_space c then c else 0x20) s"

definition extractWordsFromTitle :: "env \<Rightarrow> jsstring \<Rightarrow> jsstring list" where
  "extractWordsFromTitle e title =
     array_from_set
       (filter (\<lambda>w. 3 \<le> length w)
          (map trim (split_on 0x20 (blank_non_word (toLowerCase e title)))))"

text \<open>The title as \<open>findUsersWithMatchingKeywords\<close> normalises it for phrases: blank
  every character outside \<open>[\p{L}\p{N}\s]\<close>, replace each run of white space by one space,
  trim, and split at the spaces. The first expression has the flag \<open>u\<close>: a pair of
  surrogates is one character, kept or replaced by one space as a whole.\<close>

definition keeps :: "env \<Rightarrow> int \<Rightarrow> bool" where
  "keeps e c = (is_letter_or_number e c \<or> is_space c)"

fun blank_punctuation :: "env \<Rightarrow> jsstring \<Rightarrow> jsstring" where
  "blank_punctuation e [] = []"
| "blank_punctuation e [c] = [if keeps e c then c else 0x20]"
| "blank_punctuation e (c # d # cs) =
     (if is_lead c \<and> is_trail d
      then (if keeps e (code_point c d) then [c, d] else [0x20]) @ blank_punctuation e cs
      else (if keeps e c then c else 0x20) # blank_punctuation e (d # cs))"

function collapse_spaces :: "jsstring \<Rightarrow> jsstring" where
  "collapse_spaces [] = []"
| "collapse_spaces (c # cs) =
     (if is_space c then 0x20 # collapse_spaces (dropWhile is_space cs)
      else c # collapse_spaces cs)"
  by pat_completeness auto
termination
  by (relation "measure length") (auto simp: length_dropWhile_le less_Suc_eq_le)

definition titleNoPunct :: "env \<Rightarrow> jsstring list \<Rightarrow> jsstring option \<Rightarrow> jsstring" where
  "titleNoPunct e titleWords rawTitle =
     trim (collapse_spaces (blank_punctuation e
       (case rawTitle of None \<Rightarrow> join_space titleWords | Some t \<Rightarrow> t)))"

definition orderedTokens :: "env \<Rightarrow> jsstring list \<Rightarrow> jsstring option \<Rightarrow> jsstring list" where
  "orderedTokens e titleWords rawTitle =
     (if titleNoPunct e titleWords rawTitle = [] then []
      else split_on 0x20 (titleNoPunct e titleWords rawTitle))"

definition orderedTokensLow :: "env \<Rightarrow> jsstring list \<Rightarrow> jsstring option \<Rightarrow> jsstring list" where
  "orderedTokensLow e titleWords rawTitle = map (toLowerCase e) (orderedTokens e titleWords rawTitle)"

definition singleWords :: "env \<Rightarrow> jsstring list \<Rightarrow> jsstring list" where
  "singleWords e titleWords =
     take 5 (array_from_set (filter (\<lambda>w. w \<noteq> []) (map (toLowerCase e) titleWords)))"

text \<open>The two \<open>for\<close> iterations over the token index.\<close>

function bigrams_from :: "nat \<Rightarrow> jsstring list \<Rightarrow> jsstring list" where
  "bigrams_from i low =
     (if i + 1 < length low
      then (low ! i @ js '' '' @ low ! (i + 1)) # bigrams_from (i + 1) low
      else [])"
  by pat_completeness auto
termination
  by (relation "measure (\<lambda>(i, low). length low - i)") auto

function trigrams_from :: "nat \<Rightarrow> jsstring list \<Rightarrow> jsstring list" where
  "trigrams_from i low =
     (if i + 2 < length low
      then (low ! i @ js '' '' @ low ! (i + 1) @ js '' '' @ low ! (i + 2)) # trigrams_from (i + 1) low
      else [])"
  by pat_completeness auto
termination
  by (relation "measure (\<lambda>(i, low). length low - i)") auto

declare bigrams_from.simps [simp del] trigrams_from.simps [simp del]

definition bigramKeys :: "env \<Rightarrow> jsstring list \<Rightarrow> jsstring option \<Rightarrow> jsstring list" where
  "bigramKeys e titleWords rawTitle = take 5 (bigrams_from 0 (orderedTokensLow e titleWords rawTitle))"

definition trigramKeys :: "env \<Rightarrow> jsstring list \<Rightarrow> jsstring option \<Rightarrow> jsstring list" where
  "trigramKeys e titleWords rawTitle = take 3 (trigrams_from 0 (orderedTokensLow e titleWords rawTitle))"

text \<open>\<open>w.charAt(0).toUpperCase() + w.slice(1)\<close>: the first code unit, as a string of its
  own, in upper case, and the rest.\<close>

definition capitalize :: "env \<Rightarrow> jsstring \<Rightarrow> jsstring" where
  "capitalize e w = (case w of [] \<Rightarrow> [] | c # cs \<Rightarrow> toUpperCase e [c] @ cs)"

definition candidates :: "env \<Rightarrow> jsstring list \<Rightarrow> jsstring option \<Rightarrow> jsstring list" where
  "candidates e titleWords rawTitle =
     concat (map (\<lambda>w. if 0 < length w then [w, capitalize e w] else [w]) (singleWords e titleWords))
     @ bigramKeys e titleWords rawTitle @ trigramKeys e titleWords rawTitle"

definition candidateSet :: "env \<Rightarrow> jsstring list \<Rightarrow> jsstring option \<Rightarrow> jsstring list" where
  "candidateSet e titleWords rawTitle =
     array_from_set (filter (\<lambda>c. c \<noteq> []) (candidates e titleWords rawTitle))"

text \<open>The candidate keys of a title, as the handler calls the engine: with the words of
  \<open>extractWordsFromTitle\<close> and the title itself.\<close>

definition title_candidates :: "env \<Rightarrow> jsstring \<Rightarrow> jsstring list" where
  "title_candidates e title = candidateSet e (extractWordsFromTitle e title) (Some title)"

function chunks_from :: "nat \<Rightarrow> 'a list \<Rightarrow> 'a list list" where
  "chunks_from i xs =
     (if i < length xs then take 20 (drop i xs) # chunks_from (i + 20) xs else [])"
  by pat_completeness auto
termination
  by (relation "measure (\<lambda>(i, xs). length xs - i)") auto

declare chunks_from.simps [simp del]

subsection \<open>Favorites and matches\<close>

record favorite =
  fav_id :: int
  fav_uid :: jsstring
  fav_key :: jsstring
  fav_type :: jsstring
  fav_category :: "jsstring option"
  fav_store :: "jsstring option"
  fav_min_price :: "int option"
  fav_max_price :: "int option"
  fav_min_discount :: "int option"

record match_entry =
  userId :: jsstring
  matchType :: jsstring
  keyword :: "jsstring option"
  offerId :: "jsval option"
  favoriteId :: int

text \<open>The query of one chunk: keyword favorites whose key, in the lower case of the database,
  is one of the chunk's candidates, each in the lower case of the runtime.\<close>

definition keyword_rows :: "env \<Rightarrow> favorite list \<Rightarrow> jsstring list \<Rightarrow> favorite list" where
  "keyword_rows e favs chunk =
     filter (\<lambda>f. fav_type f = js ''keyword'' \<and> sql_lower e (fav_key f) \<in> set (map (toLowerCase e) chunk)) favs"

text \<open>A text filter applies when the favorite has the field and the offer has it too (both
  truthy, that is non-empty); the two are compared in lower case, trimmed.\<close>

definition text_filter_ok :: "env \<Rightarrow> jsstring option \<Rightarrow> jsstring option \<Rightarrow> bool" where
  "text_filter_ok e fav_field offer_field =
     (case (fav_field, offer_field) of
        (Some a, Some b) \<Rightarrow>
          (if a \<noteq> [] \<and> b \<noteq> [] then trim (toLowerCase e a) = trim (toLowerCase e b) else True)
      | _ \<Rightarrow> True)"

definition isMatch ::
    "env \<Rightarrow> favorite \<Rightarrow> int option \<Rightarrow> int option \<Rightarrow> jsstring option \<Rightarrow> jsstring option \<Rightarrow> bool" where
  "isMatch e row offerPrice offerDiscount offerStore offerCategory =
     (text_filter_ok e (fav_category row) offerCategory
      \<and> text_filter_ok e (fav_store row) offerStore
      \<and> (case (fav_min_price row, offerPrice) of (Some lo, Some p) \<Rightarrow> \<not> p < lo | _ \<Rightarrow> True)
      \<and> (case (fav_max_price row, offerPrice) of (Some hi, Some p) \<Rightarrow> \<not> p > hi | _ \<Rightarrow> True)
      \<and> (case (fav_min_discount row, offerDiscount) of (Some d, Some p) \<Rightarrow> \<not> p < d | _ \<Rightarrow> True))"

definition keyword_match :: "favorite \<Rightarrow> match_entry" where
  "keyword_match row =
     \<lparr>userId = fav_uid row, matchType = js ''keyword'', keyword = Some (fav_key row),
      offerId = None, favoriteId = fav_id row\<rparr>"

definition product_match :: "jsval option \<Rightarrow> favorite \<Rightarrow> match_entry" where
  "product_match oid row =
     \<lparr>userId = fav_uid row, matchType = js ''product'', keyword = None,
      offerId = oid, favoriteId = fav_id row\<rparr>"

definition product_rows :: "favorite list \<Rightarrow> jsval option \<Rightarrow> favorite list" where
  "product_rows favs oid =
     (case oid of None \<Rightarrow> []
      | Some v \<Rightarrow> if truthy oid then filter (\<lambda>f. fav_type f = js ''offer'' \<and> fav_key f = js_String v) favs else [])"

text \<open>The key of the last loop: \<open>`${m.userId}|${m.matchType}|${m.keyword || m.offerId || ''}`\<close>.\<close>

definition dedup_key :: "match_entry \<Rightarrow> jsstring" where
  "dedup_key m =
     userId m @ js ''|'' @ matchType m @ js ''|'' @
       (case keyword m of
          Some k \<Rightarrow> if k \<noteq> [] then k else string_or_empty (offerId m)
        | None \<Rightarrow> string_or_empty (offerId m))"

fun dedup :: "jsstring set \<Rightarrow> match_entry list \<Rightarrow> match_entry list" where
  "dedup seen [] = []"
| "dedup seen (m # ms) =
     (if dedup_key m \<in> seen then dedup seen ms else m # dedup (insert (dedup_key m) seen) ms)"

definition all_matches ::
    "env \<Rightarrow> favorite list \<Rightarrow> jsstring list \<Rightarrow> jsstring option \<Rightarrow> jsval option \<Rightarrow> int option \<Rightarrow> int option
       \<Rightarrow> jsstring option \<Rightarrow> jsstring option \<Rightarrow> match_entry list" where
  "all_matches e favs titleWords rawTitle oid offerPrice offerDiscount offerStore offerCategory =
     concat (map (\<lambda>chunk.
         map keyword_match
           (filter (\<lambda>row. isMatch e row offerPrice offerDiscount offerStore offerCategory)
              (keyword_rows e favs chunk)))
       (chunks_from 0 (candidateSet e titleWords rawTitle)))
     @ map (product_match oid) (product_rows favs oid)"

definition findUsersWithMatchingKeywords ::
    "env \<Rightarrow> favorite list \<Rightarrow> jsstring list \<Rightarrow> jsstring option \<Rightarrow> jsval option \<Rightarrow> int option \<Rightarrow> int option
       \<Rightarrow> jsstring option \<Rightarrow> jsstring option \<Rightarrow> match_entry list" where
  "findUsersWithMatchingKeywords e favs titleWords rawTitle oid offerPrice offerDiscount offerStore offerCategory =
     dedup {} (all_matches e favs titleWords rawTitle oid offerPrice offerDiscount offerStore offerCategory)"

section \<open>The store\<close>

text \<open>
  The tables the engine reads and writes, with the columns it uses (the text columns of a
  notification, which nothing reads back, are left out), the serial id the next notification
  gets, and the messages handed to the push provider so far, in the order of the calls.
  Database statements are taken to succeed.
\<close>

record user_row =
  u_uid :: jsstring
  token_fcm :: "jsstring option"
  superoffers :: "bool option"
  favorites_searches :: "bool option"
  favorites_products :: "bool option"

record notification =
  n_id :: int
  n_offer_id :: "jsstring option"
  n_target :: "jsstring option"
  n_created_at :: int
  n_uid :: "jsstring option"
  n_type :: "jsstring option"

record receipt =
  r_uid :: jsstring
  r_sent_at :: int
  r_notification_id :: "int option"
  r_withdrawn :: "bool option"
  r_read :: "bool option"
  r_reason :: "jsstring option"

datatype fcm_message =
    PushMessage jsstring jsstring
  | RetractMessage jsstring "jsstring option" "jsstring option"

record store =
  offers :: "jsobj list"
  favorites :: "favorite list"
  users :: "user_row list"
  notifications :: "notification list"
  users_notifications :: "receipt list"
  next_notification_id :: int
  outbox :: "fcm_message list"

section \<open>Preferences and device tokens\<close>

record prefs =
  p_push :: bool
  p_new_offers :: bool
  p_super :: bool
  p_favorites_enabled :: bool
  p_favorites_products :: bool
  p_favorites_searches :: bool

definition getUserPreferences :: "store \<Rightarrow> jsstring \<Rightarrow> prefs option" where
  "getUserPreferences db uid =
     (case filter (\<lambda>u. u_uid u = uid) (users db) of
        [] \<Rightarrow> None
      | row # _ \<Rightarrow>
          (let superOffers = (superoffers row = Some True);
               favProducts = (favorites_products row = Some True);
               favSearches = (favorites_searches row = Some True);
               favoritesEnabled = (favProducts \<or> favSearches);
               pushEnabled = (superOffers \<or> favoritesEnabled)
           in Some \<lparr>p_push = pushEnabled, p_new_offers = pushEnabled, p_super = superOffers,
                      p_favorites_enabled = favoritesEnabled, p_favorites_products = favProducts,
                      p_favorites_searches = favSearches\<rparr>))"

definition getUserFcmToken :: "store \<Rightarrow> jsstring \<Rightarrow> jsstring option" where
  "getUserFcmToken db uid =
     (case filter (\<lambda>u. u_uid u = uid) (users db) of
        [] \<Rightarrow> None
      | row # _ \<Rightarrow>
          (case token_fcm row of
             None \<Rightarrow> None
           | Some t \<Rightarrow> if t \<noteq> [] then Some (trim t) else None))"

definition shouldSendNotification :: "prefs option \<Rightarrow> jsstring \<Rightarrow> bool" where
  "shouldSendNotification ps mt =
     (case ps of
        None \<Rightarrow> False
      | Some p \<Rightarrow>
          if \<not> p_push p \<or> \<not> p_new_offers p then False
          else if \<not> p_favorites_enabled p then False
          else if mt = js ''product'' then p_favorites_products p else p_favorites_searches p)"

section \<open>Fan-out Dispatcher\<close>

definition insert_notification :: "notification \<Rightarrow> store \<Rightarrow> store" where
  "insert_notification n db =
     db\<lparr>notifications := notifications db @ [n\<lparr>n_id := next_notification_id db\<rparr>],
        next_notification_id := next_notification_id db + 1\<rparr>"

text \<open>\<open>String(offerId)\<close> of a value that may be \<open>undefined\<close>.\<close>

definition string_of_arg :: "jsval option \<Rightarrow> jsstring" where
  "string_of_arg x = (case x of None \<Rightarrow> js ''undefined'' | Some v \<Rightarrow> js_String v)"

definition createFirestoreNotificationDoc :: "env \<Rightarrow> jsval option \<Rightarrow> jsstring list \<Rightarrow> jsstring \<Rightarrow> store \<Rightarrow> store" where
  "createFirestoreNotificationDoc e oid userIds ty db =
     fold (\<lambda>uid. insert_notification
             \<lparr>n_id = 0, n_offer_id = Some (string_of_arg oid), n_target = None,
              n_created_at = now e, n_uid = uid, n_type = Some ty\<rparr>)
       (if userIds \<noteq> [] then map Some userIds else [None]) db"

text \<open>\<open>String(offerId || 'unknown')\<close>, the target of a favorites notification.\<close>

definition offer_target :: "jsval option \<Rightarrow> jsstring" where
  "offer_target oid =
     (case oid of None \<Rightarrow> js ''unknown'' | Some v \<Rightarrow> if truthy oid then js_String v else js ''unknown'')"

text \<open>The reasons of a fan-out are an object from user ids to favorite ids, kept as the list of
  its entries. When none is given and there is an offer id, the product favorites of the offer
  fill it in, the first favorite of each user.\<close>

definition autofill_reasons :: "store \<Rightarrow> jsval option \<Rightarrow> (jsstring \<times> jsstring) list \<Rightarrow> (jsstring \<times> jsstring) list" where
  "autofill_reasons db oid reasonByUid =
     (if reasonByUid = [] \<and> truthy oid
      then foldl (\<lambda>m row. if fav_uid row \<noteq> [] \<and> map_of m (fav_uid row) = None
                           then m @ [(fav_uid row, js_String (JNum (fav_id row)))] else m)
             [] (product_rows (favorites db) oid)
      else reasonByUid)"

text \<open>The task of one recipient: the preference gate, called with the match type
  \<open>'product'\<close>, then the device token, then the send. \<open>notify_token\<close> is the token the
  task sends to, when it gets that far.\<close>

definition notify_token :: "store \<Rightarrow> jsstring \<Rightarrow> jsstring option" where
  "notify_token db uid =
     (case getUserPreferences db uid of
        None \<Rightarrow> None
      | Some p \<Rightarrow>
          if \<not> shouldSendNotification (Some p) (js ''product'') then None
          else (case getUserFcmToken db uid of
                  None \<Rightarrow> None
                | Some fcmToken \<Rightarrow> if fcmToken = [] then None else Some fcmToken))"

definition notify_task :: "env \<Rightarrow> store \<Rightarrow> jsstring \<Rightarrow> jsstring option" where
  "notify_task e db uid =
     (case notify_token db uid of
        None \<Rightarrow> None
      | Some fcmToken \<Rightarrow>
          (case push_outcome e fcmToken of SendOk \<Rightarrow> Some uid | _ \<Rightarrow> None))"

definition notified_users :: "env \<Rightarrow> store \<Rightarrow> jsstring list \<Rightarrow> jsstring list" where
  "notified_users e db userIds = filter (\<lambda>v. v \<noteq> []) (List.map_filter (notify_task e db) userIds)"

definition insert_receipts :: "env \<Rightarrow> int \<Rightarrow> jsval option \<Rightarrow> (jsstring \<times> jsstring) list \<Rightarrow> jsstring list \<Rightarrow> store \<Rightarrow> store" where
  "insert_receipts e notificationId oid reasons notified db =
     db\<lparr>users_notifications := users_notifications db @
          map (\<lambda>uid. \<lparr>r_uid = uid, r_sent_at = now e, r_notification_id = Some notificationId,
                      r_withdrawn = Some False, r_read = Some False,
                      r_reason = (case map_of reasons uid of
                                    Some r \<Rightarrow> Some r
                                  | None \<Rightarrow> (case oid of None \<Rightarrow> None
                                             | Some v \<Rightarrow> if truthy oid then Some (js_String v) else None))\<rparr>)
            notified\<rparr>"

text \<open>The exceptions of the runtime that the code can raise, and one step after another, the
  second only when the first did not throw.\<close>

datatype js_error = ReferenceError | TypeError

definition sum_bind :: "js_error + 'a \<Rightarrow> ('a \<Rightarrow> js_error + 'b) \<Rightarrow> js_error + 'b" where
  "sum_bind x f = (case x of Inl err \<Rightarrow> Inl err | Inr v \<Rightarrow> f v)"

text \<open>\<open>optimizeAmazonImage\<close>: \<open>null\<close> for a falsy argument; a string that includes the
  host of the image server gets \<open>._SS250\<close> before its extension, any other string is returned
  as it is. An argument that is truthy and not a string has no \<open>includes\<close>, and the call
  throws. The expression \<open>/(\.[^.\/]+)$/\<close> matches the last dot of the string with what
  follows it, when that is not empty and has no slash.\<close>

definition with_thumbnail_size :: "jsstring \<Rightarrow> jsstring" where
  "with_thumbnail_size url =
     (let ext = rev (takeWhile (\<lambda>c. c \<noteq> 0x2E) (rev url));
          stem = take (length url - length ext - 1) url
      in if 0x2E \<in> set url \<and> ext \<noteq> [] \<and> 0x2F \<notin> set ext
         then stem @ js ''._SS250'' @ js ''.'' @ ext
         else url)"

definition optimizeAmazonImage :: "jsval option \<Rightarrow> js_error + jsval" where
  "optimizeAmazonImage url =
     (if \<not> truthy url then Inr JNull
      else (case url of
              Some (JStr s) \<Rightarrow>
                Inr (JStr (if str_includes s (js ''m.media-amazon.com'') then with_thumbnail_size s else s))
            | _ \<Rightarrow> Inl TypeError))"

text \<open>\<open>notifyUsersAboutOffer\<close>. The image of the message is computed first, outside every
  \<open>try\<close>: when that throws, nothing has been written or sent. \<open>notify_fanout\<close> is the
  function from there on: the notification row, the reasons, the tasks of the recipients, and
  the receipts of the notified. A message is recorded by its device token and its target.\<close>

definition notify_fanout ::
    "env \<Rightarrow> jsstring list \<Rightarrow> jsval option \<Rightarrow> (jsstring \<times> jsstring) list \<Rightarrow> store \<Rightarrow> store \<times> jsstring list" where
  "notify_fanout e userIds oid reasonByUid db =
     (let notificationId = next_notification_id db;
          db1 = insert_notification
                  \<lparr>n_id = 0, n_offer_id = pg_text oid, n_target = Some (offer_target oid),
                   n_created_at = now e, n_uid = None, n_type = None\<rparr> db;
          finalReasonByUid = autofill_reasons db1 oid reasonByUid;
          notified = notified_users e db1 userIds;
          db2 = db1\<lparr>outbox := outbox db1 @
                   map (\<lambda>t. PushMessage t (offer_target oid)) (List.map_filter (notify_token db1) userIds)\<rparr>;
          db3 = (if notified \<noteq> []
                 then (let db' = createFirestoreNotificationDoc e oid notified (js ''favorites'') db2
                       in if notificationId \<noteq> 0
                          then insert_receipts e notificationId oid finalReasonByUid notified db'
                          else db')
                 else db2)
      in (db3, notified))"

definition notifyUsersAboutOffer ::
    "env \<Rightarrow> jsstring list \<Rightarrow> jsobj \<Rightarrow> jsval option \<Rightarrow> (jsstring \<times> jsstring) list \<Rightarrow> store
       \<Rightarrow> js_error + store \<times> jsstring list" where
  "notifyUsersAboutOffer e userIds post oid reasonByUid db =
     (case optimizeAmazonImage (post ''original_image'') of
        Inl err \<Rightarrow> Inl err
      | Inr img \<Rightarrow> Inr (notify_fanout e userIds oid reasonByUid db))"

text \<open>\<open>sendSuperOfferNotification\<close>, which computes the image in the same way before it
  reads the recipients; \<open>superoffer_fanout\<close> is the function from there on.\<close>

definition superoffer_fanout :: "env \<Rightarrow> jsval option \<Rightarrow> store \<Rightarrow> store" where
  "superoffer_fanout e oid db =
     (let recipients = filter (\<lambda>u. superoffers u = Some True \<and> token_fcm u \<noteq> None) (users db)
      in if recipients = [] then db
         else
           (let db1 = db\<lparr>outbox := outbox db @
                        map (\<lambda>u. PushMessage (case token_fcm u of Some t \<Rightarrow> t | None \<Rightarrow> []) (string_of_arg oid))
                          recipients\<rparr>;
                notified = filter (\<lambda>v. v \<noteq> [])
                   (map u_uid (filter (\<lambda>u. (case token_fcm u of
                                                Some t \<Rightarrow> push_outcome e t = SendOk | None \<Rightarrow> False))
                                  recipients))
            in if notified \<noteq> [] then createFirestoreNotificationDoc e oid notified (js ''superoffer'') db1
               else db1))"

definition sendSuperOfferNotification :: "env \<Rightarrow> jsobj \<Rightarrow> jsval option \<Rightarrow> store \<Rightarrow> js_error + store" where
  "sendSuperOfferNotification e post oid db =
     (case optimizeAmazonImage (post ''original_image'') of
        Inl err \<Rightarrow> Inl err
      | Inr img \<Rightarrow> Inr (superoffer_fanout e oid db))"

section \<open>Retraction Manager\<close>

record withdraw_row =
  w_target :: "jsstring option"
  w_notification_id :: int
  w_uid :: jsstring
  w_token :: "jsstring option"

text \<open>\<open>LEFT JOIN "users" u ON u.uid = un.uid\<close>: one row for each user row with the uid, or
  one row with a \<open>NULL\<close> token when there is none.\<close>

definition joined_tokens :: "store \<Rightarrow> jsstring \<Rightarrow> jsstring option list" where
  "joined_tokens db uid =
     (case filter (\<lambda>u. u_uid u = uid) (users db) of [] \<Rightarrow> [None] | us \<Rightarrow> map token_fcm us)"

definition not_withdrawn :: "receipt \<Rightarrow> bool" where
  "not_withdrawn un = (r_withdrawn un \<noteq> Some True)"

definition joined_rows :: "store \<Rightarrow> notification list \<Rightarrow> withdraw_row list" where
  "joined_rows db ns =
     concat (map (\<lambda>n.
       concat (map (\<lambda>un.
           map (\<lambda>tok. \<lparr>w_target = n_target n, w_notification_id = n_id n, w_uid = r_uid un, w_token = tok\<rparr>)
             (joined_tokens db (r_uid un)))
         (filter (\<lambda>un. r_notification_id un = Some (n_id n) \<and> not_withdrawn un) (users_notifications db))))
       ns)"

definition mark_withdrawn :: "int list \<Rightarrow> store \<Rightarrow> store" where
  "mark_withdrawn ids db =
     (if ids \<noteq> []
      then db\<lparr>users_notifications :=
             map (\<lambda>un. case r_notification_id un of
                         Some i \<Rightarrow> if i \<in> set ids then un\<lparr>r_withdrawn := Some True\<rparr> else un
                       | None \<Rightarrow> un)
               (users_notifications db)\<rparr>
      else db)"

text \<open>Both queries answer with the store after the update, the number of notification ids
  marked, and the joined rows.\<close>

definition withdrawNotificationsForOffer :: "jsval option \<Rightarrow> store \<Rightarrow> store \<times> nat \<times> withdraw_row list" where
  "withdrawNotificationsForOffer oid db =
     (let rows = joined_rows db (filter (\<lambda>n. pg_text oid \<noteq> None \<and> n_offer_id n = pg_text oid) (notifications db));
          notificationIds = array_from_set (map w_notification_id rows)
      in (mark_withdrawn notificationIds db, length notificationIds, rows))"

definition withdrawNotificationById :: "int \<Rightarrow> store \<Rightarrow> store \<times> nat \<times> withdraw_row list" where
  "withdrawNotificationById notificationId db =
     (let rows = joined_rows db (filter (\<lambda>n. n_id n = notificationId) (notifications db));
          notificationIds = array_from_set (map w_notification_id rows)
      in (mark_withdrawn notificationIds db, length notificationIds, rows))"

record retract_result =
  updated :: nat
  sent :: nat

definition token_truthy :: "jsstring option \<Rightarrow> bool" where
  "token_truthy t = (case t of None \<Rightarrow> False | Some s \<Rightarrow> s \<noteq> [])"

definition retract_succeeds :: "env \<Rightarrow> withdraw_row \<Rightarrow> bool" where
  "retract_succeeds e r = (case w_token r of None \<Rightarrow> False | Some t \<Rightarrow> data_outcome e t = SendOk)"

text \<open>\<open>withdrawOfferNotifications\<close>. After the sends are collected, the branch that logs a
  partial failure reads \<open>tokens.length\<close>; no \<open>tokens\<close> is in scope there, so
  evaluating the argument throws a \<open>ReferenceError\<close>.\<close>

definition withdrawOfferNotifications ::
    "env \<Rightarrow> jsstring \<Rightarrow> jsval option \<Rightarrow> jsstring \<Rightarrow> store \<Rightarrow> store \<times> (js_error + retract_result)" where
  "withdrawOfferNotifications e projectId oid token db =
     (case withdrawNotificationsForOffer oid db of (db1, n_updated, rows) \<Rightarrow>
        (let recipients = filter (\<lambda>r. token_truthy (w_token r)) rows
         in if projectId = [] \<or> token = [] then (db1, Inr \<lparr>updated = n_updated, sent = 0\<rparr>)
            else
              (let db2 = db1\<lparr>outbox := outbox db1 @
                           map (\<lambda>r. RetractMessage
                                       (case w_token r of Some t \<Rightarrow> t | None \<Rightarrow> [])
                                       (case w_target r of
                                          Some t \<Rightarrow> if t \<noteq> [] then Some t else None
                                        | None \<Rightarrow> if truthy oid then map_option js_String oid else None)
                                       (if w_notification_id r \<noteq> 0
                                        then Some (js_String (JNum (w_notification_id r))) else None))
                             recipients\<rparr>;
                   successCount = length (filter (retract_succeeds e) recipients);
                   failureCount = length (filter (\<lambda>r. \<not> retract_succeeds e r) recipients)
               in if failureCount > 0 then (db2, Inl ReferenceError)
                  else (db2, Inr \<lparr>updated = n_updated, sent = successCount\<rparr>))))"

text \<open>\<open>withdrawNotificationByIdFanout\<close>, the same fan-out by notification id; its partial
  failure branch logs \<open>recipients.length\<close> and returns.\<close>

definition withdrawNotificationByIdFanout ::
    "env \<Rightarrow> jsstring \<Rightarrow> int \<Rightarrow> jsstring \<Rightarrow> store \<Rightarrow> store \<times> (js_error + retract_result)" where
  "withdrawNotificationByIdFanout e projectId notificationId token db =
     (case withdrawNotificationById notificationId db of (db1, n_updated, rows) \<Rightarrow>
        (let recipients = filter (\<lambda>r. token_truthy (w_token r)) rows
         in if projectId = [] \<or> token = [] then (db1, Inr \<lparr>updated = n_updated, sent = 0\<rparr>)
            else
              (let db2 = db1\<lparr>outbox := outbox db1 @
                           map (\<lambda>r. RetractMessage
                                       (case w_token r of Some t \<Rightarrow> t | None \<Rightarrow> [])
                                       (case w_target r of
                                          Some t \<Rightarrow> if t \<noteq> [] then Some t else None
                                        | None \<Rightarrow> None)
                                       (Some (js_String (JNum (if w_notification_id r \<noteq> 0
                                                               then w_notification_id r else notificationId)))))
                             recipients\<rparr>;
                   successCount = length (filter (retract_succeeds e) recipients)
               in (db2, Inr \<lparr>updated = n_updated, sent = successCount\<rparr>))))"

text \<open>\<open>withdrawNotificationsSafe\<close> of the handler: nothing without an offer id, and every
  error of the fan-out is caught and logged.\<close>

definition withdrawNotificationsSafe :: "env \<Rightarrow> jsstring \<Rightarrow> jsstring \<Rightarrow> jsval option \<Rightarrow> store \<Rightarrow> store" where
  "withdrawNotificationsSafe e projectId token oid db =
     (if \<not> truthy oid then db else fst (withdrawOfferNotifications e projectId oid token db))"

section \<open>Queries of the reconciler\<close>

text \<open>\<open>findFavoritersByOffer(_, offerId, _, altOfferId = null)\<close>: the distinct users with a
  product favorite whose key is the offer id, or the alternative id when one is given and
  differs.\<close>

definition findFavoritersByOffer :: "store \<Rightarrow> jsval option \<Rightarrow> jsval option \<Rightarrow> jsstring list" where
  "findFavoritersByOffer db oid altOfferId =
     (let keys = oid # (if truthy altOfferId \<and> altOfferId \<noteq> oid then [altOfferId] else [])
      in filter (\<lambda>u. u \<noteq> [])
           (remdups (map fav_uid
              (filter (\<lambda>f. fav_type f = js ''offer'' \<and> Some (fav_key f) \<in> set (map pg_text keys))
                 (favorites db)))))"

text \<open>\<open>hasOfferBeenNotified\<close>: a notification of the offer created in the last 7 days.\<close>

definition hasOfferBeenNotified :: "env \<Rightarrow> store \<Rightarrow> jsval option \<Rightarrow> bool" where
  "hasOfferBeenNotified e db oid =
     (filter (\<lambda>n. pg_text oid \<noteq> None \<and> n_offer_id n = pg_text oid
                   \<and> n_created_at n > now e - 7 * 24 * 60 * 60 * 1000)
        (notifications db) \<noteq> [])"

subsection \<open>Categories\<close>

definition CATEGORIES :: "jsstring list" where
  "CATEGORIES =
     map js
       [''Abbigliamento'', ''Grandi elettrodomestici'', ''Auto e Moto'', ''Prima infanzia'',
        ''Bellezza'', ''Libri'', ''Informatica'', ''Musica Digitale'', ''Elettronica'', ''Altro'',
        ''Moda'', ''Giardino e giardinaggio'', ''Buoni Regalo'', ''Alimentari e cura della casa'',
        ''Handmade'', ''Salute e cura della persona'', ''Casa e cucina'', ''Industria e Scienza'',
        ''Gioielli'', ''Kindle Store'', ''Illuminazione'', ''Valigeria'', ''App e Giochi'',
        ''Film e TV'', ''CD e Vinili'', ''Strumenti musicali e DJ'',
        ''Cancelleria e prodotti per ufficio'', ''Prodotti per animali domestici'',
        ''Scarpe e borse'', ''Software'', ''Sport e tempo libero'', ''Fai da te'',
        ''Giochi e giocattoli'', ''Videogiochi'', ''Orologi'', ''Uncategorized'']"

definition subCategoriesMap :: "(jsstring \<times> jsstring list) list" where
  "subCategoriesMap =
     map (\<lambda>(main, subs). (js main, map js subs))
       [(''Tecnologia'', [''informatica'', ''elettronica'']),
        (''Moda'', [''abbigliamento'', ''moda'', ''gioielli'', ''valigeria'', ''scarpe e borse'', ''orologi'']),
        (''Casa'', [''grandi elettrodomestici'', ''casa e cucina'', ''illuminazione'']),
        (''Spesa'', [''alimentari e cura della casa'', ''salute e cura della persona'']),
        (''Bellezza'', [''bellezza'']),
        (''Animali'', [''prodotti per animali domestici'']),
        (''Infanzia'', [''prima infanzia'']),
        (''Libri'', [''libri'', ''kindle store'']),
        (''Tempo Libero'', [''giardino e giardinaggio'', ''sport e tempo libero'', ''fai da te'']),
        (''Altro'', [''auto e moto'', ''musica digitale'', ''altro'', ''libri in altre lingue'',
                    ''buoni regalo'', ''handmade'', ''app e giochi'', ''film e tv'', ''cd e vinili'',
                    ''strumenti musicali e dj'', ''software'', ''videogiochi'',
                    ''cancelleria e prodotti per ufficio'', ''industria e scienza'',
                    ''giochi e giocattoli''])]"

text \<open>\<open>determineMainCategory\<close> of utils.js. A truthy argument that is not a string has no
  \<open>toLowerCase\<close>, and the call throws.\<close>

definition determineMainCategory :: "env \<Rightarrow> jsval option \<Rightarrow> js_error + jsstring" where
  "determineMainCategory e originalCategory =
     (if \<not> truthy originalCategory then Inr (js ''Altro'')
      else (case originalCategory of
              Some (JStr s) \<Rightarrow>
                (let normalized = trim (toLowerCase e s)
                 in Inr (case filter (\<lambda>(main, subs). filter (\<lambda>sub. str_includes normalized sub) subs \<noteq> [])
                                 subCategoriesMap of
                           [] \<Rightarrow> js ''Altro''
                         | (main, _) # _ \<Rightarrow> main))
            | _ \<Rightarrow> Inl TypeError))"

text \<open>\<open>assignCategoryWithGroq\<close>: a post of an Amazon domain, or with a category that is one
  of \<open>CATEGORIES\<close> (compared in lower case), is left as it is; any other post gets the
  category of the service as \<open>category\<close> and \<open>category_original\<close>. The two tests come
  before the \<open>try\<close> of the function: a domain or a category that is truthy and not a string
  has no \<open>toLowerCase\<close>, and the call throws.\<close>

definition assignCategoryWithGroq :: "env \<Rightarrow> jsobj \<Rightarrow> jsval option \<Rightarrow> js_error + jsobj" where
  "assignCategoryWithGroq e post oid =
     (let domain = js_or (post ''domain'') (Some JNull);
          currentCategory = js_or (post ''category_original'') (Some JNull)
      in case (if \<not> truthy domain then Inr False
               else (case domain of
                       Some (JStr d) \<Rightarrow> Inr (str_includes (toLowerCase e d) (js ''amazon''))
                     | _ \<Rightarrow> Inl TypeError)) of
           Inl err \<Rightarrow> Inl err
         | Inr isAmazon \<Rightarrow>
             (case (if \<not> truthy currentCategory then Inr False
                    else (case currentCategory of
                            Some (JStr c) \<Rightarrow> Inr (toLowerCase e c \<in> set (map (toLowerCase e) CATEGORIES))
                          | _ \<Rightarrow> Inl TypeError)) of
                Inl err \<Rightarrow> Inl err
              | Inr categoryIsKnown \<Rightarrow>
                  if isAmazon \<or> categoryIsKnown then Inr post
                  else Inr (post(''category_original'' \<mapsto> JStr (groq_category e (post ''title'')),
                                 ''category'' \<mapsto> JStr (groq_category e (post ''title''))))))"

subsection \<open>Building the row\<close>

text \<open>\<open>buildRowFromPost\<close>: the row's \<open>offer_id\<close> and \<open>timestamp\<close>, then every other
  column of the table that the post has, converted by the column's type. A \<open>null\<close> has
  type \<open>'object'\<close> and is skipped with the objects.\<close>

definition convert_column :: "env \<Rightarrow> col_type \<Rightarrow> jsval \<Rightarrow> jsval" where
  "convert_column e t val =
     (case t of
        ColInt \<Rightarrow>
          (case val of
             JBool b \<Rightarrow> JNum (if b then 1 else 0)
           | JStr s \<Rightarrow> if s = [] then JNull else parse_int e s
           | v \<Rightarrow> v)
      | ColDecimal \<Rightarrow>
          (case val of
             JBool b \<Rightarrow> JNaN
           | JStr s \<Rightarrow> if s = [] then JNull else parse_float e s
           | v \<Rightarrow> v)
      | ColBool \<Rightarrow> JBool (toBool e (Some val))
      | ColString \<Rightarrow> JStr (js_String val))"

definition buildRowFromPost :: "env \<Rightarrow> jsval option \<Rightarrow> jsobj \<Rightarrow> jsobj" where
  "buildRowFromPost e payload_timestamp post =
     fold (\<lambda>(col, t) row.
             if col = ''offer_id'' \<or> col = ''timestamp'' then row
             else (case post col of
                     None \<Rightarrow> row
                   | Some JNull \<Rightarrow> row
                   | Some val \<Rightarrow> row(col \<mapsto> convert_column e t val)))
       (col_types e)
       [''offer_id'' \<mapsto> JStr (if string_or_empty (post ''offer_id'') = [] then generated_offer_id e
                                  else string_or_empty (post ''offer_id'')),
        ''timestamp'' \<mapsto> (case nullish (post ''timestamp'') (nullish payload_timestamp (Some (nowMs e))) of
                             Some v \<Rightarrow> js_Number e v | None \<Rightarrow> JNaN)]"

section \<open>Lifecycle Reconciler\<close>

text \<open>
  The handler of \<open>POST /manage-offer\<close>. The request body has a \<open>type\<close>, a
  \<open>timestamp\<close> and a \<open>post\<close>, an object of scalars (on such a post the override from a
  nested \<open>chatgpt\<close> object and the removal of an empty \<open>features\<close> array do nothing).
  The answer is the status and the JSON body. An exception anywhere is caught by the handler
  and answered with status 500; what was written before it stays written. The cache purge
  after a write has no effect on the store.
\<close>

record payload =
  p_type :: "jsval option"
  p_timestamp :: "jsval option"
  p_post :: "jsobj option"

datatype response =
    Ok200 string
  | Ok200_reason string string
  | Ok200_offer string "jsval option"
  | BadRequest string
  | InternalError

definition appInit :: "env \<Rightarrow> app_init" where
  "appInit e =
     (case app_init_config e of
        Some a \<Rightarrow> a
      | None \<Rightarrow> \<lparr>accept_incoming_requests = False, send_favorites_notifications = False,
                  send_super_offers_notifications = False\<rparr>)"

definition projectId :: "env \<Rightarrow> jsstring" where
  "projectId e = (case auth_project_id e of None \<Rightarrow> [] | Some p \<Rightarrow> p)"

definition accessToken :: "env \<Rightarrow> jsstring" where
  "accessToken e =
     (case auth_project_id e of
        None \<Rightarrow> []
      | Some _ \<Rightarrow> (case auth_access_token e of None \<Rightarrow> [] | Some t \<Rightarrow> t))"

text \<open>The post after \<open>if (post.title_clean) post.title = post.title_clean\<close>.\<close>

definition clean_title :: "jsobj \<Rightarrow> jsobj" where
  "clean_title post = (if truthy (post ''title_clean'') then post(''title'' := post ''title_clean'') else post)"

definition channelId :: "jsobj \<Rightarrow> jsstring" where
  "channelId post = string_or_empty (post ''channel_id'')"

text \<open>The early answers, in the order of the handler: requests switched off, missing fields,
  explicit content, a skipped channel, a link with the marker \<open>\u0026aod\u003d1\<close> (a link that
  is truthy and not a string has no \<open>includes\<close>), and a missing code. \<open>None\<close> lets
  the request through.\<close>

definition aod_marker :: jsstring where
  "aod_marker = js ([CHR 0x5C] @ ''u0026aod'' @ [CHR 0x5C] @ ''u003d1'')"

definition gate :: "env \<Rightarrow> payload \<Rightarrow> response option" where
  "gate e pl =
     (if \<not> accept_incoming_requests (appInit e) then Some (Ok200 ''skipped_incoming_disabled'')
      else (case p_post pl of
              None \<Rightarrow> Some (BadRequest ''Missing fields'')
            | Some post0 \<Rightarrow>
                if \<not> truthy (p_type pl) \<or> \<not> truthy (post0 ''offer_id'') then Some (BadRequest ''Missing fields'')
                else
                  (let post = clean_title post0
                   in if truthy (nullish (post ''is_explicit'') (Some (JBool False)))
                         \<or> channelId post \<in> SKIP_CHANNELS
                      then Some (Ok200 ''skipped'')
                      else (case js_or (post ''link'') (Some (JStr [])) of
                              Some (JStr link) \<Rightarrow>
                                if str_includes link aod_marker then Some (Ok200 ''skipped'')
                                else if \<not> truthy (post ''code'') then Some (BadRequest ''Missing code'')
                                else None
                            | _ \<Rightarrow> Some InternalError))))"

text \<open>What the handler knows once the row of the code is looked up.\<close>

record ctx =
  c_post :: jsobj
  c_channelId :: jsstring
  c_newPriority :: nat
  c_existing :: "jsobj option"
  c_existingPriority :: nat
  c_existingDocIsActive :: bool
  c_docIdToUse :: "jsval option"
  c_superOfferNotify :: bool

definition make_ctx :: "env \<Rightarrow> jsobj \<Rightarrow> store \<Rightarrow> ctx" where
  "make_ctx e post0 db =
     (let post = clean_title post0;
          existing = getOfferByCode (post ''code'') (offers db)
      in \<lparr>c_post = post(''super_offer_notify'' := None),
          c_channelId = channelId post,
          c_newPriority = getChannelPriority (channelId post),
          c_existing = existing,
          c_existingPriority =
            (case existing of None \<Rightarrow> 3 | Some ex \<Rightarrow> getChannelPriority (string_or_empty (ex ''channel_id''))),
          c_existingDocIsActive =
            (case existing of None \<Rightarrow> False
             | Some ex \<Rightarrow> \<not> toBool e (ex ''is_expired'') \<and> \<not> toBool e (ex ''is_deleted'')),
          c_docIdToUse = (case existing of None \<Rightarrow> post ''offer_id'' | Some ex \<Rightarrow> ex ''offer_id''),
          c_superOfferNotify = toBool e (post ''super_offer_notify'')\<rparr>)"

text \<open>\<open>(post.is_expired ?? false) || (post.is_deleted ?? false)\<close>.\<close>

definition isExpiredOrDeleted :: "jsobj \<Rightarrow> bool" where
  "isExpiredOrDeleted post =
     (truthy (nullish (post ''is_expired'') (Some (JBool False)))
      \<or> truthy (nullish (post ''is_deleted'') (Some (JBool False))))"

text \<open>\<open>post.timestamp ? Number(post.timestamp) : null\<close>.\<close>

definition post_timestamp :: "env \<Rightarrow> jsobj \<Rightarrow> jsval option" where
  "post_timestamp e post =
     (case post ''timestamp'' of
        None \<Rightarrow> None
      | Some v \<Rightarrow> if truthy (Some v) then Some (js_Number e v) else None)"

definition set_offers :: "jsobj list \<Rightarrow> store \<Rightarrow> store" where
  "set_offers tbl db = db\<lparr>offers := tbl\<rparr>"

subsection \<open>The three deletion branches\<close>

definition created_deletion :: "env \<Rightarrow> ctx \<Rightarrow> store \<Rightarrow> store \<times> response" where
  "created_deletion e cx db =
     (let db1 = withdrawNotificationsSafe e (projectId e) (accessToken e) (c_docIdToUse cx) db
      in if c_newPriority cx \<le> c_existingPriority cx
         then
           (let favoriters = findFavoritersByOffer db1 (c_docIdToUse cx) None;
                notified = hasOfferBeenNotified e db1 (c_docIdToUse cx)
            in if favoriters \<noteq> []
               then (set_offers (markOfferDeleted e (c_docIdToUse cx) (post_timestamp e (c_post cx)) (offers db1)) db1,
                     Ok200 ''ignored_deleted_because_in_favorites'')
               else if notified
               then (set_offers (markOfferDeleted e (c_docIdToUse cx) (Some (deleteAtPlusDays e)) (offers db1)) db1,
                     Ok200 ''soft_deleted'')
               else (set_offers (hardDeleteOffer (c_docIdToUse cx) (offers db1)) db1,
                     Ok200 ''deleted_via_create''))
         else (db1, Ok200 ''delete_ignored''))"

definition edited_deletion :: "env \<Rightarrow> ctx \<Rightarrow> store \<Rightarrow> store \<times> response" where
  "edited_deletion e cx db =
     (let db1 = withdrawNotificationsSafe e (projectId e) (accessToken e) (c_docIdToUse cx) db
      in if c_newPriority cx \<le> c_existingPriority cx
         then
           (let favoriters = findFavoritersByOffer db1 (c_docIdToUse cx) None;
                notified = hasOfferBeenNotified e db1 (c_docIdToUse cx)
            in if favoriters \<noteq> []
               then (set_offers (markOfferDeleted e (c_docIdToUse cx) (post_timestamp e (c_post cx)) (offers db1)) db1,
                     Ok200 ''ignored_deleted_because_in_favorites'')
               else if notified
               then (set_offers (markOfferDeleted e (c_docIdToUse cx) (Some (deleteAtPlusDays e)) (offers db1)) db1,
                     Ok200 ''soft_deleted'')
               else (set_offers (markOfferDeleted e (c_docIdToUse cx) (Some (deleteAtPlusDays e)) (offers db1)) db1,
                     Ok200 ''soft_deleted_via_edit''))
         else (db1, Ok200 ''delete_ignored''))"

definition handle_deleted :: "env \<Rightarrow> ctx \<Rightarrow> store \<Rightarrow> store \<times> response" where
  "handle_deleted e cx db =
     (let db1 = withdrawNotificationsSafe e (projectId e) (accessToken e) (c_docIdToUse cx) db
      in if c_newPriority cx > c_existingPriority cx
         then (db1, Ok200_reason ''skipped'' ''lower_priority_on_delete'')
         else
           (let favoriters = findFavoritersByOffer db1 (c_docIdToUse cx) None;
                notified = hasOfferBeenNotified e db1 (c_docIdToUse cx)
            in if favoriters \<noteq> []
               then (set_offers (markOfferDeleted e (c_docIdToUse cx) (post_timestamp e (c_post cx)) (offers db1)) db1,
                     Ok200 ''soft_deleted'')
               else if notified
               then (set_offers (markOfferDeleted e (c_docIdToUse cx) (Some (deleteAtPlusDays e)) (offers db1)) db1,
                     Ok200 ''soft_deleted'')
               else (set_offers (hardDeleteOffer (c_docIdToUse cx) (offers db1)) db1,
                     Ok200 ''deleted'')))"

subsection \<open>The active branches\<close>

definition have_credentials :: "env \<Rightarrow> bool" where
  "have_credentials e = (projectId e \<noteq> [] \<and> accessToken e \<noteq> [])"

text \<open>The super offer broadcast, which comes before the comparison of the priorities; the
  flag \<open>superofferSent\<close> is still false where either branch tests it. An exception of the
  broadcast is not caught before the handler's own \<open>catch\<close>.\<close>

definition superoffer_step :: "env \<Rightarrow> ctx \<Rightarrow> store \<Rightarrow> js_error + store" where
  "superoffer_step e cx db =
     (if c_superOfferNotify cx \<and> have_credentials e \<and> send_super_offers_notifications (appInit e)
      then sendSuperOfferNotification e (c_post cx) (c_docIdToUse cx) db else Inr db)"

text \<open>A notification of the favoriters of the offer, sent when the condition holds; its
  exception is not caught either.\<close>

definition notify_favoriters ::
    "env \<Rightarrow> bool \<Rightarrow> jsstring list \<Rightarrow> jsobj \<Rightarrow> jsval option \<Rightarrow> store \<Rightarrow> js_error + store" where
  "notify_favoriters e cond favoriters post oid db =
     (if cond
      then (case notifyUsersAboutOffer e favoriters post oid [] db of
              Inl err \<Rightarrow> Inl err
            | Inr (db1, notified) \<Rightarrow> Inr db1)
      else Inr db)"

text \<open>\<open>if (post.timestamp === -1) post.timestamp = timestampRequest === -1 ? Date.now() :
  timestampRequest\<close>, with \<open>timestampRequest = payload?.timestamp ?? null\<close>.\<close>

definition fix_timestamp :: "env \<Rightarrow> payload \<Rightarrow> jsobj \<Rightarrow> jsobj" where
  "fix_timestamp e pl post =
     (if post ''timestamp'' = Some (JNum (- 1))
      then post(''timestamp'' :=
             (if p_timestamp pl = Some (JNum (- 1)) then Some (nowMs e)
              else nullish (p_timestamp pl) (Some JNull)))
      else post)"

definition with_daily_offer :: "ctx \<Rightarrow> jsobj \<Rightarrow> jsobj" where
  "with_daily_offer cx post =
     post(''daily_offer'' \<mapsto>
            JBool (c_channelId cx = js ''-1001207516682'' \<or> c_channelId cx = js ''-1001305107383''))"

definition with_existing_offer_id :: "ctx \<Rightarrow> jsobj \<Rightarrow> jsobj" where
  "with_existing_offer_id cx post =
     (case c_existing cx of None \<Rightarrow> post | Some ex \<Rightarrow> post(''offer_id'' := ex ''offer_id''))"

definition wasPreviouslyFlagged :: "env \<Rightarrow> ctx \<Rightarrow> bool" where
  "wasPreviouslyFlagged e cx =
     (case c_existing cx of
        None \<Rightarrow> False
      | Some ex \<Rightarrow> toBool e (ex ''is_expired'') \<or> toBool e (ex ''is_deleted''))"

definition isNowAvailable :: "jsobj \<Rightarrow> bool" where
  "isNowAvailable post =
     (nullish (post ''is_expired'') (Some (JBool False)) = Some (JBool False)
      \<and> nullish (post ''is_deleted'') (Some (JBool False)) = Some (JBool False))"

definition built_row :: "env \<Rightarrow> payload \<Rightarrow> ctx \<Rightarrow> jsobj \<Rightarrow> jsobj" where
  "built_row e pl cx post = (buildRowFromPost e (p_timestamp pl) post)(''offer_id'' := c_docIdToUse cx)"

text \<open>The arguments the handler passes to the Match Engine: a text filter value is the string
  of a truthy field, a numeric one the number of a field that is not \<open>null\<close>.\<close>

definition text_arg :: "jsval option \<Rightarrow> jsstring option" where
  "text_arg x = (case x of None \<Rightarrow> None | Some v \<Rightarrow> if truthy x then Some (js_String v) else None)"

definition numeric_arg :: "env \<Rightarrow> jsval option \<Rightarrow> int option" where
  "numeric_arg e x =
     (case nullish x None of
        None \<Rightarrow> None
      | Some v \<Rightarrow> (case js_Number e v of JNum n \<Rightarrow> Some n | _ \<Rightarrow> None))"

text \<open>After a \<open>POST_CREATED\<close> row is persisted: match the title and notify the keyword
  favoriters. The block is inside a \<open>try\<close>: a title that is not a string throws at
  \<open>toLowerCase\<close>, an image that is not a string throws in the fan-out, and either is
  logged.\<close>

definition keyword_step :: "env \<Rightarrow> ctx \<Rightarrow> jsobj \<Rightarrow> store \<Rightarrow> store" where
  "keyword_step e cx post db =
     (if truthy (post ''title'') \<and> have_credentials e
      then (case post ''title'' of
              Some (JStr title) \<Rightarrow>
                (let titleWords = extractWordsFromTitle e title;
                     matches = findUsersWithMatchingKeywords e (favorites db) titleWords (Some title)
                                 (c_docIdToUse cx)
                                 (numeric_arg e (post ''price_numeric''))
                                 (numeric_arg e (post ''perc''))
                                 (text_arg (js_or (post ''store'') (post ''store_name'')))
                                 (text_arg (js_or (post ''category'') (post ''main_category'')));
                     keywordMatches = filter (\<lambda>m. matchType m = js ''keyword'') matches;
                     keywordUids = map userId keywordMatches;
                     reasonByUid = foldl (\<lambda>acc m. if userId m \<noteq> []
                                                   then (userId m, js_String (JNum (favoriteId m))) # acc
                                                   else acc) [] keywordMatches
                 in if keywordUids \<noteq> [] \<and> send_favorites_notifications (appInit e)
                    then (case notifyUsersAboutOffer e keywordUids post (c_docIdToUse cx) reasonByUid db of
                            Inl err \<Rightarrow> db
                          | Inr (db1, notified) \<Rightarrow> db1)
                    else db)
            | _ \<Rightarrow> db)
      else db)"

definition created_active :: "env \<Rightarrow> payload \<Rightarrow> ctx \<Rightarrow> store \<Rightarrow> store \<times> response" where
  "created_active e pl cx db =
     (case superoffer_step e cx db of
        Inl err \<Rightarrow> (db, InternalError)
      | Inr db1 \<Rightarrow>
          if c_existing cx \<noteq> None \<and> c_existingDocIsActive cx \<and> c_newPriority cx > c_existingPriority cx
          then (db1, Ok200_reason ''skipped'' ''lower_priority_channel'')
          else
            (case assignCategoryWithGroq e (fix_timestamp e pl (c_post cx)) (c_docIdToUse cx) of
               Inl err \<Rightarrow> (db1, InternalError)
             | Inr assigned \<Rightarrow>
                 (let post1 = with_daily_offer cx assigned
                  in case determineMainCategory e (nullish (post1 ''category_original'') (Some JNull)) of
                       Inl err \<Rightarrow> (db1, InternalError)
                     | Inr main_category \<Rightarrow>
                         (let post2 = with_existing_offer_id cx (post1(''main_category'' \<mapsto> JStr main_category));
                              row = built_row e pl cx post2;
                              favoriters = findFavoritersByOffer db1 (c_docIdToUse cx)
                                             (js_or (post2 ''offer_id'') (Some JNull))
                          in case notify_favoriters e
                                    (c_existing cx \<noteq> None \<and> wasPreviouslyFlagged e cx \<and> isNowAvailable post2
                                     \<and> favoriters \<noteq> [] \<and> have_credentials e
                                     \<and> send_favorites_notifications (appInit e))
                                    favoriters post2 (c_docIdToUse cx) db1 of
                               Inl err \<Rightarrow> (db1, InternalError)
                             | Inr db2 \<Rightarrow>
                                 (let db3 = set_offers (insertOrUpdateOffer row (offers db2)) db2
                                  in (keyword_step e cx post2 db3,
                                      Ok200_offer ''created'' (c_docIdToUse cx)))))))"

text \<open>\<open>existing?.price_numeric ? Number(existing.price_numeric) : null\<close> and
  \<open>post.price_numeric !== undefined ? Number(post.price_numeric) : null\<close>; the comparison
  \<open>newPrice < existingPrice\<close> is false when either is \<open>NaN\<close>.\<close>

definition existingPrice :: "env \<Rightarrow> ctx \<Rightarrow> jsval option" where
  "existingPrice e cx =
     (case c_existing cx of
        None \<Rightarrow> None
      | Some ex \<Rightarrow> (case ex ''price_numeric'' of
                     None \<Rightarrow> None
                   | Some v \<Rightarrow> if truthy (Some v) then Some (js_Number e v) else None))"

definition newPrice :: "env \<Rightarrow> jsobj \<Rightarrow> jsval option" where
  "newPrice e post = map_option (js_Number e) (post ''price_numeric'')"

definition price_dropped :: "jsval option \<Rightarrow> jsval option \<Rightarrow> bool" where
  "price_dropped new_price old_price =
     (case (new_price, old_price) of (Some (JNum n), Some (JNum m)) \<Rightarrow> n < m | _ \<Rightarrow> False)"

text \<open>The category of an edit: when the incoming one is not one of \<open>CATEGORIES\<close> (compared
  in lower case) and the existing row has one, the existing one is kept. An incoming category
  that is truthy and not a string throws.\<close>

definition keep_category :: "env \<Rightarrow> ctx \<Rightarrow> jsobj \<Rightarrow> js_error + jsobj" where
  "keep_category e cx post =
     (let incomingCat = js_or (post ''category'') (js_or (post ''category_original'') (Some JNull));
          existing_category = (case c_existing cx of None \<Rightarrow> None | Some ex \<Rightarrow> ex ''category'');
          kept = (if truthy existing_category
                  then post(''category'' \<mapsto> JStr (string_or_empty existing_category),
                            ''category_original'' \<mapsto> JStr (string_or_empty existing_category))
                  else post)
      in if \<not> truthy incomingCat then Inr kept
         else (case incomingCat of
                 Some (JStr c) \<Rightarrow>
                   if toLowerCase e c \<in> set (map (toLowerCase e) CATEGORIES) then Inr post else Inr kept
               | _ \<Rightarrow> Inl TypeError))"

definition restored_flags :: "env \<Rightarrow> ctx \<Rightarrow> jsobj \<Rightarrow> jsobj" where
  "restored_flags e cx post =
     (if wasPreviouslyFlagged e cx \<and> isNowAvailable post
      then post(''is_deleted'' \<mapsto> JBool False, ''is_expired'' \<mapsto> JBool False,
                ''timestamp_expired'' \<mapsto> JNum (- 1))
      else post)"

definition edited_active :: "env \<Rightarrow> payload \<Rightarrow> ctx \<Rightarrow> store \<Rightarrow> store \<times> response" where
  "edited_active e pl cx db =
     (case superoffer_step e cx db of
        Inl err \<Rightarrow> (db, InternalError)
      | Inr db1 \<Rightarrow>
          if c_existingDocIsActive cx \<and> c_newPriority cx > c_existingPriority cx
          then (db1, Ok200_reason ''skipped'' ''lower_priority_on_edit'')
          else
            (let post = c_post cx;
                 favoriters = findFavoritersByOffer db1 (c_docIdToUse cx) (js_or (post ''offer_id'') (Some JNull));
                 may_notify = (favoriters \<noteq> [] \<and> have_credentials e \<and> send_favorites_notifications (appInit e))
             in case notify_favoriters e (wasPreviouslyFlagged e cx \<and> isNowAvailable post \<and> may_notify)
                       favoriters post (c_docIdToUse cx) db1 of
                  Inl err \<Rightarrow> (db1, InternalError)
                | Inr db2 \<Rightarrow>
                    (case notify_favoriters e (price_dropped (newPrice e post) (existingPrice e cx) \<and> may_notify)
                            favoriters post (c_docIdToUse cx) db2 of
                       Inl err \<Rightarrow> (db2, InternalError)
                     | Inr db3 \<Rightarrow>
                         (case sum_bind (assignCategoryWithGroq e (fix_timestamp e pl post) (c_docIdToUse cx))
                                 (keep_category e cx) of
                            Inl err \<Rightarrow> (db3, InternalError)
                          | Inr post1 \<Rightarrow>
                              (case determineMainCategory e
                                      (nullish (with_daily_offer cx post1 ''category_original'') (Some JNull)) of
                                 Inl err \<Rightarrow> (db3, InternalError)
                               | Inr main_category \<Rightarrow>
                                   (let post2 = restored_flags e cx
                                                  (with_existing_offer_id cx
                                                     ((with_daily_offer cx post1)
                                                        (''main_category'' \<mapsto> JStr main_category)));
                                        row = built_row e pl cx post2
                                    in (set_offers (insertOrUpdateOffer row (offers db3)) db3,
                                        Ok200_offer ''edited'' (c_docIdToUse cx))))))))"

subsection \<open>The handler\<close>

definition manage_offer :: "env \<Rightarrow> payload \<Rightarrow> store \<Rightarrow> store \<times> response" where
  "manage_offer e pl db =
     (case gate e pl of
        Some r \<Rightarrow> (db, r)
      | None \<Rightarrow>
          (case p_post pl of
             None \<Rightarrow> (db, BadRequest ''Missing fields'')
           | Some post0 \<Rightarrow>
               (let cx = make_ctx e post0 db
                in if p_type pl = Some (JStr (js ''POST_CREATED''))
                   then (if isExpiredOrDeleted (c_post cx) then created_deletion e cx db
                         else created_active e pl cx db)
                   else if p_type pl = Some (JStr (js ''POST_EDITED''))
                   then (if isExpiredOrDeleted (c_post cx) then edited_deletion e cx db
                         else edited_active e pl cx db)
                   else if p_type pl = Some (JStr (js ''POST_DELETED''))
                   then handle_deleted e cx db
                   else (db, BadRequest ''Unknown type''))))"

section \<open>Example inputs\<close>

text \<open>A character database for the concrete instances below, which knows the Latin-1 range:
  the letters and numbers up to \<open>U+00FF\<close> and their case mappings, one code unit at a time
  but for the sharp s. Beyond that range it knows no letter and changes nothing.\<close>

definition latin_letter_or_number :: "int \<Rightarrow> bool" where
  "latin_letter_or_number c =
     (c \<in> set [0xAA, 0xB2, 0xB3, 0xB5, 0xB9, 0xBA, 0xBC, 0xBD, 0xBE]
      \<or> (0xC0 \<le> c \<and> c \<le> 0xFF \<and> c \<noteq> 0xD7 \<and> c \<noteq> 0xF7))"

definition latin_lower :: "jschar \<Rightarrow> jschar" where
  "latin_lower c = (if is_upper c \<or> (0xC0 \<le> c \<and> c \<le> 0xDE \<and> c \<noteq> 0xD7) then c + 0x20 else c)"

definition latin_upper :: "jschar \<Rightarrow> jsstring" where
  "latin_upper c =
     (if is_lower c \<or> (0xE0 \<le> c \<and> c \<le> 0xFE \<and> c \<noteq> 0xF7) then [c - 0x20]
      else if c = 0xDF then [0x53, 0x53]
      else if c = 0xFF then [0x178]
      else if c = 0xB5 then [0x39C]
      else [c])"

text \<open>A request environment with every switch on and every delivery succeeding, a table row,
  a post, a request and a store with nothing but offers.\<close>

definition example_env :: env where
  "example_env =
     \<lparr>app_init_config = Some \<lparr>accept_incoming_requests = True, send_favorites_notifications = True,
                               send_super_offers_notifications = True\<rparr>,
      auth_project_id = Some (js ''project''), auth_access_token = Some (js ''token''), now = 1000,
      col_types = [(''code'', ColString), (''channel_id'', ColString), (''title'', ColString),
                   (''is_expired'', ColBool), (''is_deleted'', ColBool), (''price_numeric'', ColInt)],
      groq_category = (\<lambda>title. js ''Uncategorized''), generated_offer_id = js ''generated'',
      push_outcome = (\<lambda>t. SendOk), data_outcome = (\<lambda>t. SendOk),
      string_to_number = (\<lambda>s. JNaN), parse_int = (\<lambda>s. JNaN), parse_float = (\<lambda>s. JNaN),
      unicode_letter_or_number = latin_letter_or_number,
      unicode_lower_case = map latin_lower,
      unicode_upper_case = (\<lambda>s. concat (map latin_upper s)),
      sql_lower = map latin_lower\<rparr>"

definition example_row :: "string \<Rightarrow> string \<Rightarrow> string \<Rightarrow> jsobj" where
  "example_row oid code channel =
     [''offer_id'' \<mapsto> JStr (js oid), ''code'' \<mapsto> JStr (js code), ''channel_id'' \<mapsto> JStr (js channel),
      ''timestamp'' \<mapsto> JNum 1]"

definition example_post :: "string \<Rightarrow> string \<Rightarrow> string \<Rightarrow> jsobj" where
  "example_post oid code channel =
     [''offer_id'' \<mapsto> JStr (js oid), ''code'' \<mapsto> JStr (js code), ''channel_id'' \<mapsto> JStr (js channel),
      ''title'' \<mapsto> JStr (js ''Cuffie Bluetooth Sony'')]"

definition example_request :: "string \<Rightarrow> jsobj \<Rightarrow> payload" where
  "example_request ty post =
     \<lparr>p_type = Some (JStr (js ty)), p_timestamp = Some (JNum 5), p_post = Some post\<rparr>"

definition example_store :: "jsobj list \<Rightarrow> store" where
  "example_store tbl =
     \<lparr>offers = tbl, favorites = [], users = [], notifications = [], users_notifications = [],
      next_notification_id = 1, outbox = []\<rparr>"

definition example_user :: "string \<Rightarrow> string \<Rightarrow> bool \<Rightarrow> bool \<Rightarrow> user_row" where
  "example_user uid tok products searches =
     \<lparr>u_uid = js uid, token_fcm = Some (js tok), superoffers = Some False,
      favorites_searches = Some searches, favorites_products = Some products\<rparr>"

definition example_notification :: "int \<Rightarrow> string \<Rightarrow> notification" where
  "example_notification i oid =
     \<lparr>n_id = i, n_offer_id = Some (js oid), n_target = Some (js oid), n_created_at = 900,
      n_uid = None, n_type = None\<rparr>"

definition example_receipt :: "string \<Rightarrow> int \<Rightarrow> receipt" where
  "example_receipt uid i =
     \<lparr>r_uid = js uid, r_sent_at = 900, r_notification_id = Some i, r_withdrawn = Some False,
      r_read = Some False, r_reason = None\<rparr>"

definition notified_store :: store where
  "notified_store =
     \<lparr>offers = [example_row ''o1'' ''c1'' ''-1001305107383''], favorites = [],
      users = [example_user ''u1'' ''device1'' True False],
      notifications = [example_notification 7 ''o1''],
      users_notifications = [example_receipt ''u1'' 7],
      next_notification_id = 8, outbox = []\<rparr>"

definition failing_env :: env where
  "failing_env = example_env\<lparr>data_outcome := (\<lambda>t. SendRejected)\<rparr>"

definition preference_store :: store where
  "preference_store =
     \<lparr>offers = [], favorites = [],
      users = [example_user ''u1'' ''device1'' True False, example_user ''u2'' ''device2'' False True],
      notifications = [], users_notifications = [], next_notification_id = 1, outbox = []\<rparr>"

text \<open>What identifies a match entry to its user: the user, the match type and the key (the
  keyword of a keyword match, the offer id of a product match).\<close>

definition match_identity :: "match_entry \<Rightarrow> jsstring \<times> jsstring \<times> jsstring option \<times> jsval option" where
  "match_identity m = (userId m, matchType m, keyword m, offerId m)"

definition example_keyword_favorite :: "int \<Rightarrow> string \<Rightarrow> string \<Rightarrow> favorite" where
  "example_keyword_favorite i uid k =
     \<lparr>fav_id = i, fav_uid = js uid, fav_key = js k, fav_type = js ''keyword'', fav_category = None,
      fav_store = None, fav_min_price = None, fav_max_price = None, fav_min_discount = None\<rparr>"

text \<open>One column of a table, row by row.\<close>

definition column :: "string \<Rightarrow> jsobj list \<Rightarrow> jsval option list" where
  "column c tbl = map (\<lambda>r. r c) tbl"

definition example_product_favorite :: "int \<Rightarrow> string \<Rightarrow> string \<Rightarrow> favorite" where
  "example_product_favorite i uid oid =
     \<lparr>fav_id = i, fav_uid = js uid, fav_key = js oid, fav_type = js ''offer'', fav_category = None,
      fav_store = None, fav_min_price = None, fav_max_price = None, fav_min_discount = None\<rparr>"

definition favorited_store :: store where
  "favorited_store =
     \<lparr>offers = [example_row ''o1'' ''c1'' ''other''],
      favorites = [example_product_favorite 1 ''u1'' ''o1''],
      users = [example_user ''u1'' ''device1'' True False],
      notifications = [], users_notifications = [], next_notification_id = 1, outbox = []\<rparr>"

section \<open>String literals\<close>

text \<open>Different literals are different strings.\<close>

lemma js_inject [simp]: "js a = js b \<longleftrightarrow> a = b"
proof -
  have "inj (of_char :: char \<Rightarrow> int)" by (rule injI) simp
  then show ?thesis by (simp add: js_def inj_map_eq_map)
qed

lemma js_Nil [simp]: "js [] = []"
  by (simp add: js_def)

lemma js_is_Nil [simp]: "js a = [] \<longleftrightarrow> a = []"
  by (simp add: js_def)

lemma Nil_is_js [simp]: "[] = js a \<longleftrightarrow> a = []"
  by (auto simp add: js_def)

lemma length_js [simp]: "length (js a) = length a"
  by (simp add: js_def)

lemma js_append: "js (a @ b) = js a @ js b"
  by (simp add: js_def)

section \<open>Frame lemmas\<close>

text \<open>Notifications, retractions and the keyword step leave the offers, favorites and users
  tables alone.\<close>

lemma getChannelPriority_le: "getChannelPriority cid \<le> 3"
  by (simp add: getChannelPriority_def)

lemma insert_notification_frame [simp]:
  "offers (insert_notification n db) = offers db"
  "favorites (insert_notification n db) = favorites db"
  "users (insert_notification n db) = users db"
  "users_notifications (insert_notification n db) = users_notifications db"
  "outbox (insert_notification n db) = outbox db"
  by (simp_all add: insert_notification_def)

lemma createFirestoreNotificationDoc_frame_aux:
  "offers (fold (\<lambda>uid. insert_notification (f uid)) us db) = offers db \<and>
   favorites (fold (\<lambda>uid. insert_notification (f uid)) us db) = favorites db \<and>
   users (fold (\<lambda>uid. insert_notification (f uid)) us db) = users db \<and>
   users_notifications (fold (\<lambda>uid. insert_notification (f uid)) us db) = users_notifications db \<and>
   outbox (fold (\<lambda>uid. insert_notification (f uid)) us db) = outbox db"
  by (induction us arbitrary: db) simp_all

lemma createFirestoreNotificationDoc_frame [simp]:
  "offers (createFirestoreNotificationDoc e oid us ty db) = offers db"
  "favorites (createFirestoreNotificationDoc e oid us ty db) = favorites db"
  "users (createFirestoreNotificationDoc e oid us ty db) = users db"
  "users_notifications (createFirestoreNotificationDoc e oid us ty db) = users_notifications db"
  "outbox (createFirestoreNotificationDoc e oid us ty db) = outbox db"
  by (simp_all add: createFirestoreNotificationDoc_def createFirestoreNotificationDoc_frame_aux)

lemma insert_receipts_frame [simp]:
  "offers (insert_receipts e i oid rs ns db) = offers db"
  "favorites (insert_receipts e i oid rs ns db) = favorites db"
  "users (insert_receipts e i oid rs ns db) = users db"
  "notifications (insert_receipts e i oid rs ns db) = notifications db"
  by (simp_all add: insert_receipts_def)

lemma notify_fanout_frame [simp]:
  "offers (fst (notify_fanout e us oid rs db)) = offers db"
  "favorites (fst (notify_fanout e us oid rs db)) = favorites db"
  "users (fst (notify_fanout e us oid rs db)) = users db"
  by (simp_all add: notify_fanout_def Let_def)

lemma notifyUsersAboutOffer_Inr:
  "notifyUsersAboutOffer e us post oid rs db = Inr r \<Longrightarrow> r = notify_fanout e us oid rs db"
  by (auto simp add: notifyUsersAboutOffer_def split: sum.splits)

lemma notifyUsersAboutOffer_frame:
  assumes "notifyUsersAboutOffer e us post oid rs db = Inr (db1, notified)"
  shows "offers db1 = offers db" and "favorites db1 = favorites db" and "users db1 = users db"
proof -
  from notifyUsersAboutOffer_Inr[OF assms] have "notify_fanout e us oid rs db = (db1, notified)" by simp
  then have "db1 = fst (notify_fanout e us oid rs db)" by simp
  then show "offers db1 = offers db" and "favorites db1 = favorites db" and "users db1 = users db"
    by simp_all
qed

lemma superoffer_fanout_frame [simp]:
  "offers (superoffer_fanout e oid db) = offers db"
  "favorites (superoffer_fanout e oid db) = favorites db"
  "users (superoffer_fanout e oid db) = users db"
  by (simp_all add: superoffer_fanout_def Let_def)

lemma sendSuperOfferNotification_frame:
  assumes "sendSuperOfferNotification e post oid db = Inr db1"
  shows "offers db1 = offers db" and "favorites db1 = favorites db" and "users db1 = users db"
proof -
  from assms have "db1 = superoffer_fanout e oid db"
    by (auto simp add: sendSuperOfferNotification_def split: sum.splits)
  then show "offers db1 = offers db" and "favorites db1 = favorites db" and "users db1 = users db"
    by simp_all
qed

text \<open>The image of a post makes both fan-outs throw exactly when it is truthy and not a
  string.\<close>

lemma optimizeAmazonImage_throws:
  "(\<exists>err. optimizeAmazonImage url = Inl err) \<longleftrightarrow> truthy url \<and> (\<forall>s. url \<noteq> Some (JStr s))"
  by (cases url rule: truthy.cases) (simp_all add: optimizeAmazonImage_def)

lemma mark_withdrawn_frame [simp]:
  "offers (mark_withdrawn ids db) = offers db"
  "favorites (mark_withdrawn ids db) = favorites db"
  "users (mark_withdrawn ids db) = users db"
  "notifications (mark_withdrawn ids db) = notifications db"
  "next_notification_id (mark_withdrawn ids db) = next_notification_id db"
  "outbox (mark_withdrawn ids db) = outbox db"
  by (simp_all add: mark_withdrawn_def)

lemma withdrawOfferNotifications_frame [simp]:
  "offers (fst (withdrawOfferNotifications e p oid t db)) = offers db"
  "favorites (fst (withdrawOfferNotifications e p oid t db)) = favorites db"
  "users (fst (withdrawOfferNotifications e p oid t db)) = users db"
  "notifications (fst (withdrawOfferNotifications e p oid t db)) = notifications db"
  "next_notification_id (fst (withdrawOfferNotifications e p oid t db)) = next_notification_id db"
  by (simp_all add: withdrawOfferNotifications_def withdrawNotificationsForOffer_def Let_def)

lemma withdrawNotificationsSafe_frame [simp]:
  "offers (withdrawNotificationsSafe e p t oid db) = offers db"
  "favorites (withdrawNotificationsSafe e p t oid db) = favorites db"
  "users (withdrawNotificationsSafe e p t oid db) = users db"
  "notifications (withdrawNotificationsSafe e p t oid db) = notifications db"
  "next_notification_id (withdrawNotificationsSafe e p t oid db) = next_notification_id db"
  by (simp_all add: withdrawNotificationsSafe_def)

lemma superoffer_step_frame:
  assumes "superoffer_step e cx db = Inr db1"
  shows "offers db1 = offers db" and "favorites db1 = favorites db" and "users db1 = users db"
proof -
  from assms have "db1 = db \<or> sendSuperOfferNotification e (c_post cx) (c_docIdToUse cx) db = Inr db1"
    by (auto simp add: superoffer_step_def split: if_splits)
  then show "offers db1 = offers db" and "favorites db1 = favorites db" and "users db1 = users db"
    using sendSuperOfferNotification_frame[of e "c_post cx" "c_docIdToUse cx" db db1] by auto
qed

lemma superoffer_step_throws:
  "(\<exists>err. superoffer_step e cx db = Inl err) \<longleftrightarrow>
     c_superOfferNotify cx \<and> have_credentials e \<and> send_super_offers_notifications (appInit e)
     \<and> truthy (c_post cx ''original_image'') \<and> (\<forall>s. c_post cx ''original_image'' \<noteq> Some (JStr s))"
proof -
  have "(\<exists>err. sendSuperOfferNotification e (c_post cx) (c_docIdToUse cx) db = Inl err)
          \<longleftrightarrow> (\<exists>err. optimizeAmazonImage (c_post cx ''original_image'') = Inl err)"
    by (auto simp add: sendSuperOfferNotification_def split: sum.splits)
  then show ?thesis
    using optimizeAmazonImage_throws[of "c_post cx ''original_image''"]
    by (auto simp add: superoffer_step_def)
qed

lemma notify_favoriters_frame:
  assumes "notify_favoriters e c us post oid db = Inr db1"
  shows "offers db1 = offers db" and "favorites db1 = favorites db" and "users db1 = users db"
proof -
  from assms have "db1 = db \<or> (\<exists>ns. notifyUsersAboutOffer e us post oid [] db = Inr (db1, ns))"
    by (auto simp add: notify_favoriters_def split: if_splits sum.splits)
  then show "offers db1 = offers db" and "favorites db1 = favorites db" and "users db1 = users db"
    using notifyUsersAboutOffer_frame[of e us post oid "[]" db db1] by auto
qed

lemma keyword_step_frame [simp]:
  "offers (keyword_step e cx post db) = offers db"
  by (auto simp add: keyword_step_def Let_def notifyUsersAboutOffer_frame
      split: option.splits jsval.splits sum.splits)

lemma set_offers_simps [simp]:
  "offers (set_offers tbl db) = tbl"
  "favorites (set_offers tbl db) = favorites db"
  "users (set_offers tbl db) = users db"
  "notifications (set_offers tbl db) = notifications db"
  "users_notifications (set_offers tbl db) = users_notifications db"
  "outbox (set_offers tbl db) = outbox db"
  "next_notification_id (set_offers tbl db) = next_notification_id db"
  by (simp_all add: set_offers_def)


lemma built_row_offer_id: "built_row e pl cx post ''offer_id'' = c_docIdToUse cx"
  by (simp add: built_row_def)

lemma created_active_skip:
  assumes "c_existing cx \<noteq> None" "c_existingDocIsActive cx" "c_existingPriority cx < c_newPriority cx"
  shows "created_active e pl cx db =
           (case superoffer_step e cx db of
              Inl err \<Rightarrow> (db, InternalError)
            | Inr db1 \<Rightarrow> (db1, Ok200_reason ''skipped'' ''lower_priority_channel''))"
  using assms by (simp add: created_active_def split: sum.splits)

lemma created_active_outcome:
  "offers (fst (created_active e pl cx db)) = offers db
     \<and> (snd (created_active e pl cx db) = InternalError
         \<or> (c_existing cx \<noteq> None \<and> c_existingDocIsActive cx \<and> c_existingPriority cx < c_newPriority cx)
            \<and> snd (created_active e pl cx db) = Ok200_reason ''skipped'' ''lower_priority_channel'')
   \<or> \<not> (c_existing cx \<noteq> None \<and> c_existingDocIsActive cx \<and> c_existingPriority cx < c_newPriority cx)
     \<and> (\<exists>row. row ''offer_id'' = c_docIdToUse cx
            \<and> offers (fst (created_active e pl cx db)) = insertOrUpdateOffer row (offers db)
            \<and> snd (created_active e pl cx db) = Ok200_offer ''created'' (c_docIdToUse cx))"
proof (cases "superoffer_step e cx db")
  case (Inl err)
  then show ?thesis by (simp add: created_active_def)
next
  case db1: (Inr db1)
  note o1 = superoffer_step_frame(1)[OF db1]
  show ?thesis
  proof (cases "c_existing cx \<noteq> None \<and> c_existingDocIsActive cx \<and> c_existingPriority cx < c_newPriority cx")
    case True
    with db1 o1 show ?thesis by (simp add: created_active_def)
  next
    case pass: False
    show ?thesis
    proof (cases "assignCategoryWithGroq e (fix_timestamp e pl (c_post cx)) (c_docIdToUse cx)")
      case (Inl err)
      with db1 pass o1 show ?thesis by (auto simp add: created_active_def Let_def)
    next
      case assigned: (Inr assigned)
    let ?post1 = "with_daily_offer cx assigned"
    show ?thesis
    proof (cases "determineMainCategory e (nullish (?post1 ''category_original'') (Some JNull))")
      case (Inl err)
      with db1 pass assigned o1 show ?thesis by (auto simp add: created_active_def Let_def)
    next
      case mc: (Inr mc)
      let ?post2 = "with_existing_offer_id cx (?post1(''main_category'' \<mapsto> JStr mc))"
      let ?row = "built_row e pl cx ?post2"
      let ?favoriters = "findFavoritersByOffer db1 (c_docIdToUse cx) (js_or (?post2 ''offer_id'') (Some JNull))"
      let ?n = "notify_favoriters e
                  (c_existing cx \<noteq> None \<and> wasPreviouslyFlagged e cx \<and> isNowAvailable ?post2
                   \<and> ?favoriters \<noteq> [] \<and> have_credentials e \<and> send_favorites_notifications (appInit e))
                  ?favoriters ?post2 (c_docIdToUse cx) db1"
      show ?thesis
      proof (cases ?n)
        case (Inl err)
        with db1 assigned mc pass o1 show ?thesis by (auto simp add: created_active_def Let_def)
      next
        case db2: (Inr db2)
        have o: "offers db2 = offers db" using notify_favoriters_frame(1)[OF db2] o1 by simp
        have "?row ''offer_id'' = c_docIdToUse cx" by (rule built_row_offer_id)
        moreover have "offers (fst (created_active e pl cx db)) = insertOrUpdateOffer ?row (offers db)"
          using db1 assigned mc db2 pass o by (auto simp add: created_active_def Let_def)
        moreover have "snd (created_active e pl cx db) = Ok200_offer ''created'' (c_docIdToUse cx)"
          using db1 assigned mc db2 pass by (auto simp add: created_active_def Let_def)
        ultimately show ?thesis using pass by blast
      qed
    qed
    qed
  qed
qed

lemma created_active_pass:
  assumes "\<not> (c_existing cx \<noteq> None \<and> c_existingDocIsActive cx \<and> c_existingPriority cx < c_newPriority cx)"
  shows "snd (created_active e pl cx db) = InternalError
         \<or> (\<exists>row. row ''offer_id'' = c_docIdToUse cx
               \<and> offers (fst (created_active e pl cx db)) = insertOrUpdateOffer row (offers db)
               \<and> snd (created_active e pl cx db) = Ok200_offer ''created'' (c_docIdToUse cx))"
  using created_active_outcome[of e pl cx db] assms by blast

lemma created_active_error:
  assumes "snd (created_active e pl cx db) = InternalError"
  shows "offers (fst (created_active e pl cx db)) = offers db"
  using created_active_outcome[of e pl cx db] assms by auto

lemma edited_active_skip:
  assumes "c_existingDocIsActive cx" "c_existingPriority cx < c_newPriority cx"
  shows "edited_active e pl cx db =
           (case superoffer_step e cx db of
              Inl err \<Rightarrow> (db, InternalError)
            | Inr db1 \<Rightarrow> (db1, Ok200_reason ''skipped'' ''lower_priority_on_edit''))"
  using assms by (simp add: edited_active_def split: sum.splits)

lemma edited_active_outcome:
  "offers (fst (edited_active e pl cx db)) = offers db
     \<and> (snd (edited_active e pl cx db) = InternalError
         \<or> (c_existingDocIsActive cx \<and> c_existingPriority cx < c_newPriority cx)
            \<and> snd (edited_active e pl cx db) = Ok200_reason ''skipped'' ''lower_priority_on_edit'')
   \<or> \<not> (c_existingDocIsActive cx \<and> c_existingPriority cx < c_newPriority cx)
     \<and> (\<exists>row. row ''offer_id'' = c_docIdToUse cx
            \<and> offers (fst (edited_active e pl cx db)) = insertOrUpdateOffer row (offers db)
            \<and> snd (edited_active e pl cx db) = Ok200_offer ''edited'' (c_docIdToUse cx))"
proof (cases "superoffer_step e cx db")
  case (Inl err)
  then show ?thesis by (simp add: edited_active_def)
next
  case db1: (Inr db1)
  note o1 = superoffer_step_frame(1)[OF db1]
  let ?post = "c_post cx"
  let ?favoriters = "findFavoritersByOffer db1 (c_docIdToUse cx) (js_or (?post ''offer_id'') (Some JNull))"
  let ?may = "?favoriters \<noteq> [] \<and> have_credentials e \<and> send_favorites_notifications (appInit e)"
  let ?n1 = "notify_favoriters e (wasPreviouslyFlagged e cx \<and> isNowAvailable ?post \<and> ?may)
               ?favoriters ?post (c_docIdToUse cx) db1"
  show ?thesis
  proof (cases "c_existingDocIsActive cx \<and> c_existingPriority cx < c_newPriority cx")
    case True
    with db1 o1 show ?thesis by (simp add: edited_active_def)
  next
    case pass: False
    show ?thesis
    proof (cases ?n1)
      case (Inl err)
      with db1 pass o1 show ?thesis by (auto simp add: edited_active_def Let_def)
    next
      case db2: (Inr db2)
      note o2 = notify_favoriters_frame(1)[OF db2]
      let ?n2 = "notify_favoriters e (price_dropped (newPrice e ?post) (existingPrice e cx) \<and> ?may)
                   ?favoriters ?post (c_docIdToUse cx) db2"
      show ?thesis
      proof (cases ?n2)
        case (Inl err)
        with db1 db2 pass o1 o2 show ?thesis by (auto simp add: edited_active_def Let_def)
      next
        case db3: (Inr db3)
        have o: "offers db3 = offers db" using notify_favoriters_frame(1)[OF db3] o2 o1 by simp
        show ?thesis
        proof (cases "sum_bind (assignCategoryWithGroq e (fix_timestamp e pl ?post) (c_docIdToUse cx))
                        (keep_category e cx)")
          case (Inl err)
          with db1 db2 db3 pass o show ?thesis by (auto simp add: edited_active_def Let_def)
        next
          case p1: (Inr post1)
          show ?thesis
          proof (cases "determineMainCategory e (nullish (with_daily_offer cx post1 ''category_original'') (Some JNull))")
            case (Inl err)
            with db1 db2 db3 p1 pass o show ?thesis by (auto simp add: edited_active_def Let_def)
          next
            case mc: (Inr main_category)
            let ?row = "built_row e pl cx (restored_flags e cx (with_existing_offer_id cx
                          ((with_daily_offer cx post1)(''main_category'' \<mapsto> JStr main_category))))"
            have "?row ''offer_id'' = c_docIdToUse cx" by (rule built_row_offer_id)
            moreover have "offers (fst (edited_active e pl cx db)) = insertOrUpdateOffer ?row (offers db)"
              using db1 db2 db3 p1 mc pass o by (auto simp add: edited_active_def Let_def)
            moreover have "snd (edited_active e pl cx db) = Ok200_offer ''edited'' (c_docIdToUse cx)"
              using db1 db2 db3 p1 mc pass by (auto simp add: edited_active_def Let_def)
            ultimately show ?thesis using pass by blast
          qed
        qed
      qed
    qed
  qed
qed

lemma edited_active_pass:
  assumes "\<not> (c_existingDocIsActive cx \<and> c_existingPriority cx < c_newPriority cx)"
  shows "snd (edited_active e pl cx db) = InternalError
         \<or> (\<exists>row. row ''offer_id'' = c_docIdToUse cx
               \<and> offers (fst (edited_active e pl cx db)) = insertOrUpdateOffer row (offers db)
               \<and> snd (edited_active e pl cx db) = Ok200_offer ''edited'' (c_docIdToUse cx))"
  using edited_active_outcome[of e pl cx db] assms by blast


lemma make_ctx_active_existing:
  "c_existingDocIsActive (make_ctx e post0 db) \<Longrightarrow> c_existing (make_ctx e post0 db) \<noteq> None"
  by (auto simp add: make_ctx_def Let_def split: option.splits)

text \<open>
  Claim C2. The rank of a channel is 1 or 2 for the two named channels and 3, the largest rank,
  for every other id. For a request that passes the early answers and reports the offer active
  (\<open>POST_CREATED\<close> or \<open>POST_EDITED\<close>, neither flag set): when a row of the code exists, is
  active, and its channel has a strictly smaller rank than the incoming channel, the offers table
  is left as it was; the answer is \<open>skipped\<close> with the reason of a lower priority, and the
  handler's 500 in the one case where the super offer broadcast, which runs before the ranks are
  compared, throws. It throws exactly when the post asks for the broadcast, the credentials and
  the switch are there, and the image of the post is truthy and not a string. When the incoming
  rank is smaller or equal (or there is no active row), the answer is never \<open>skipped\<close>, and
  unless the handler fails with its 500, the row is written under the stable offer id.
\<close>

theorem priority_arbitration:
  assumes gate: "gate e pl = None"
    and post: "p_post pl = Some post0"
    and cx: "cx = make_ctx e post0 db"
    and active: "\<not> isExpiredOrDeleted (c_post cx)"
    and ty: "p_type pl = Some (JStr (js ''POST_CREATED'')) \<or> p_type pl = Some (JStr (js ''POST_EDITED''))"
  shows "(if c_existing cx \<noteq> None \<and> c_existingDocIsActive cx \<and> c_existingPriority cx < c_newPriority cx
          then offers (fst (manage_offer e pl db)) = offers db
               \<and> snd (manage_offer e pl db) =
                   (case superoffer_step e cx db of
                      Inl err \<Rightarrow> InternalError
                    | Inr db1 \<Rightarrow>
                        Ok200_reason ''skipped''
                          (if p_type pl = Some (JStr (js ''POST_CREATED'')) then ''lower_priority_channel''
                           else ''lower_priority_on_edit''))
          else (\<forall>reason. snd (manage_offer e pl db) \<noteq> Ok200_reason ''skipped'' reason)
               \<and> (snd (manage_offer e pl db) = InternalError
                    \<or> (\<exists>row. row ''offer_id'' = c_docIdToUse cx
                          \<and> offers (fst (manage_offer e pl db)) = insertOrUpdateOffer row (offers db)
                          \<and> snd (manage_offer e pl db) =
                               Ok200_offer (if p_type pl = Some (JStr (js ''POST_CREATED'')) then ''created''
                                            else ''edited'')
                                 (c_docIdToUse cx))))
         \<and> ((\<exists>err. superoffer_step e cx db = Inl err) \<longleftrightarrow>
               c_superOfferNotify cx \<and> have_credentials e \<and> send_super_offers_notifications (appInit e)
               \<and> truthy (c_post cx ''original_image'')
               \<and> (\<forall>s. c_post cx ''original_image'' \<noteq> Some (JStr s)))
         \<and> c_newPriority cx = getChannelPriority (channelId (clean_title post0))
         \<and> (\<forall>ex. c_existing cx = Some ex \<longrightarrow>
                 c_existingPriority cx = getChannelPriority (string_or_empty (ex ''channel_id''))
                 \<and> c_existingDocIsActive cx = (\<not> toBool e (ex ''is_expired'') \<and> \<not> toBool e (ex ''is_deleted'')))
         \<and> (\<forall>cid. getChannelPriority cid \<le> 3)
         \<and> (\<forall>cid. cid \<noteq> js ''-1001305107383'' \<and> cid \<noteq> js ''-1001207516682'' \<longrightarrow> getChannelPriority cid = 3)"
proof -
  let ?r = "manage_offer e pl db"
  let ?skip = "c_existing cx \<noteq> None \<and> c_existingDocIsActive cx \<and> c_existingPriority cx < c_newPriority cx"
  let ?created = "p_type pl = Some (JStr (js ''POST_CREATED''))"
  have created: "?r = created_active e pl cx db" if "?created"
    using that gate post cx active by (simp add: manage_offer_def Let_def)
  have edited: "?r = edited_active e pl cx db" if "p_type pl = Some (JStr (js ''POST_EDITED''))"
    using that gate post cx active by (simp add: manage_offer_def Let_def)
  have act: "c_existingDocIsActive cx \<Longrightarrow> c_existing cx \<noteq> None"
    using cx make_ctx_active_existing by simp
  have main: "if ?skip
          then offers (fst ?r) = offers db
               \<and> snd ?r =
                   (case superoffer_step e cx db of
                      Inl err \<Rightarrow> InternalError
                    | Inr db1 \<Rightarrow>
                        Ok200_reason ''skipped''
                          (if ?created then ''lower_priority_channel'' else ''lower_priority_on_edit''))
          else (\<forall>reason. snd ?r \<noteq> Ok200_reason ''skipped'' reason)
               \<and> (snd ?r = InternalError
                    \<or> (\<exists>row. row ''offer_id'' = c_docIdToUse cx
                          \<and> offers (fst ?r) = insertOrUpdateOffer row (offers db)
                          \<and> snd ?r = Ok200_offer (if ?created then ''created'' else ''edited'') (c_docIdToUse cx)))"
  proof (cases ?skip)
    case True
    have r: "?r = (case superoffer_step e cx db of
                     Inl err \<Rightarrow> (db, InternalError)
                   | Inr db1 \<Rightarrow> (db1, Ok200_reason ''skipped''
                                      (if ?created then ''lower_priority_channel'' else ''lower_priority_on_edit'')))"
    proof (cases ?created)
      case True
      with \<open>?skip\<close> show ?thesis using created created_active_skip[of cx e pl db] by simp
    next
      case False
      then have t: "p_type pl = Some (JStr (js ''POST_EDITED''))" using ty by simp
      with \<open>?skip\<close> False show ?thesis using edited[OF t] edited_active_skip[of cx e pl db] by simp
    qed
    show ?thesis
    proof (cases "superoffer_step e cx db")
      case (Inl err)
      with r True show ?thesis by simp
    next
      case (Inr db1)
      with r True superoffer_step_frame(1)[OF Inr] show ?thesis by simp
    qed
  next
    case False
    have "snd ?r = InternalError
          \<or> (\<exists>row. row ''offer_id'' = c_docIdToUse cx
                \<and> offers (fst ?r) = insertOrUpdateOffer row (offers db)
                \<and> snd ?r = Ok200_offer (if ?created then ''created'' else ''edited'') (c_docIdToUse cx))"
    proof (cases ?created)
      case True
      then show ?thesis using created created_active_pass[of cx e pl db] False by simp
    next
      case notc: False
      then have t: "p_type pl = Some (JStr (js ''POST_EDITED''))" using ty by simp
      have "\<not> (c_existingDocIsActive cx \<and> c_existingPriority cx < c_newPriority cx)"
        using False act by blast
      then show ?thesis using edited[OF t] edited_active_pass[of cx e pl db] notc by simp
    qed
    then show ?thesis using False by auto
  qed
  have prio: "c_newPriority cx = getChannelPriority (channelId (clean_title post0))"
    using cx by (simp add: make_ctx_def Let_def)
  have ex: "\<forall>ex. c_existing cx = Some ex \<longrightarrow>
                 c_existingPriority cx = getChannelPriority (string_or_empty (ex ''channel_id''))
                 \<and> c_existingDocIsActive cx = (\<not> toBool e (ex ''is_expired'') \<and> \<not> toBool e (ex ''is_deleted''))"
    using cx by (simp add: make_ctx_def Let_def)
  have unk: "(\<forall>cid. getChannelPriority cid \<le> 3)
         \<and> (\<forall>cid. cid \<noteq> js ''-1001305107383'' \<and> cid \<noteq> js ''-1001207516682'' \<longrightarrow> getChannelPriority cid = 3)"
    by (simp add: getChannelPriority_def)
  show ?thesis using main superoffer_step_throws[of e cx db] prio ex unk by simp
qed

theorem priority_arbitration_witness:
  "offers (fst (manage_offer example_env (example_request ''POST_CREATED'' (example_post ''o2'' ''c1'' ''other''))
                  (example_store [example_row ''o1'' ''c1'' ''-1001305107383''])))
     = offers (example_store [example_row ''o1'' ''c1'' ''-1001305107383''])
   \<and> snd (manage_offer example_env (example_request ''POST_CREATED'' (example_post ''o2'' ''c1'' ''other''))
             (example_store [example_row ''o1'' ''c1'' ''-1001305107383'']))
     = Ok200_reason ''skipped'' ''lower_priority_channel''
   \<and> snd (manage_offer example_env (example_request ''POST_EDITED'' (example_post ''o2'' ''c1'' ''-1001305107383''))
             (example_store [example_row ''o1'' ''c1'' ''other'']))
     = Ok200_offer ''edited'' (Some (JStr (js ''o1'')))
   \<and> offers (fst (manage_offer example_env
                (example_request ''POST_CREATED''
                   ((example_post ''o2'' ''c1'' ''other'')
                      (''super_offer_notify'' \<mapsto> JBool True, ''original_image'' \<mapsto> JNum 5)))
                (example_store [example_row ''o1'' ''c1'' ''-1001305107383''])))
     = offers (example_store [example_row ''o1'' ''c1'' ''-1001305107383''])
   \<and> snd (manage_offer example_env
             (example_request ''POST_CREATED''
                ((example_post ''o2'' ''c1'' ''other'')
                   (''super_offer_notify'' \<mapsto> JBool True, ''original_image'' \<mapsto> JNum 5)))
             (example_store [example_row ''o1'' ''c1'' ''-1001305107383'']))
     = InternalError"
proof -
  let ?low = "example_request ''POST_CREATED'' (example_post ''o2'' ''c1'' ''other'')"
  let ?db_high = "example_store [example_row ''o1'' ''c1'' ''-1001305107383'']"
  let ?cx1 = "make_ctx example_env (example_post ''o2'' ''c1'' ''other'') ?db_high"
  let ?high = "example_request ''POST_EDITED'' (example_post ''o2'' ''c1'' ''-1001305107383'')"
  let ?db_low = "example_store [example_row ''o1'' ''c1'' ''other'']"
  let ?cx2 = "make_ctx example_env (example_post ''o2'' ''c1'' ''-1001305107383'') ?db_low"
  let ?bad_post = "(example_post ''o2'' ''c1'' ''other'')
                     (''super_offer_notify'' \<mapsto> JBool True, ''original_image'' \<mapsto> JNum 5)"
  let ?bad = "example_request ''POST_CREATED'' ?bad_post"
  let ?cx3 = "make_ctx example_env ?bad_post ?db_high"
  have g1: "gate example_env ?low = None" by code_simp
  have p1: "p_post ?low = Some (example_post ''o2'' ''c1'' ''other'')" by (simp add: example_request_def)
  have a1: "\<not> isExpiredOrDeleted (c_post ?cx1)" by code_simp
  have t1: "p_type ?low = Some (JStr (js ''POST_CREATED'')) \<or> p_type ?low = Some (JStr (js ''POST_EDITED''))"
    by (simp add: example_request_def)
  have e1: "c_existing ?cx1 \<noteq> None"
    by (simp add: make_ctx_def Let_def getOfferByCode_def example_store_def example_row_def
        example_post_def clean_title_def has_code_def sql_eq_def pg_text_def)
  have s1: "c_existingDocIsActive ?cx1 \<and> c_existingPriority ?cx1 < c_newPriority ?cx1" by code_simp
  have c1: "p_type ?low = Some (JStr (js ''POST_CREATED''))" by (simp add: example_request_def)
  have n1: "\<not> isl (superoffer_step example_env ?cx1 ?db_high)" by code_simp
  have g2: "gate example_env ?high = None" by code_simp
  have p2: "p_post ?high = Some (example_post ''o2'' ''c1'' ''-1001305107383'')" by (simp add: example_request_def)
  have a2: "\<not> isExpiredOrDeleted (c_post ?cx2)" by code_simp
  have t2: "p_type ?high = Some (JStr (js ''POST_CREATED'')) \<or> p_type ?high = Some (JStr (js ''POST_EDITED''))"
    by (simp add: example_request_def)
  have s2: "\<not> c_existingPriority ?cx2 < c_newPriority ?cx2" by code_simp
  have c2: "p_type ?high \<noteq> Some (JStr (js ''POST_CREATED''))" by (simp add: example_request_def)
  have d2: "c_docIdToUse ?cx2 = Some (JStr (js ''o1''))" by code_simp
  have n2: "snd (manage_offer example_env ?high ?db_low) \<noteq> InternalError" by code_simp
  have g3: "gate example_env ?bad = None" by code_simp
  have p3: "p_post ?bad = Some ?bad_post" by (simp add: example_request_def)
  have a3: "\<not> isExpiredOrDeleted (c_post ?cx3)" by code_simp
  have t3: "p_type ?bad = Some (JStr (js ''POST_CREATED'')) \<or> p_type ?bad = Some (JStr (js ''POST_EDITED''))"
    by (simp add: example_request_def)
  have e3: "c_existing ?cx3 \<noteq> None"
    by (simp add: make_ctx_def Let_def getOfferByCode_def example_store_def example_row_def
        example_post_def clean_title_def has_code_def sql_eq_def pg_text_def)
  have s3: "c_existingDocIsActive ?cx3 \<and> c_existingPriority ?cx3 < c_newPriority ?cx3" by code_simp
  have n3: "isl (superoffer_step example_env ?cx3 ?db_high)" by code_simp
  from priority_arbitration[OF g1 p1 refl a1 t1] e1 s1 c1 n1
  have first: "offers (fst (manage_offer example_env ?low ?db_high)) = offers ?db_high
      \<and> snd (manage_offer example_env ?low ?db_high) = Ok200_reason ''skipped'' ''lower_priority_channel''"
    by (auto split: sum.splits)
  from priority_arbitration[OF g2 p2 refl a2 t2] s2 c2 d2 n2
  have second: "snd (manage_offer example_env ?high ?db_low) = Ok200_offer ''edited'' (Some (JStr (js ''o1'')))"
    by auto
  from priority_arbitration[OF g3 p3 refl a3 t3] e3 s3 n3
  have third: "offers (fst (manage_offer example_env ?bad ?db_high)) = offers ?db_high
      \<and> snd (manage_offer example_env ?bad ?db_high) = InternalError"
    by (auto split: sum.splits)
  from first second third show ?thesis by simp
qed

section \<open>Retraction: a failed send\<close>

lemma filter_partition_nonempty:
  "(\<exists>r\<in>set xs. \<not> P r) \<Longrightarrow> 0 < length (filter (\<lambda>r. \<not> P r) xs)"
  by (induction xs) auto

text \<open>
  Claim C9. With delivery credentials present, as soon as one retraction send of a
  retract-by-offer-id call fails (the provider rejects it or the call throws), the call itself
  throws a \<open>ReferenceError\<close> instead of returning its counts; the receipts are marked
  withdrawn before that. The retract-by-notification-id call returns its counts whatever the
  sends do.
\<close>

theorem withdraw_failed_send_throws:
  assumes creds: "pid \<noteq> []" "tok \<noteq> []"
    and rows: "withdrawNotificationsForOffer oid db = (db1, n, rows)"
    and failed: "\<exists>r\<in>set rows. token_truthy (w_token r) \<and> \<not> retract_succeeds e r"
  shows "snd (withdrawOfferNotifications e pid oid tok db) = Inl ReferenceError
         \<and> users_notifications (fst (withdrawOfferNotifications e pid oid tok db)) = users_notifications db1
         \<and> (\<exists>res. snd (withdrawNotificationByIdFanout e pid nid tok db) = Inr res)"
proof -
  from failed have "\<exists>r\<in>set (filter (\<lambda>r. token_truthy (w_token r)) rows). \<not> retract_succeeds e r"
    by auto
  then have pos: "0 < length (filter (\<lambda>r. \<not> retract_succeeds e r) (filter (\<lambda>r. token_truthy (w_token r)) rows))"
    by (rule filter_partition_nonempty)
  have a: "snd (withdrawOfferNotifications e pid oid tok db) = Inl ReferenceError"
    using creds rows pos by (simp add: withdrawOfferNotifications_def Let_def)
  have b: "users_notifications (fst (withdrawOfferNotifications e pid oid tok db)) = users_notifications db1"
    using creds rows pos by (simp add: withdrawOfferNotifications_def Let_def)
  have c: "\<exists>res. snd (withdrawNotificationByIdFanout e pid nid tok db) = Inr res"
    by (simp add: withdrawNotificationByIdFanout_def Let_def split: prod.splits)
  from a b c show ?thesis by simp
qed

theorem withdraw_failed_send_throws_witness:
  "snd (withdrawOfferNotifications failing_env (js ''project'') (Some (JStr (js ''o1''))) (js ''token'') notified_store)
     = Inl ReferenceError
   \<and> snd (withdrawNotificationByIdFanout failing_env (js ''project'') 7 (js ''token'') notified_store)
     = Inr \<lparr>updated = 1, sent = 0\<rparr>"
proof -
  let ?w = "withdrawNotificationsForOffer (Some (JStr (js ''o1''))) notified_store"
  have rows: "?w = (fst ?w, fst (snd ?w), snd (snd ?w))" by simp
  have failed: "\<exists>r\<in>set (snd (snd ?w)). token_truthy (w_token r) \<and> \<not> retract_succeeds failing_env r"
    by code_simp
  have p: "js ''project'' \<noteq> []" and t: "js ''token'' \<noteq> []" by simp_all
  have sibling: "snd (withdrawNotificationByIdFanout failing_env (js ''project'') 7 (js ''token'') notified_store)
     = Inr \<lparr>updated = 1, sent = 0\<rparr>"
    by code_simp
  from withdraw_failed_send_throws[OF p t rows failed, of 7] sibling show ?thesis by simp
qed

section \<open>Fan-out: the preference gate\<close>

lemma getUserPreferences_users:
  assumes "users db' = users db"
  shows "getUserPreferences db' = getUserPreferences db"
  using assms by (intro ext) (simp add: getUserPreferences_def)

lemma getUserFcmToken_users:
  assumes "users db' = users db"
  shows "getUserFcmToken db' = getUserFcmToken db"
  using assms by (intro ext) (simp add: getUserFcmToken_def)

lemma notify_token_users:
  assumes "users db' = users db"
  shows "notify_token db' = notify_token db"
  by (intro ext)
     (simp only: notify_token_def getUserPreferences_users[OF assms] getUserFcmToken_users[OF assms])

lemma notify_task_users:
  assumes "users db' = users db"
  shows "notify_task e db' = notify_task e db"
  by (intro ext) (simp only: notify_task_def notify_token_users[OF assms])

lemma notify_task_Some:
  assumes "notify_task e db uid = Some v"
  shows "v = uid \<and> shouldSendNotification (getUserPreferences db uid) (js ''product'')
         \<and> (\<exists>t. getUserFcmToken db uid = Some t \<and> t \<noteq> [] \<and> push_outcome e t = SendOk)"
  using assms
  by (auto simp add: notify_task_def notify_token_def split: option.splits if_splits send_outcome.splits)

lemma shouldSend_product:
  assumes "shouldSendNotification (getUserPreferences db uid) (js ''product'')"
  shows "\<exists>row rest. filter (\<lambda>u. u_uid u = uid) (users db) = row # rest \<and> favorites_products row = Some True"
  using assms
  by (auto simp add: shouldSendNotification_def getUserPreferences_def Let_def split: option.splits list.splits if_splits)

lemma fcm_token_row:
  assumes "getUserFcmToken db uid = Some t"
  shows "\<exists>row rest raw. filter (\<lambda>u. u_uid u = uid) (users db) = row # rest
           \<and> token_fcm row = Some raw \<and> raw \<noteq> [] \<and> t = trim raw"
  using assms
  by (auto simp add: getUserFcmToken_def split: option.splits list.splits if_splits)

lemma notified_users_member:
  assumes "uid \<in> set (notified_users e db userIds)"
  shows "uid \<in> set userIds \<and> uid \<noteq> [] \<and> notify_task e db uid = Some uid"
proof -
  from assms obtain x where x: "x \<in> set userIds" "notify_task e db x = Some uid" "uid \<noteq> []"
    by (auto simp add: notified_users_def List.map_filter_def)
  from notify_task_Some[OF x(2)] have "uid = x" by simp
  with x show ?thesis by simp
qed

lemma notify_task_insert_notification:
  "notify_task e (insert_notification n db) = notify_task e db"
  by (rule notify_task_users) simp

lemma notified_users_insert_notification:
  "notified_users e (insert_notification n db) userIds = notified_users e db userIds"
  by (simp add: notified_users_def notify_task_insert_notification)

lemma notify_fanout_snd:
  "snd (notify_fanout e userIds oid rs db) = notified_users e db userIds"
  by (simp add: notify_fanout_def Let_def notified_users_insert_notification)


lemma insert_receipts_uids:
  "set (users_notifications (insert_receipts e i oid rs ns db))
     \<subseteq> set (users_notifications db) \<union> {r. r_uid r \<in> set ns}"
  by (auto simp add: insert_receipts_def)

lemma notify_fanout_receipts:
  "set (users_notifications (fst (notify_fanout e userIds oid rs db)))
     \<subseteq> set (users_notifications db) \<union> {r. r_uid r \<in> set (notified_users e db userIds)}"
  using insert_receipts_uids
  by (auto simp add: notify_fanout_def Let_def notified_users_insert_notification
      dest!: subsetD[OF insert_receipts_uids])

text \<open>
  Claim C10. A user id is in the list that the favorites fan-out returns only if it was among
  the recipients, the stored flags of the user pass the preference check for the match type
  \<open>'product'\<close> (so \<open>favorites_products\<close> is true), the user has a device token that is
  not empty after trimming, and the send to that token succeeded. Every receipt the fan-out adds
  belongs to a user of that list. The fan-out has no match type argument: the same gate holds for
  a fan-out that a keyword match triggered. (A fan-out that throws returns no list and has
  written nothing.)
\<close>

theorem notified_only_with_product_preference:
  assumes run: "notifyUsersAboutOffer e userIds post oid reasonByUid db = Inr (db1, notified)"
  shows "(uid \<in> set notified \<longrightarrow>
      uid \<in> set userIds
      \<and> shouldSendNotification (getUserPreferences db uid) (js ''product'')
      \<and> (\<exists>row rest raw. filter (\<lambda>u. u_uid u = uid) (users db) = row # rest
             \<and> favorites_products row = Some True
             \<and> token_fcm row = Some raw \<and> raw \<noteq> [] \<and> trim raw \<noteq> []
             \<and> push_outcome e (trim raw) = SendOk))
   \<and> (\<forall>r\<in>set (users_notifications db1).
         r \<in> set (users_notifications db) \<or> r_uid r \<in> set notified)"
proof (intro conjI impI ballI)
  from notifyUsersAboutOffer_Inr[OF run] have f: "notify_fanout e userIds oid reasonByUid db = (db1, notified)"
    by simp
  then have n: "notified = notified_users e db userIds"
    using notify_fanout_snd[of e userIds oid reasonByUid db] by simp
  {
    assume "uid \<in> set notified"
    then have m: "uid \<in> set (notified_users e db userIds)" by (simp add: n)
    from notified_users_member[OF m] have u: "uid \<in> set userIds" and t: "notify_task e db uid = Some uid"
      by simp_all
    from notify_task_Some[OF t] obtain tk where
      s: "shouldSendNotification (getUserPreferences db uid) (js ''product'')"
      and tk: "getUserFcmToken db uid = Some tk" "tk \<noteq> []" "push_outcome e tk = SendOk"
      by auto
    from shouldSend_product[OF s] obtain row rest where
      row: "filter (\<lambda>u. u_uid u = uid) (users db) = row # rest" "favorites_products row = Some True"
      by auto
    from fcm_token_row[OF tk(1)] row(1) obtain raw where
      raw: "token_fcm row = Some raw" "raw \<noteq> []" "tk = trim raw"
      by auto
    show "uid \<in> set userIds" by (rule u)
    show "shouldSendNotification (getUserPreferences db uid) (js ''product'')" by (rule s)
    show "\<exists>row rest raw. filter (\<lambda>u. u_uid u = uid) (users db) = row # rest
               \<and> favorites_products row = Some True
               \<and> token_fcm row = Some raw \<and> raw \<noteq> [] \<and> trim raw \<noteq> []
               \<and> push_outcome e (trim raw) = SendOk"
      using row raw tk by auto
  }
  fix r
  assume "r \<in> set (users_notifications db1)"
  then have "r \<in> set (users_notifications (fst (notify_fanout e userIds oid reasonByUid db)))"
    using f by simp
  with notify_fanout_receipts[of e userIds oid reasonByUid db]
  show "r \<in> set (users_notifications db) \<or> r_uid r \<in> set notified"
    by (auto simp add: n)
qed

theorem notified_only_with_product_preference_witness:
  "\<not> isl (notifyUsersAboutOffer example_env [js ''u1'', js ''u2''] (example_post ''o1'' ''c1'' ''other'')
             (Some (JStr (js ''o1''))) [] preference_store)
   \<and> snd (projr (notifyUsersAboutOffer example_env [js ''u1'', js ''u2''] (example_post ''o1'' ''c1'' ''other'')
                   (Some (JStr (js ''o1''))) [] preference_store))
       = [js ''u1'']
   \<and> shouldSendNotification (getUserPreferences preference_store (js ''u1'')) (js ''product'')
   \<and> \<not> shouldSendNotification (getUserPreferences preference_store (js ''u2'')) (js ''product'')"
proof -
  let ?n = "notifyUsersAboutOffer example_env [js ''u1'', js ''u2''] (example_post ''o1'' ''c1'' ''other'')
              (Some (JStr (js ''o1''))) [] preference_store"
  have r: "\<not> isl ?n" by code_simp
  then have run: "?n = Inr (fst (projr ?n), snd (projr ?n))" by (cases ?n) simp_all
  have n: "snd (projr ?n) = [js ''u1'']" by code_simp
  then have m: "js ''u1'' \<in> set (snd (projr ?n))" by simp
  have u2: "\<not> shouldSendNotification (getUserPreferences preference_store (js ''u2'')) (js ''product'')"
    by code_simp
  from notified_only_with_product_preference[OF run, of "js ''u1''"] m
  have "shouldSendNotification (getUserPreferences preference_store (js ''u1'')) (js ''product'')" by blast
  with r n u2 show ?thesis by simp
qed

section \<open>Match Engine: deduplication\<close>

lemma dedup_keys_fresh:
  "distinct (map dedup_key (dedup seen ms)) \<and> set (map dedup_key (dedup seen ms)) \<inter> seen = {}"
proof (induction ms arbitrary: seen)
  case Nil
  show ?case by simp
next
  case (Cons m ms)
  show ?case
  proof (cases "dedup_key m \<in> seen")
    case True
    then show ?thesis using Cons.IH[of seen] by simp
  next
    case False
    from Cons.IH[of "insert (dedup_key m) seen"]
    have d: "distinct (map dedup_key (dedup (insert (dedup_key m) seen) ms))"
      and i: "set (map dedup_key (dedup (insert (dedup_key m) seen) ms)) \<inter> insert (dedup_key m) seen = {}"
      by simp_all
    from i have "dedup_key m \<notin> set (map dedup_key (dedup (insert (dedup_key m) seen) ms))" by blast
    moreover from i have "set (map dedup_key (dedup (insert (dedup_key m) seen) ms)) \<inter> seen = {}" by blast
    ultimately show ?thesis using False d by simp
  qed
qed


lemma dedup_keys_kept:
  "set (map dedup_key (dedup seen ms)) = set (map dedup_key ms) - seen"
proof (induction ms arbitrary: seen)
  case Nil
  show ?case by simp
next
  case (Cons m ms)
  show ?case
  proof (cases "dedup_key m \<in> seen")
    case True
    then show ?thesis using Cons.IH[of seen] by auto
  next
    case False
    have "set (map dedup_key (dedup seen (m # ms)))
            = insert (dedup_key m) (set (map dedup_key (dedup (insert (dedup_key m) seen) ms)))"
      using False by simp
    also have "\<dots> = insert (dedup_key m) (set (map dedup_key ms) - insert (dedup_key m) seen)"
      using Cons.IH[of "insert (dedup_key m) seen"] by simp
    also have "\<dots> = set (map dedup_key (m # ms)) - seen"
      using False by auto
    finally show ?thesis .
  qed
qed

lemma dedup_subset: "set (dedup seen ms) \<subseteq> set ms"
proof (induction ms arbitrary: seen)
  case Nil
  show ?case by simp
next
  case (Cons m ms)
  from Cons.IH[of seen] Cons.IH[of "insert (dedup_key m) seen"] show ?case by auto
qed

lemma dedup_key_identity:
  "match_identity a = match_identity b \<Longrightarrow> dedup_key a = dedup_key b"
  by (simp add: match_identity_def dedup_key_def split: option.splits)


lemma distinct_identity:
  assumes "distinct (map dedup_key ms)"
  shows "distinct (map match_identity ms)"
  using assms
proof (induction ms)
  case Nil
  then show ?case by simp
next
  case (Cons m ms)
  have "match_identity m \<notin> match_identity ` set ms"
  proof
    assume "match_identity m \<in> match_identity ` set ms"
    then obtain x where x: "x \<in> set ms" "match_identity m = match_identity x" by blast
    from dedup_key_identity[OF x(2)] x(1) have "dedup_key m \<in> dedup_key ` set ms" by blast
    with Cons.prems show False by simp
  qed
  moreover from Cons have "distinct (map match_identity ms)" by simp
  ultimately show ?case by simp
qed

text \<open>
  Claim C8, as amended. No two entries of the Match Engine's result agree on user, match type
  and key: the result has at most one entry for each (user, match type, key), where the key is
  the stored key of the keyword favorite or the offer id. Nothing else is dropped: every
  deduplication key among the matches is still there.
\<close>

theorem one_entry_per_user_type_and_key:
  "distinct (map match_identity
      (findUsersWithMatchingKeywords e favs titleWords rawTitle oid offerPrice offerDiscount offerStore offerCategory))
   \<and> distinct (map dedup_key
      (findUsersWithMatchingKeywords e favs titleWords rawTitle oid offerPrice offerDiscount offerStore offerCategory))
   \<and> set (map dedup_key
      (findUsersWithMatchingKeywords e favs titleWords rawTitle oid offerPrice offerDiscount offerStore offerCategory))
     = set (map dedup_key (all_matches e favs titleWords rawTitle oid offerPrice offerDiscount offerStore offerCategory))"
proof -
  let ?all = "all_matches e favs titleWords rawTitle oid offerPrice offerDiscount offerStore offerCategory"
  have r: "findUsersWithMatchingKeywords e favs titleWords rawTitle oid offerPrice offerDiscount offerStore offerCategory
            = dedup {} ?all"
    by (simp add: findUsersWithMatchingKeywords_def)
  have d: "distinct (map dedup_key (dedup {} ?all))"
    using dedup_keys_fresh[of "{}" ?all] by simp
  have k: "set (map dedup_key (dedup {} ?all)) = set (map dedup_key ?all)"
    using dedup_keys_kept[of "{}" ?all] by simp
  from d have i: "distinct (map match_identity (dedup {} ?all))" by (rule distinct_identity)
  show ?thesis unfolding r using d k i by blast
qed

theorem one_entry_per_user_type_and_key_witness:
  "distinct (map match_identity
      (findUsersWithMatchingKeywords example_env
         [example_keyword_favorite 1 ''u1'' ''bluetooth'', example_keyword_favorite 2 ''u1'' ''bluetooth'']
         (extractWordsFromTitle example_env (js ''Cuffie Bluetooth Sony'')) (Some (js ''Cuffie Bluetooth Sony''))
         (Some (JStr (js ''o1''))) None None None None))"
  using one_entry_per_user_type_and_key
          [of example_env "[example_keyword_favorite 1 ''u1'' ''bluetooth'', example_keyword_favorite 2 ''u1'' ''bluetooth'']"
              "extractWordsFromTitle example_env (js ''Cuffie Bluetooth Sony'')"
              "Some (js ''Cuffie Bluetooth Sony'')"
              "Some (JStr (js ''o1''))" None None None None]
  by blast

text \<open>
  Claim C8, as stated, fails: one user with the keyword favorites \<open>bluetooth\<close> and
  \<open>cuffie bluetooth\<close> gets two keyword entries for the title \<open>Cuffie Bluetooth Sony\<close>.
\<close>

lemma cuffie_candidates: "candidateSet example_env (extractWordsFromTitle example_env (js ''Cuffie Bluetooth Sony'')) (Some (js ''Cuffie Bluetooth Sony''))
  = [js ''cuffie'', js ''Cuffie'', js ''bluetooth'', js ''Bluetooth'', js ''sony'', js ''Sony'',
      js ''cuffie bluetooth'', js ''bluetooth sony'', js ''cuffie bluetooth sony'']"
  by code_simp

lemma cuffie_chunks: "chunks_from 0 [js ''cuffie'', js ''Cuffie'', js ''bluetooth'', js ''Bluetooth'', js ''sony'', js ''Sony'',
      js ''cuffie bluetooth'', js ''bluetooth sony'', js ''cuffie bluetooth sony''] = [[js ''cuffie'', js ''Cuffie'', js ''bluetooth'', js ''Bluetooth'', js ''sony'', js ''Sony'',
      js ''cuffie bluetooth'', js ''bluetooth sony'', js ''cuffie bluetooth sony'']]"
  by (simp add: chunks_from.simps)

lemma cuffie_keyword_rows: "keyword_rows example_env [example_keyword_favorite 1 ''u1'' ''bluetooth'', example_keyword_favorite 2 ''u1'' ''cuffie bluetooth'']
   [js ''cuffie'', js ''Cuffie'', js ''bluetooth'', js ''Bluetooth'', js ''sony'', js ''Sony'',
      js ''cuffie bluetooth'', js ''bluetooth sony'', js ''cuffie bluetooth sony''] =
   [example_keyword_favorite 1 ''u1'' ''bluetooth'', example_keyword_favorite 2 ''u1'' ''cuffie bluetooth'']"
  by code_simp


lemma cuffie_product_rows: "product_rows [example_keyword_favorite 1 ''u1'' ''bluetooth'', example_keyword_favorite 2 ''u1'' ''cuffie bluetooth''] (Some (JStr (js ''o1''))) = []"
  by (simp add: product_rows_def example_keyword_favorite_def)

lemma unfiltered_favorite_matches: "isMatch e (example_keyword_favorite i u k) None None None None"
  by (simp add: isMatch_def example_keyword_favorite_def text_filter_ok_def)

theorem one_entry_per_user_counterexample:
  "findUsersWithMatchingKeywords example_env
     [example_keyword_favorite 1 ''u1'' ''bluetooth'', example_keyword_favorite 2 ''u1'' ''cuffie bluetooth'']
     (extractWordsFromTitle example_env (js ''Cuffie Bluetooth Sony'')) (Some (js ''Cuffie Bluetooth Sony''))
     (Some (JStr (js ''o1''))) None None None None
   = [\<lparr>userId = js ''u1'', matchType = js ''keyword'', keyword = Some (js ''bluetooth''),
       offerId = None, favoriteId = 1\<rparr>,
      \<lparr>userId = js ''u1'', matchType = js ''keyword'', keyword = Some (js ''cuffie bluetooth''),
       offerId = None, favoriteId = 2\<rparr>]"
  unfolding findUsersWithMatchingKeywords_def all_matches_def cuffie_candidates cuffie_chunks
  by (simp add: cuffie_keyword_rows cuffie_product_rows unfiltered_favorite_matches) (simp add: keyword_match_def example_keyword_favorite_def dedup_key_def)

section \<open>Match Engine: candidate keys\<close>

lemma array_from_set_set [simp]: "set (array_from_set xs) = set xs"
  by (simp add: array_from_set_def)

lemma array_from_set_distinct [simp]: "distinct (array_from_set xs)"
  by (simp add: array_from_set_def)

lemma array_from_set_id: "distinct xs \<Longrightarrow> array_from_set xs = xs"
  by (simp add: array_from_set_def distinct_remdups_id)

lemma set_trim: "set (trim s) \<subseteq> set s"
proof -
  have "set (trim s) \<subseteq> set (dropWhile is_space s)"
    unfolding trim_def using set_dropWhileD[of _ is_space "rev (dropWhile is_space s)"] by auto
  also have "\<dots> \<subseteq> set s" using set_dropWhileD[of _ is_space s] by auto
  finally show ?thesis .
qed

lemma split_on_nonempty: "split_on d s \<noteq> []"
  by (induction s) (auto split: list.splits)

lemma set_split_on: "w \<in> set (split_on d s) \<Longrightarrow> set w \<subseteq> set s"
proof (induction s arbitrary: w)
  case Nil
  then show ?case by simp
next
  case (Cons c cs)
  show ?case
  proof (cases "c = d")
    case True
    with Cons show ?thesis by auto
  next
    case False
    obtain v vs where v: "split_on d cs = v # vs"
      using split_on_nonempty[of d cs] by (cases "split_on d cs") auto
    with False Cons.prems have "w = c # v \<or> w \<in> set vs" by simp
    then show ?thesis
    proof
      assume "w = c # v"
      moreover have "set v \<subseteq> set cs" using Cons.IH[of v] v by simp
      ultimately show ?thesis by auto
    next
      assume "w \<in> set vs"
      then have "set w \<subseteq> set cs" using Cons.IH[of w] v by simp
      then show ?thesis by auto
    qed
  qed
qed

text \<open>What the theorem asks of the character database of the runtime, and what every
  runtime's has: a lower-cased string has no ASCII capital, and lower-casing changes nothing in
  a string of white space and ASCII characters that are not capitals.\<close>

lemma lower_ascii_not_upper: "\<not> is_upper (lower_ascii c)"
  by (simp add: lower_ascii_def is_upper_def)

lemma toLowerCase_no_capital:
  assumes "\<forall>s. \<forall>c\<in>set (unicode_lower_case e s). \<not> is_upper c"
    and "c \<in> set (toLowerCase e t)"
  shows "\<not> is_upper c"
proof (cases "list_all is_ascii t")
  case True
  with assms(2) show ?thesis by (auto simp add: toLowerCase_def lower_ascii_not_upper)
next
  case False
  with assms show ?thesis by (auto simp add: toLowerCase_def)
qed

lemma toLowerCase_settled:
  assumes "\<forall>s. (\<forall>c\<in>set s. \<not> is_upper c \<and> (is_ascii c \<or> is_space c)) \<longrightarrow> unicode_lower_case e s = s"
    and "\<forall>c\<in>set w. \<not> is_upper c \<and> (is_ascii c \<or> is_space c)"
  shows "toLowerCase e w = w"
proof (cases "list_all is_ascii w")
  case True
  from assms(2) have "map lower_ascii w = w" by (simp add: lower_ascii_def map_idI)
  with True show ?thesis by (simp add: toLowerCase_def)
next
  case False
  with assms show ?thesis by (simp add: toLowerCase_def)
qed

lemma blank_non_word_chars:
  assumes "c \<in> set (blank_non_word s)"
  shows "(c \<in> set s \<or> c = 0x20) \<and> (is_ascii c \<or> is_space c)"
proof -
  have w: "is_word_char c \<Longrightarrow> is_ascii c" for c
    by (auto simp add: is_word_char_def is_ascii_def is_upper_def is_lower_def is_digit_def)
  have s: "is_space 0x20" by (simp add: is_space_def)
  from assms w s show ?thesis by (auto simp add: blank_non_word_def split: if_splits)
qed

lemma extracted_word_pieces:
  "set (extractWordsFromTitle e t)
     = {w \<in> set (map trim (split_on 0x20 (blank_non_word (toLowerCase e t)))). 3 \<le> length w}"
  by (auto simp add: extractWordsFromTitle_def)

lemma extracted_word_lower:
  assumes no_capital: "\<forall>s. \<forall>c\<in>set (unicode_lower_case e s). \<not> is_upper c"
    and settled: "\<forall>s. (\<forall>c\<in>set s. \<not> is_upper c \<and> (is_ascii c \<or> is_space c)) \<longrightarrow> unicode_lower_case e s = s"
    and w: "w \<in> set (extractWordsFromTitle e t)"
  shows "toLowerCase e w = w"
proof -
  from w obtain p where p: "p \<in> set (split_on 0x20 (blank_non_word (toLowerCase e t)))" "w = trim p"
    by (auto simp add: extracted_word_pieces)
  have sub: "set w \<subseteq> set (blank_non_word (toLowerCase e t))"
    using set_trim[of p] set_split_on[OF p(1)] p(2) by blast
  have "\<forall>c\<in>set w. \<not> is_upper c \<and> (is_ascii c \<or> is_space c)"
  proof
    fix c assume "c \<in> set w"
    with sub have c: "c \<in> set (blank_non_word (toLowerCase e t))" by blast
    from blank_non_word_chars[OF c] have k: "is_ascii c \<or> is_space c"
      and o: "c \<in> set (toLowerCase e t) \<or> c = 0x20" by simp_all
    from o have "\<not> is_upper c"
    proof
      assume "c \<in> set (toLowerCase e t)"
      with no_capital show ?thesis by (rule toLowerCase_no_capital)
    next
      assume "c = 0x20"
      then show ?thesis by (simp add: is_upper_def)
    qed
    with k show "\<not> is_upper c \<and> (is_ascii c \<or> is_space c)" by simp
  qed
  with settled show ?thesis by (rule toLowerCase_settled)
qed

lemma singleWords_extracted:
  assumes no_capital: "\<forall>s. \<forall>c\<in>set (unicode_lower_case e s). \<not> is_upper c"
    and settled: "\<forall>s. (\<forall>c\<in>set s. \<not> is_upper c \<and> (is_ascii c \<or> is_space c)) \<longrightarrow> unicode_lower_case e s = s"
  shows "singleWords e (extractWordsFromTitle e t) = take 5 (extractWordsFromTitle e t)"
proof -
  let ?W = "extractWordsFromTitle e t"
  have "\<forall>w\<in>set ?W. toLowerCase e w = w"
    using extracted_word_lower[OF no_capital settled] by blast
  then have l: "map (toLowerCase e) ?W = ?W" by (simp add: map_idI)
  have n: "filter (\<lambda>w. w \<noteq> []) ?W = ?W"
    by (rule filter_True) (auto simp add: extracted_word_pieces)
  have d: "distinct ?W" by (simp add: extractWordsFromTitle_def)
  show ?thesis by (simp add: singleWords_def l n array_from_set_id[OF d])
qed

lemma bigrams_from_index:
  "bigrams_from i low = map (\<lambda>j. low ! j @ js '' '' @ low ! (j + 1)) [i..<length low - 1]"
proof (induction i low rule: bigrams_from.induct)
  case (1 i low)
  show ?case
  proof (cases "i + 1 < length low")
    case True
    then have "[i..<length low - 1] = i # [i + 1..<length low - 1]"
      by (simp add: upt_conv_Cons)
    with True 1 show ?thesis by (simp add: bigrams_from.simps[of i low])
  next
    case False
    then show ?thesis by (simp add: bigrams_from.simps[of i low])
  qed
qed

lemma trigrams_from_index:
  "trigrams_from i low
     = map (\<lambda>j. low ! j @ js '' '' @ low ! (j + 1) @ js '' '' @ low ! (j + 2)) [i..<length low - 2]"
proof (induction i low rule: trigrams_from.induct)
  case (1 i low)
  show ?case
  proof (cases "i + 2 < length low")
    case True
    then have "[i..<length low - 2] = i # [i + 1..<length low - 2]"
      by (simp add: upt_conv_Cons)
    with True 1 show ?thesis by (simp add: trigrams_from.simps[of i low])
  next
    case False
    then show ?thesis by (simp add: trigrams_from.simps[of i low])
  qed
qed

lemma take_upt_min: "take k [0..<n] = [0..<min k n]"
  by (cases "k \<le> n") (simp_all add: min_def)

lemma bigramKeys_index:
  "bigramKeys e ws rt =
     map (\<lambda>j. orderedTokensLow e ws rt ! j @ js '' '' @ orderedTokensLow e ws rt ! (j + 1))
       [0..<min 5 (length (orderedTokensLow e ws rt) - 1)]"
  by (simp add: bigramKeys_def bigrams_from_index take_map take_upt_min)

lemma trigramKeys_index:
  "trigramKeys e ws rt =
     map (\<lambda>j. orderedTokensLow e ws rt ! j @ js '' '' @ orderedTokensLow e ws rt ! (j + 1) @ js '' ''
                @ orderedTokensLow e ws rt ! (j + 2))
       [0..<min 3 (length (orderedTokensLow e ws rt) - 2)]"
  by (simp add: trigramKeys_def trigrams_from_index take_map take_upt_min)

lemma capitalize_nonempty: "2 \<le> length w \<Longrightarrow> capitalize e w \<noteq> []"
  by (cases w) (auto simp add: capitalize_def)

lemma word_forms_set:
  assumes "\<forall>w\<in>set ws. w \<noteq> []"
  shows "set (concat (map (\<lambda>w. if 0 < length w then [w, capitalize e w] else [w]) ws))
           = set ws \<union> capitalize e ` set ws"
  using assms by (induction ws) auto

lemma title_candidates_set:
  assumes no_capital: "\<forall>s. \<forall>c\<in>set (unicode_lower_case e s). \<not> is_upper c"
    and settled: "\<forall>s. (\<forall>c\<in>set s. \<not> is_upper c \<and> (is_ascii c \<or> is_space c)) \<longrightarrow> unicode_lower_case e s = s"
  shows "set (title_candidates e t)
     = set (singleWords e (extractWordsFromTitle e t))
       \<union> capitalize e ` set (singleWords e (extractWordsFromTitle e t))
       \<union> set (bigramKeys e (extractWordsFromTitle e t) (Some t))
       \<union> set (trigramKeys e (extractWordsFromTitle e t) (Some t))"
proof -
  let ?W = "extractWordsFromTitle e t"
  have long: "\<forall>w\<in>set (singleWords e ?W). 3 \<le> length w"
  proof
    fix w assume "w \<in> set (singleWords e ?W)"
    then have "w \<in> set ?W"
      using in_set_takeD[of w 5 ?W] by (simp add: singleWords_extracted[OF no_capital settled])
    then show "3 \<le> length w" by (simp add: extracted_word_pieces)
  qed
  then have ne: "\<forall>w\<in>set (singleWords e ?W). w \<noteq> []" by auto
  have b: "[] \<notin> set (bigramKeys e ?W (Some t))" by (auto simp add: bigramKeys_index)
  have c: "[] \<notin> set (trigramKeys e ?W (Some t))" by (auto simp add: trigramKeys_index)
  have "set (title_candidates e t) = set (candidates e ?W (Some t)) - {[]}"
    by (auto simp add: title_candidates_def candidateSet_def)
  also have "\<dots> = (set (singleWords e ?W) \<union> capitalize e ` set (singleWords e ?W)
       \<union> set (bigramKeys e ?W (Some t)) \<union> set (trigramKeys e ?W (Some t))) - {[]}"
    by (simp only: candidates_def set_append word_forms_set[OF ne] Un_assoc)
  also have "\<dots> = set (singleWords e ?W) \<union> capitalize e ` set (singleWords e ?W)
       \<union> set (bigramKeys e ?W (Some t)) \<union> set (trigramKeys e ?W (Some t))"
  proof -
    have "[] \<notin> set (singleWords e ?W)" using ne by blast
    moreover have "[] \<notin> capitalize e ` set (singleWords e ?W)"
    proof
      assume "[] \<in> capitalize e ` set (singleWords e ?W)"
      then obtain w where w: "w \<in> set (singleWords e ?W)" "capitalize e w = []" by force
      with long have "2 \<le> length w" by force
      from capitalize_nonempty[OF this, of e] w(2) show False by simp
    qed
    ultimately show ?thesis using b c by blast
  qed
  finally show ?thesis .
qed

text \<open>A character database that knows the Latin-1 range has what the theorem asks.\<close>

lemma latin_lower_no_capital: "c \<in> set (map latin_lower s) \<Longrightarrow> \<not> is_upper c"
  by (auto simp add: latin_lower_def is_upper_def)

lemma latin_lower_settled:
  assumes "\<forall>c\<in>set s. \<not> is_upper c \<and> (is_ascii c \<or> is_space c)"
  shows "map latin_lower s = s"
proof (rule map_idI)
  fix c assume "c \<in> set s"
  with assms have "\<not> is_upper c" and "is_ascii c \<or> is_space c" by simp_all
  then show "latin_lower c = c"
    by (auto simp add: latin_lower_def is_ascii_def is_space_def)
qed

text \<open>
  Claim C7, as amended. For every title, the single-word keys are the first five of the distinct
  words of the title, a word being a trimmed piece of the lower-cased, blanked title of length
  at least 3; each is a candidate in lower case and capitalized. The two-word phrases are the
  first five pairs of neighbours of the normalized token sequence, in order, and the three-word
  phrases the first three triples. The candidate keys are these and nothing else, without
  repetition. The title is any sequence of code units. Of the character database of the
  runtime the theorem asks two things, which hold of every runtime's: a lower-cased string has
  no ASCII capital, and lower-casing leaves a string of white space and ASCII characters that
  are not capitals as it is.
\<close>

theorem candidate_keys_of_title:
  assumes no_capital: "\<forall>s. \<forall>c\<in>set (unicode_lower_case e s). \<not> is_upper c"
    and settled: "\<forall>s. (\<forall>c\<in>set s. \<not> is_upper c \<and> (is_ascii c \<or> is_space c)) \<longrightarrow> unicode_lower_case e s = s"
  shows "singleWords e (extractWordsFromTitle e t) = take 5 (extractWordsFromTitle e t)
   \<and> distinct (extractWordsFromTitle e t)
   \<and> (\<forall>w. w \<in> set (extractWordsFromTitle e t) \<longleftrightarrow>
          3 \<le> length w \<and> w \<in> set (map trim (split_on 0x20 (blank_non_word (toLowerCase e t)))))
   \<and> bigramKeys e (extractWordsFromTitle e t) (Some t) =
         map (\<lambda>j. orderedTokensLow e (extractWordsFromTitle e t) (Some t) ! j @ js '' ''
                    @ orderedTokensLow e (extractWordsFromTitle e t) (Some t) ! (j + 1))
           [0..<min 5 (length (orderedTokensLow e (extractWordsFromTitle e t) (Some t)) - 1)]
   \<and> trigramKeys e (extractWordsFromTitle e t) (Some t) =
         map (\<lambda>j. orderedTokensLow e (extractWordsFromTitle e t) (Some t) ! j @ js '' ''
                    @ orderedTokensLow e (extractWordsFromTitle e t) (Some t) ! (j + 1) @ js '' ''
                    @ orderedTokensLow e (extractWordsFromTitle e t) (Some t) ! (j + 2))
           [0..<min 3 (length (orderedTokensLow e (extractWordsFromTitle e t) (Some t)) - 2)]
   \<and> set (title_candidates e t)
       = set (singleWords e (extractWordsFromTitle e t))
         \<union> capitalize e ` set (singleWords e (extractWordsFromTitle e t))
         \<union> set (bigramKeys e (extractWordsFromTitle e t) (Some t))
         \<union> set (trigramKeys e (extractWordsFromTitle e t) (Some t))
   \<and> distinct (title_candidates e t)"
proof -
  have d: "distinct (extractWordsFromTitle e t)" by (simp add: extractWordsFromTitle_def)
  have m: "\<forall>w. w \<in> set (extractWordsFromTitle e t) \<longleftrightarrow>
          3 \<le> length w \<and> w \<in> set (map trim (split_on 0x20 (blank_non_word (toLowerCase e t))))"
    by (auto simp add: extracted_word_pieces)
  have c: "distinct (title_candidates e t)" by (simp add: title_candidates_def candidateSet_def)
  show ?thesis
    using singleWords_extracted[OF no_capital settled, of t] d m
      bigramKeys_index[of e "extractWordsFromTitle e t" "Some t"]
      trigramKeys_index[of e "extractWordsFromTitle e t" "Some t"]
      title_candidates_set[OF no_capital settled, of t] c
    by blast
qed

theorem candidate_keys_of_title_witness:
  "singleWords example_env (extractWordsFromTitle example_env (js ''Caff'' @ [0xC8] @ js '' Borbone 100 Capsule''))
     = [js ''caff'', js ''borbone'', js ''100'', js ''capsule'']
   \<and> bigramKeys example_env (extractWordsFromTitle example_env (js ''Caff'' @ [0xC8] @ js '' Borbone 100 Capsule''))
        (Some (js ''Caff'' @ [0xC8] @ js '' Borbone 100 Capsule''))
     = [js ''caff'' @ [0xE8] @ js '' borbone'', js ''borbone 100'', js ''100 capsule'']
   \<and> distinct (title_candidates example_env (js ''Caff'' @ [0xC8] @ js '' Borbone 100 Capsule''))"
proof -
  let ?t = "js ''Caff'' @ [0xC8] @ js '' Borbone 100 Capsule''"
  have n: "\<forall>s. \<forall>c\<in>set (unicode_lower_case example_env s). \<not> is_upper c"
    using latin_lower_no_capital by (simp add: example_env_def)
  have s: "\<forall>s. (\<forall>c\<in>set s. \<not> is_upper c \<and> (is_ascii c \<or> is_space c)) \<longrightarrow> unicode_lower_case example_env s = s"
    using latin_lower_settled by (simp add: example_env_def)
  have w: "take 5 (extractWordsFromTitle example_env ?t) = [js ''caff'', js ''borbone'', js ''100'', js ''capsule'']"
    by code_simp
  have b: "bigramKeys example_env (extractWordsFromTitle example_env ?t) (Some ?t)
             = [js ''caff'' @ [0xE8] @ js '' borbone'', js ''borbone 100'', js ''100 capsule'']"
    by code_simp
  from candidate_keys_of_title[OF n s, of ?t] w b show ?thesis by simp
qed

text \<open>
  Claim C7, as stated, fails: the title \<open>usb hub\<close> has the single-word keys \<open>usb\<close> and
  \<open>hub\<close>, of length 3, which is not strictly greater than 3.
\<close>

theorem candidate_keys_counterexample:
  "title_candidates example_env (js ''usb hub'') = [js ''usb'', js ''Usb'', js ''hub'', js ''Hub'', js ''usb hub'']
   \<and> singleWords example_env (extractWordsFromTitle example_env (js ''usb hub'')) = [js ''usb'', js ''hub'']
   \<and> bigramKeys example_env (extractWordsFromTitle example_env (js ''usb hub'')) (Some (js ''usb hub''))
       = [js ''usb hub'']
   \<and> trigramKeys example_env (extractWordsFromTitle example_env (js ''usb hub'')) (Some (js ''usb hub'')) = []
   \<and> length (js ''usb'') = 3"
  by code_simp

section \<open>Reconciler: the deletion branches\<close>

lemma findFavoritersByOffer_favorites:
  assumes "favorites db' = favorites db"
  shows "findFavoritersByOffer db' = findFavoritersByOffer db"
  using assms by (intro ext) (simp add: findFavoritersByOffer_def)

lemma hasOfferBeenNotified_notifications:
  assumes "notifications db' = notifications db"
  shows "hasOfferBeenNotified e db' = hasOfferBeenNotified e db"
  using assms by (intro ext) (simp add: hasOfferBeenNotified_def)

lemma favoriters_after_withdraw [simp]:
  "findFavoritersByOffer (withdrawNotificationsSafe e p t oid db) = findFavoritersByOffer db"
  by (rule findFavoritersByOffer_favorites) simp

lemma notified_after_withdraw [simp]:
  "hasOfferBeenNotified e (withdrawNotificationsSafe e' p t oid db) = hasOfferBeenNotified e db"
  by (rule hasOfferBeenNotified_notifications) simp

lemma created_deletion_offers:
  assumes "c_newPriority cx \<le> c_existingPriority cx"
  shows "offers (fst (created_deletion e cx db)) =
           (if findFavoritersByOffer db (c_docIdToUse cx) None \<noteq> []
            then markOfferDeleted e (c_docIdToUse cx) (post_timestamp e (c_post cx)) (offers db)
            else if hasOfferBeenNotified e db (c_docIdToUse cx)
            then markOfferDeleted e (c_docIdToUse cx) (Some (deleteAtPlusDays e)) (offers db)
            else hardDeleteOffer (c_docIdToUse cx) (offers db))"
  using assms by (simp add: created_deletion_def Let_def)

lemma edited_deletion_offers:
  assumes "c_newPriority cx \<le> c_existingPriority cx"
  shows "offers (fst (edited_deletion e cx db)) =
           (if findFavoritersByOffer db (c_docIdToUse cx) None \<noteq> []
            then markOfferDeleted e (c_docIdToUse cx) (post_timestamp e (c_post cx)) (offers db)
            else markOfferDeleted e (c_docIdToUse cx) (Some (deleteAtPlusDays e)) (offers db))"
  using assms by (simp add: edited_deletion_def Let_def)

lemma handle_deleted_offers:
  assumes "c_newPriority cx \<le> c_existingPriority cx"
  shows "offers (fst (handle_deleted e cx db)) =
           (if findFavoritersByOffer db (c_docIdToUse cx) None \<noteq> []
            then markOfferDeleted e (c_docIdToUse cx) (post_timestamp e (c_post cx)) (offers db)
            else if hasOfferBeenNotified e db (c_docIdToUse cx)
            then markOfferDeleted e (c_docIdToUse cx) (Some (deleteAtPlusDays e)) (offers db)
            else hardDeleteOffer (c_docIdToUse cx) (offers db))"
  using assms by (simp add: handle_deleted_def Let_def)

lemma deletion_ignored_offers:
  assumes "\<not> c_newPriority cx \<le> c_existingPriority cx"
  shows "offers (fst (created_deletion e cx db)) = offers db"
    and "offers (fst (edited_deletion e cx db)) = offers db"
    and "offers (fst (handle_deleted e cx db)) = offers db"
  using assms by (simp_all add: created_deletion_def edited_deletion_def handle_deleted_def Let_def)

text \<open>What marking and removing do to the table.\<close>

lemma has_offer_id_mark [simp]: "has_offer_id oid (mark_deleted_row ts r) = has_offer_id oid r"
  by (simp add: has_offer_id_def mark_deleted_row_def)

lemma markOfferDeleted_length [simp]: "length (markOfferDeleted e oid ts tbl) = length tbl"
  by (simp add: markOfferDeleted_def)


lemma markOfferDeleted_codes:
  "map (\<lambda>r. r ''code'') (markOfferDeleted e oid ts tbl) = map (\<lambda>r. r ''code'') tbl"
  by (simp add: markOfferDeleted_def mark_deleted_row_def)

lemma markOfferDeleted_marked:
  assumes "r \<in> set (markOfferDeleted e oid ts tbl)" "has_offer_id oid r"
  shows "r ''is_deleted'' = Some (JBool True) \<and> r ''is_expired'' = Some (JBool True)
         \<and> r ''timestamp_expired'' = Some (stored_timestamp e ts)"
proof -
  from assms(1) obtain r0 where r0: "r0 \<in> set tbl"
      "r = (if has_offer_id oid r0 then mark_deleted_row (stored_timestamp e ts) r0 else r0)"
    by (auto simp add: markOfferDeleted_def)
  show ?thesis
  proof (cases "has_offer_id oid r0")
    case True
    with r0 show ?thesis by (simp add: mark_deleted_row_def)
  next
    case False
    with r0 assms(2) show ?thesis by simp
  qed
qed




lemma manage_offer_deletion:
  assumes "gate e pl = None" "p_post pl = Some post0"
  shows "p_type pl = Some (JStr (js ''POST_CREATED'')) \<Longrightarrow> isExpiredOrDeleted (c_post (make_ctx e post0 db))
           \<Longrightarrow> manage_offer e pl db = created_deletion e (make_ctx e post0 db) db"
    and "p_type pl = Some (JStr (js ''POST_EDITED'')) \<Longrightarrow> isExpiredOrDeleted (c_post (make_ctx e post0 db))
           \<Longrightarrow> manage_offer e pl db = edited_deletion e (make_ctx e post0 db) db"
    and "p_type pl = Some (JStr (js ''POST_DELETED''))
           \<Longrightarrow> manage_offer e pl db = handle_deleted e (make_ctx e post0 db) db"
  using assms by (simp_all add: manage_offer_def Let_def)

lemma deletion_answers:
  assumes "c_newPriority cx \<le> c_existingPriority cx"
  shows "snd (created_deletion e cx db) =
           (if findFavoritersByOffer db (c_docIdToUse cx) None \<noteq> [] then Ok200 ''ignored_deleted_because_in_favorites''
            else if hasOfferBeenNotified e db (c_docIdToUse cx) then Ok200 ''soft_deleted''
            else Ok200 ''deleted_via_create'')"
    and "snd (edited_deletion e cx db) =
           (if findFavoritersByOffer db (c_docIdToUse cx) None \<noteq> [] then Ok200 ''ignored_deleted_because_in_favorites''
            else if hasOfferBeenNotified e db (c_docIdToUse cx) then Ok200 ''soft_deleted''
            else Ok200 ''soft_deleted_via_edit'')"
    and "snd (handle_deleted e cx db) =
           (if findFavoritersByOffer db (c_docIdToUse cx) None \<noteq> [] then Ok200 ''soft_deleted''
            else if hasOfferBeenNotified e db (c_docIdToUse cx) then Ok200 ''soft_deleted''
            else Ok200 ''deleted'')"
  using assms by (simp_all add: created_deletion_def edited_deletion_def handle_deleted_def Let_def)

lemma deletion_table:
  assumes gate: "gate e pl = None" and post: "p_post pl = Some post0" and cx: "cx = make_ctx e post0 db"
    and permit: "c_newPriority cx \<le> c_existingPriority cx"
    and ev: "p_type pl = Some (JStr (js ''POST_DELETED''))
             \<or> ((p_type pl = Some (JStr (js ''POST_CREATED'')) \<or> p_type pl = Some (JStr (js ''POST_EDITED'')))
                 \<and> isExpiredOrDeleted (c_post cx))"
  shows "offers (fst (manage_offer e pl db)) =
           (if findFavoritersByOffer db (c_docIdToUse cx) None \<noteq> []
            then markOfferDeleted e (c_docIdToUse cx) (post_timestamp e (c_post cx)) (offers db)
            else if hasOfferBeenNotified e db (c_docIdToUse cx) \<or> p_type pl = Some (JStr (js ''POST_EDITED''))
            then markOfferDeleted e (c_docIdToUse cx) (Some (deleteAtPlusDays e)) (offers db)
            else hardDeleteOffer (c_docIdToUse cx) (offers db))"
    and "snd (manage_offer e pl db) =
           (if p_type pl = Some (JStr (js ''POST_DELETED''))
            then (if findFavoritersByOffer db (c_docIdToUse cx) None \<noteq> [] \<or> hasOfferBeenNotified e db (c_docIdToUse cx)
                  then Ok200 ''soft_deleted'' else Ok200 ''deleted'')
            else if findFavoritersByOffer db (c_docIdToUse cx) None \<noteq> []
            then Ok200 ''ignored_deleted_because_in_favorites''
            else if hasOfferBeenNotified e db (c_docIdToUse cx) then Ok200 ''soft_deleted''
            else if p_type pl = Some (JStr (js ''POST_EDITED'')) then Ok200 ''soft_deleted_via_edit''
            else Ok200 ''deleted_via_create'')"
proof -
  consider (d) "p_type pl = Some (JStr (js ''POST_DELETED''))"
    | (c) "p_type pl = Some (JStr (js ''POST_CREATED''))" "isExpiredOrDeleted (c_post cx)"
    | (e) "p_type pl = Some (JStr (js ''POST_EDITED''))" "isExpiredOrDeleted (c_post cx)"
    using ev by blast
  then have "offers (fst (manage_offer e pl db)) =
           (if findFavoritersByOffer db (c_docIdToUse cx) None \<noteq> []
            then markOfferDeleted e (c_docIdToUse cx) (post_timestamp e (c_post cx)) (offers db)
            else if hasOfferBeenNotified e db (c_docIdToUse cx) \<or> p_type pl = Some (JStr (js ''POST_EDITED''))
            then markOfferDeleted e (c_docIdToUse cx) (Some (deleteAtPlusDays e)) (offers db)
            else hardDeleteOffer (c_docIdToUse cx) (offers db))
     \<and> snd (manage_offer e pl db) =
           (if p_type pl = Some (JStr (js ''POST_DELETED''))
            then (if findFavoritersByOffer db (c_docIdToUse cx) None \<noteq> [] \<or> hasOfferBeenNotified e db (c_docIdToUse cx)
                  then Ok200 ''soft_deleted'' else Ok200 ''deleted'')
            else if findFavoritersByOffer db (c_docIdToUse cx) None \<noteq> []
            then Ok200 ''ignored_deleted_because_in_favorites''
            else if hasOfferBeenNotified e db (c_docIdToUse cx) then Ok200 ''soft_deleted''
            else if p_type pl = Some (JStr (js ''POST_EDITED'')) then Ok200 ''soft_deleted_via_edit''
            else Ok200 ''deleted_via_create'')"
  proof cases
    case d
    then show ?thesis
      using manage_offer_deletion(3)[OF gate post, of db] handle_deleted_offers[OF permit, of e db]
        deletion_answers(3)[OF permit, of e db] cx by simp
  next
    case c
    then show ?thesis
      using manage_offer_deletion(1)[OF gate post, of db] created_deletion_offers[OF permit, of e db]
        deletion_answers(1)[OF permit, of e db] cx by simp
  next
    case e
    then show ?thesis
      using manage_offer_deletion(2)[OF gate post, of db] edited_deletion_offers[OF permit, of e db]
        deletion_answers(2)[OF permit, of e db] cx by simp
  qed
  then show "offers (fst (manage_offer e pl db)) =
           (if findFavoritersByOffer db (c_docIdToUse cx) None \<noteq> []
            then markOfferDeleted e (c_docIdToUse cx) (post_timestamp e (c_post cx)) (offers db)
            else if hasOfferBeenNotified e db (c_docIdToUse cx) \<or> p_type pl = Some (JStr (js ''POST_EDITED''))
            then markOfferDeleted e (c_docIdToUse cx) (Some (deleteAtPlusDays e)) (offers db)
            else hardDeleteOffer (c_docIdToUse cx) (offers db))"
    and "snd (manage_offer e pl db) =
           (if p_type pl = Some (JStr (js ''POST_DELETED''))
            then (if findFavoritersByOffer db (c_docIdToUse cx) None \<noteq> [] \<or> hasOfferBeenNotified e db (c_docIdToUse cx)
                  then Ok200 ''soft_deleted'' else Ok200 ''deleted'')
            else if findFavoritersByOffer db (c_docIdToUse cx) None \<noteq> []
            then Ok200 ''ignored_deleted_because_in_favorites''
            else if hasOfferBeenNotified e db (c_docIdToUse cx) then Ok200 ''soft_deleted''
            else if p_type pl = Some (JStr (js ''POST_EDITED'')) then Ok200 ''soft_deleted_via_edit''
            else Ok200 ''deleted_via_create'')"
    by simp_all
qed




section \<open>Reconciler: the expiry timestamp of a soft deletion\<close>

lemma make_ctx_post_field:
  "k \<noteq> ''title'' \<Longrightarrow> k \<noteq> ''super_offer_notify'' \<Longrightarrow> c_post (make_ctx e post0 db) k = post0 k"
  by (simp add: make_ctx_def Let_def clean_title_def)

lemma stored_timestamp_cases:
  "stored_timestamp e (Some (deleteAtPlusDays e)) = JNum (now e + 7 * 24 * 60 * 60 * 1000)"
  "post ''timestamp'' = Some (JNum t) \<Longrightarrow> t \<noteq> 0 \<Longrightarrow> stored_timestamp e (post_timestamp e post) = JNum t"
  "\<not> truthy (post ''timestamp'') \<Longrightarrow> stored_timestamp e (post_timestamp e post) = JNum (now e)"
  by (auto simp add: stored_timestamp_def deleteAtPlusDays_def post_timestamp_def nowMs_def split: option.splits)

text \<open>
  Claim C4, as amended. After a deletion request that passes the early answers and the priority
  check, every row of the offer id that is still in the table has its \<open>timestamp_expired\<close>
  set: when a user holds a product favorite of the offer, to \<open>post.timestamp\<close> if that is truthy
  (a number other than 0 is stored as it is) and else to the time of processing, with no days
  added; when no user does (the offer was notified in the last 7 days, or the request is a
  \<open>POST_EDITED\<close>), to the time of processing plus 7 days, whatever timestamp the request
  carries.
\<close>

theorem soft_delete_timestamp:
  assumes gate: "gate e pl = None" and post: "p_post pl = Some post0" and cx: "cx = make_ctx e post0 db"
    and permit: "c_newPriority cx \<le> c_existingPriority cx"
    and ev: "p_type pl = Some (JStr (js ''POST_DELETED''))
             \<or> ((p_type pl = Some (JStr (js ''POST_CREATED'')) \<or> p_type pl = Some (JStr (js ''POST_EDITED'')))
                 \<and> isExpiredOrDeleted (c_post cx))"
    and row: "r \<in> set (offers (fst (manage_offer e pl db)))" "has_offer_id (c_docIdToUse cx) r"
  shows "(findFavoritersByOffer db (c_docIdToUse cx) None \<noteq> [] \<longrightarrow>
            r ''timestamp_expired'' = Some (stored_timestamp e (post_timestamp e (c_post cx)))
            \<and> (\<forall>t. post0 ''timestamp'' = Some (JNum t) \<and> t \<noteq> 0 \<longrightarrow> r ''timestamp_expired'' = Some (JNum t))
            \<and> (\<not> truthy (post0 ''timestamp'') \<longrightarrow> r ''timestamp_expired'' = Some (JNum (now e))))
         \<and> (findFavoritersByOffer db (c_docIdToUse cx) None = [] \<longrightarrow>
            r ''timestamp_expired'' = Some (JNum (now e + 7 * 24 * 60 * 60 * 1000)))"
proof -
  let ?d = "c_docIdToUse cx"
  note tbl = deletion_table(1)[OF gate post cx permit ev]
  have ts: "c_post cx ''timestamp'' = post0 ''timestamp''"
    using cx by (simp add: make_ctx_post_field)
  show ?thesis
  proof (cases "findFavoritersByOffer db ?d None \<noteq> []")
    case True
    with tbl row(1) have "r \<in> set (markOfferDeleted e ?d (post_timestamp e (c_post cx)) (offers db))" by simp
    from markOfferDeleted_marked[OF this row(2)]
    have s: "r ''timestamp_expired'' = Some (stored_timestamp e (post_timestamp e (c_post cx)))" by simp
    have a: "\<forall>t. post0 ''timestamp'' = Some (JNum t) \<and> t \<noteq> 0 \<longrightarrow> r ''timestamp_expired'' = Some (JNum t)"
      using s ts stored_timestamp_cases(2)[of "c_post cx" _ e] by simp
    have b: "\<not> truthy (post0 ''timestamp'') \<longrightarrow> r ''timestamp_expired'' = Some (JNum (now e))"
      using s ts stored_timestamp_cases(3)[of "c_post cx" e] by simp
    from True s a b show ?thesis by blast
  next
    case False
    show ?thesis
    proof (cases "hasOfferBeenNotified e db ?d \<or> p_type pl = Some (JStr (js ''POST_EDITED''))")
      case True
      with False tbl row(1) have "r \<in> set (markOfferDeleted e ?d (Some (deleteAtPlusDays e)) (offers db))" by simp
      from markOfferDeleted_marked[OF this row(2)]
      have "r ''timestamp_expired'' = Some (JNum (now e + 7 * 24 * 60 * 60 * 1000))"
        by (simp add: stored_timestamp_cases(1))
      with False show ?thesis by blast
    next
      case hard: False
      with False tbl row(1) have "r \<in> set (hardDeleteOffer ?d (offers db))" by simp
      with row(2) have False by (simp add: hardDeleteOffer_def)
      then show ?thesis ..
    qed
  qed
qed

theorem soft_delete_timestamp_witness:
  "hd (offers (fst (manage_offer example_env
         (example_request ''POST_DELETED'' ((example_post ''o1'' ''c1'' ''other'')(''timestamp'' \<mapsto> JNum 77)))
         favorited_store))) ''timestamp_expired'' = Some (JNum 77)"
proof -
  let ?post = "(example_post ''o1'' ''c1'' ''other'')(''timestamp'' \<mapsto> JNum 77)"
  let ?pl = "example_request ''POST_DELETED'' ?post"
  let ?cx = "make_ctx example_env ?post favorited_store"
  let ?tbl = "offers (fst (manage_offer example_env ?pl favorited_store))"
  have g: "gate example_env ?pl = None" by code_simp
  have p: "p_post ?pl = Some ?post" by (simp add: example_request_def)
  have ev: "p_type ?pl = Some (JStr (js ''POST_DELETED''))" by (simp add: example_request_def)
  have perm: "c_newPriority ?cx \<le> c_existingPriority ?cx" by code_simp
  have len: "length ?tbl = 1" by code_simp
  then have m: "hd ?tbl \<in> set ?tbl" by (cases ?tbl) simp_all
  have h: "has_offer_id (c_docIdToUse ?cx) (hd ?tbl)" by code_simp
  have f: "findFavoritersByOffer favorited_store (c_docIdToUse ?cx) None \<noteq> []" by code_simp
  have t: "?post ''timestamp'' = Some (JNum 77) \<and> (77::int) \<noteq> 0" by simp
  from soft_delete_timestamp[OF g p refl perm disjI1[OF ev] m h] f t
  show ?thesis by blast
qed

text \<open>
  Claim C4, as stated, fails both ways: a \<open>POST_DELETED\<close> without \<open>post.timestamp\<close> for a
  favorited offer stores the time of processing (1000), not that time plus 7 days; and a
  \<open>POST_DELETED\<close> with \<open>post.timestamp = 77\<close> for an offer that was only notified stores the
  time of processing plus 7 days, not 77.
\<close>

theorem soft_delete_timestamp_counterexample:
  "column ''timestamp_expired'' (offers (fst (manage_offer example_env
       (example_request ''POST_DELETED'' (example_post ''o1'' ''c1'' ''other'')) favorited_store)))
     = [Some (JNum 1000)]
   \<and> example_post ''o1'' ''c1'' ''other'' ''timestamp'' = None
   \<and> now example_env + 7 * 24 * 60 * 60 * 1000 = 604801000
   \<and> column ''timestamp_expired'' (offers (fst (manage_offer example_env
       (example_request ''POST_DELETED'' ((example_post ''o1'' ''c1'' ''-1001305107383'')(''timestamp'' \<mapsto> JNum 77)))
       notified_store)))
     = [Some (JNum 604801000)]"
  by code_simp

section \<open>Reconciler: retraction comes first\<close>

lemma joined_tokens_nonempty: "joined_tokens db uid \<noteq> []"
  by (simp add: joined_tokens_def split: list.splits)

lemma joined_rows_ids:
  assumes "n \<in> set ns" "un \<in> set (users_notifications db)"
    "r_notification_id un = Some (n_id n)" "not_withdrawn un"
  shows "n_id n \<in> w_notification_id ` set (joined_rows db ns)"
proof -
  obtain tok where tok: "tok \<in> set (joined_tokens db (r_uid un))"
    using joined_tokens_nonempty[of db "r_uid un"] by (cases "joined_tokens db (r_uid un)") auto
  let ?row = "\<lparr>w_target = n_target n, w_notification_id = n_id n, w_uid = r_uid un, w_token = tok\<rparr>"
  have "?row \<in> set (joined_rows db ns)"
    using assms tok by (auto simp add: joined_rows_def)
  then have "w_notification_id ?row \<in> w_notification_id ` set (joined_rows db ns)" by (rule imageI)
  then show ?thesis by simp
qed

lemma mark_withdrawn_receipt:
  assumes "un' \<in> set (users_notifications (mark_withdrawn ids db))"
  shows "\<exists>un\<in>set (users_notifications db).
           r_notification_id un' = r_notification_id un
           \<and> (r_withdrawn un' = Some True
               \<or> (un' = un \<and> (\<forall>i. r_notification_id un = Some i \<longrightarrow> i \<notin> set ids)))"
proof (cases "ids = []")
  case True
  with assms show ?thesis by (auto simp add: mark_withdrawn_def)
next
  case False
  with assms obtain un where un: "un \<in> set (users_notifications db)"
    "un' = (case r_notification_id un of
              Some i \<Rightarrow> if i \<in> set ids then un\<lparr>r_withdrawn := Some True\<rparr> else un
            | None \<Rightarrow> un)"
    by (auto simp add: mark_withdrawn_def)
  then show ?thesis by (cases "r_notification_id un") (auto intro!: bexI[of _ un])
qed

lemma withdraw_marks_all:
  assumes un': "un' \<in> set (users_notifications (fst (withdrawNotificationsForOffer oid db)))"
    and n: "n \<in> set (notifications db)" "pg_text oid \<noteq> None" "n_offer_id n = pg_text oid"
    and nid: "r_notification_id un' = Some (n_id n)"
  shows "r_withdrawn un' = Some True"
proof -
  let ?ns = "filter (\<lambda>n. pg_text oid \<noteq> None \<and> n_offer_id n = pg_text oid) (notifications db)"
  let ?ids = "array_from_set (map w_notification_id (joined_rows db ?ns))"
  from un' have "un' \<in> set (users_notifications (mark_withdrawn ?ids db))"
    by (simp add: withdrawNotificationsForOffer_def Let_def)
  from mark_withdrawn_receipt[OF this] obtain un where un: "un \<in> set (users_notifications db)"
    "r_notification_id un' = r_notification_id un"
    "r_withdrawn un' = Some True \<or> (un' = un \<and> (\<forall>i. r_notification_id un = Some i \<longrightarrow> i \<notin> set ?ids))"
    by blast
  show ?thesis
  proof (rule ccontr)
    assume nw: "r_withdrawn un' \<noteq> Some True"
    with un(3) have same: "un' = un" and out: "n_id n \<notin> set ?ids" using nid un(2) by auto
    have "n \<in> set ?ns" using n by simp
    moreover have "not_withdrawn un" using nw same by (simp add: not_withdrawn_def)
    moreover have "r_notification_id un = Some (n_id n)" using nid un(2) by simp
    ultimately have "n_id n \<in> w_notification_id ` set (joined_rows db ?ns)"
      using joined_rows_ids[of n ?ns un db] un(1) by blast
    then have "n_id n \<in> set ?ids" by simp
    with out show False by contradiction
  qed
qed

lemma withdrawOfferNotifications_receipts:
  "users_notifications (fst (withdrawOfferNotifications e p oid t db))
     = users_notifications (fst (withdrawNotificationsForOffer oid db))"
  by (simp add: withdrawOfferNotifications_def Let_def split: prod.splits)


lemma foldl_pick_member:
  "foldl (\<lambda>best x. if P x best then x else best) r rs \<in> set (r # rs)"
proof (induction rs arbitrary: r)
  case Nil
  show ?case by simp
next
  case (Cons a rs)
  from Cons[of "if P a r then a else r"] show ?case by (auto split: if_splits)
qed

lemma getOfferByCode_Some:
  assumes "getOfferByCode c tbl = Some ex"
  shows "ex \<in> set tbl \<and> has_code c ex"
proof -
  from assms obtain r rs where rs: "filter (has_code c) tbl = r # rs"
    "ex = foldl (\<lambda>best x. if sorts_before x best then x else best) r rs"
    by (auto simp add: getOfferByCode_def split: list.splits)
  have "ex \<in> set (r # rs)" unfolding rs(2) by (rule foldl_pick_member)
  then have "ex \<in> set (filter (has_code c) tbl)" using rs(1) by simp
  then show ?thesis by simp
qed

lemma getOfferByCode_None: "getOfferByCode c tbl = None \<longleftrightarrow> filter (has_code c) tbl = []"
  by (simp add: getOfferByCode_def split: list.splits)

lemma gate_passed:
  assumes "gate e pl = None" "p_post pl = Some post0"
  shows "truthy (post0 ''offer_id'')" and "truthy (post0 ''code'')" and "truthy (p_type pl)"
    and "accept_incoming_requests (appInit e)"
  using assms
  by (auto simp add: gate_def Let_def clean_title_def split: if_splits option.splits jsval.splits)

lemma make_ctx_fields:
  "c_existing (make_ctx e post0 db) = getOfferByCode (post0 ''code'') (offers db)"
  "c_docIdToUse (make_ctx e post0 db) =
     (case getOfferByCode (post0 ''code'') (offers db) of None \<Rightarrow> post0 ''offer_id'' | Some ex \<Rightarrow> ex ''offer_id'')"
  by (simp_all add: make_ctx_def Let_def clean_title_def split: option.splits)

lemma docId_truthy:
  assumes "gate e pl = None" "p_post pl = Some post0" "\<forall>r\<in>set (offers db). truthy (r ''offer_id'')"
  shows "truthy (c_docIdToUse (make_ctx e post0 db))"
proof (cases "getOfferByCode (post0 ''code'') (offers db)")
  case None
  then show ?thesis using gate_passed(1)[OF assms(1,2)] by (simp add: make_ctx_fields)
next
  case (Some ex)
  with getOfferByCode_Some[OF Some] assms(3) show ?thesis by (simp add: make_ctx_fields)
qed

lemma truthy_pg_text: "truthy x \<Longrightarrow> pg_text x \<noteq> None"
  by (cases x rule: truthy.cases) (simp_all add: pg_text_def)

lemma store_offers_reset: "offers db1 = tbl \<Longrightarrow> (set_offers tbl' db1)\<lparr>offers := tbl\<rparr> = db1"
  by (simp add: set_offers_def)

lemma store_offers_same: "offers db1 = tbl \<Longrightarrow> db1\<lparr>offers := tbl\<rparr> = db1"
  by simp

lemma deletion_store:
  "(fst (created_deletion e cx db))\<lparr>offers := offers db\<rparr>
     = withdrawNotificationsSafe e (projectId e) (accessToken e) (c_docIdToUse cx) db"
  "(fst (edited_deletion e cx db))\<lparr>offers := offers db\<rparr>
     = withdrawNotificationsSafe e (projectId e) (accessToken e) (c_docIdToUse cx) db"
  "(fst (handle_deleted e cx db))\<lparr>offers := offers db\<rparr>
     = withdrawNotificationsSafe e (projectId e) (accessToken e) (c_docIdToUse cx) db"
  by (simp_all add: created_deletion_def edited_deletion_def handle_deleted_def Let_def
        store_offers_reset store_offers_same)

lemma deletion_refused:
  assumes "\<not> c_newPriority cx \<le> c_existingPriority cx"
  shows "snd (created_deletion e cx db) = Ok200 ''delete_ignored''"
    and "snd (edited_deletion e cx db) = Ok200 ''delete_ignored''"
    and "snd (handle_deleted e cx db) = Ok200_reason ''skipped'' ''lower_priority_on_delete''"
  using assms by (simp_all add: created_deletion_def edited_deletion_def handle_deleted_def Let_def)

text \<open>
  Claim C6. For a request of any kind that passes the early answers and indicates that the offer
  is expired or deleted, over a table whose rows all have an offer id: apart from the offers
  table, the store the handler leaves is the store that the retraction of the offer's
  notifications leaves, whatever the priority check decides afterwards. So every receipt of a
  notification of the offer is withdrawn in the end, and the retract messages of the fan-out are
  in the outbox. When the channel's rank does not permit the overwrite, the answer is
  \<open>delete_ignored\<close> (or \<open>skipped\<close> with \<open>lower_priority_on_delete\<close> for a
  \<open>POST_DELETED\<close>), and the whole store is the one the retraction leaves.
\<close>

theorem retraction_before_arbitration:
  assumes gate: "gate e pl = None" and post: "p_post pl = Some post0" and cx: "cx = make_ctx e post0 db"
    and ev: "p_type pl = Some (JStr (js ''POST_DELETED''))
             \<or> ((p_type pl = Some (JStr (js ''POST_CREATED'')) \<or> p_type pl = Some (JStr (js ''POST_EDITED'')))
                 \<and> isExpiredOrDeleted (c_post cx))"
    and ids: "\<forall>r\<in>set (offers db). truthy (r ''offer_id'')"
  shows "(fst (manage_offer e pl db))\<lparr>offers := offers db\<rparr>
           = fst (withdrawOfferNotifications e (projectId e) (c_docIdToUse cx) (accessToken e) db)
         \<and> (\<forall>un\<in>set (users_notifications (fst (manage_offer e pl db))).
               \<forall>n\<in>set (notifications db).
                 n_offer_id n = pg_text (c_docIdToUse cx) \<and> r_notification_id un = Some (n_id n)
                   \<longrightarrow> r_withdrawn un = Some True)
         \<and> (\<not> c_newPriority cx \<le> c_existingPriority cx \<longrightarrow>
               snd (manage_offer e pl db)
                 = (if p_type pl = Some (JStr (js ''POST_DELETED''))
                    then Ok200_reason ''skipped'' ''lower_priority_on_delete''
                    else Ok200 ''delete_ignored'')
               \<and> fst (manage_offer e pl db)
                 = fst (withdrawOfferNotifications e (projectId e) (c_docIdToUse cx) (accessToken e) db))"
proof -
  let ?d = "c_docIdToUse cx"
  let ?r = "manage_offer e pl db"
  let ?w = "fst (withdrawOfferNotifications e (projectId e) ?d (accessToken e) db)"
  have tr: "truthy ?d" using docId_truthy[OF gate post ids] cx by simp
  then have safe: "withdrawNotificationsSafe e (projectId e) (accessToken e) ?d db = ?w"
    by (simp add: withdrawNotificationsSafe_def)
  consider (d) "p_type pl = Some (JStr (js ''POST_DELETED''))"
    | (c) "p_type pl = Some (JStr (js ''POST_CREATED''))" "isExpiredOrDeleted (c_post cx)"
    | (e) "p_type pl = Some (JStr (js ''POST_EDITED''))" "isExpiredOrDeleted (c_post cx)"
    using ev by blast
  then have branch: "?r = handle_deleted e cx db \<and> p_type pl = Some (JStr (js ''POST_DELETED''))
        \<or> ?r = created_deletion e cx db \<and> p_type pl \<noteq> Some (JStr (js ''POST_DELETED''))
        \<or> ?r = edited_deletion e cx db \<and> p_type pl \<noteq> Some (JStr (js ''POST_DELETED''))"
  proof cases
    case d
    then show ?thesis using manage_offer_deletion(3)[OF gate post, of db] cx by simp
  next
    case c
    then show ?thesis using manage_offer_deletion(1)[OF gate post, of db] cx by simp
  next
    case e
    then show ?thesis using manage_offer_deletion(2)[OF gate post, of db] cx by simp
  qed
  have st: "(fst ?r)\<lparr>offers := offers db\<rparr> = ?w"
    using branch deletion_store[where e=e and cx=cx and db=db] safe by auto
  have un_eq: "users_notifications (fst ?r) = users_notifications ?w"
  proof -
    have "users_notifications ((fst ?r)\<lparr>offers := offers db\<rparr>) = users_notifications ?w"
      using st by simp
    then show ?thesis by simp
  qed
  have marked: "\<forall>un\<in>set (users_notifications (fst ?r)). \<forall>n\<in>set (notifications db).
                 n_offer_id n = pg_text ?d \<and> r_notification_id un = Some (n_id n)
                   \<longrightarrow> r_withdrawn un = Some True"
  proof (intro ballI impI)
    fix un n
    assume un: "un \<in> set (users_notifications (fst ?r))" and n: "n \<in> set (notifications db)"
      and h: "n_offer_id n = pg_text ?d \<and> r_notification_id un = Some (n_id n)"
    from un have "un \<in> set (users_notifications (fst (withdrawNotificationsForOffer ?d db)))"
      by (simp add: un_eq withdrawOfferNotifications_receipts)
    from withdraw_marks_all[OF this n truthy_pg_text[OF tr]] h
    show "r_withdrawn un = Some True" by simp
  qed
  have refused: "\<not> c_newPriority cx \<le> c_existingPriority cx \<longrightarrow>
               snd ?r = (if p_type pl = Some (JStr (js ''POST_DELETED''))
                    then Ok200_reason ''skipped'' ''lower_priority_on_delete''
                    else Ok200 ''delete_ignored'')
               \<and> fst ?r = ?w"
  proof
    assume np: "\<not> c_newPriority cx \<le> c_existingPriority cx"
    have a: "snd ?r = (if p_type pl = Some (JStr (js ''POST_DELETED''))
                    then Ok200_reason ''skipped'' ''lower_priority_on_delete''
                    else Ok200 ''delete_ignored'')"
      using branch deletion_refused[OF np, where e=e and db=db] by auto
    have "offers (fst ?r) = offers db"
      using branch deletion_ignored_offers[OF np, where e=e and db=db] by auto
    then have "(fst ?r)\<lparr>offers := offers db\<rparr> = fst ?r" by simp
    with st have "fst ?r = ?w" by simp
    with a show "snd ?r = (if p_type pl = Some (JStr (js ''POST_DELETED''))
                    then Ok200_reason ''skipped'' ''lower_priority_on_delete''
                    else Ok200 ''delete_ignored'')
               \<and> fst ?r = ?w" by simp
  qed
  from st marked refused show ?thesis by blast
qed

theorem retraction_before_arbitration_witness:
  "snd (manage_offer example_env
          (example_request ''POST_CREATED'' ((example_post ''o9'' ''c1'' ''other'')(''is_expired'' \<mapsto> JBool True)))
          notified_store)
     = Ok200 ''delete_ignored''
   \<and> map r_withdrawn (users_notifications (fst (manage_offer example_env
          (example_request ''POST_CREATED'' ((example_post ''o9'' ''c1'' ''other'')(''is_expired'' \<mapsto> JBool True)))
          notified_store)))
     = [Some True]
   \<and> outbox (fst (manage_offer example_env
          (example_request ''POST_CREATED'' ((example_post ''o9'' ''c1'' ''other'')(''is_expired'' \<mapsto> JBool True)))
          notified_store))
     = [RetractMessage (js ''device1'') (Some (js ''o1'')) (Some (js ''7''))]
   \<and> map r_withdrawn (users_notifications notified_store) = [Some False]"
proof -
  let ?post = "(example_post ''o9'' ''c1'' ''other'')(''is_expired'' \<mapsto> JBool True)"
  let ?pl = "example_request ''POST_CREATED'' ?post"
  let ?cx = "make_ctx example_env ?post notified_store"
  let ?w = "fst (withdrawOfferNotifications example_env (projectId example_env) (c_docIdToUse ?cx)
                   (accessToken example_env) notified_store)"
  have g: "gate example_env ?pl = None" by code_simp
  have p: "p_post ?pl = Some ?post" by (simp add: example_request_def)
  have fl: "isExpiredOrDeleted (c_post ?cx)" by code_simp
  have ty: "p_type ?pl = Some (JStr (js ''POST_CREATED''))" by (simp add: example_request_def)
  have ev: "p_type ?pl = Some (JStr (js ''POST_DELETED''))
             \<or> ((p_type ?pl = Some (JStr (js ''POST_CREATED'')) \<or> p_type ?pl = Some (JStr (js ''POST_EDITED'')))
                 \<and> isExpiredOrDeleted (c_post ?cx))"
    using ty fl by simp
  have ids: "\<forall>r\<in>set (offers notified_store). truthy (r ''offer_id'')" by code_simp
  have low: "\<not> c_newPriority ?cx \<le> c_existingPriority ?cx" by code_simp
  have w1: "map r_withdrawn (users_notifications ?w) = [Some True]" by code_simp
  have w2: "outbox ?w = [RetractMessage (js ''device1'') (Some (js ''o1'')) (Some (js ''7''))]" by code_simp
  have w0: "map r_withdrawn (users_notifications notified_store) = [Some False]" by code_simp
  from retraction_before_arbitration[OF g p refl ev ids] low ty
  have "snd (manage_offer example_env ?pl notified_store) = Ok200 ''delete_ignored''
        \<and> fst (manage_offer example_env ?pl notified_store) = ?w"
    by simp
  with w1 w2 w0 show ?thesis by simp
qed

section \<open>Reconciler: a code without a row\<close>



lemma hardDeleteOffer_length: "length (hardDeleteOffer oid tbl) \<le> length tbl"
  by (simp add: hardDeleteOffer_def)

lemma insertOrUpdateOffer_absent:
  "filter (has_offer_id (row ''offer_id'')) tbl = [] \<Longrightarrow> insertOrUpdateOffer row tbl = tbl @ [row]"
  by (simp add: insertOrUpdateOffer_def)





section \<open>Reconciler: replaying a creation\<close>

lemma created_deletion_table:
  "offers (fst (created_deletion e cx db)) = offers db
   \<or> (\<exists>ts. offers (fst (created_deletion e cx db)) = markOfferDeleted e (c_docIdToUse cx) ts (offers db))
   \<or> offers (fst (created_deletion e cx db)) = hardDeleteOffer (c_docIdToUse cx) (offers db)"
proof (cases "c_newPriority cx \<le> c_existingPriority cx")
  case True
  from created_deletion_offers[OF True, of e db] show ?thesis by (auto split: if_splits)
next
  case False
  from deletion_ignored_offers(1)[OF False, where e=e and db=db] show ?thesis by simp
qed

lemma manage_offer_rejected:
  "gate e pl = Some r \<Longrightarrow> manage_offer e pl db = (db, r)"
  by (simp add: manage_offer_def)

lemma manage_offer_created:
  assumes "gate e pl = None" "p_post pl = Some post0" "p_type pl = Some (JStr (js ''POST_CREATED''))"
  shows "manage_offer e pl db =
           (if isExpiredOrDeleted (c_post (make_ctx e post0 db)) then created_deletion e (make_ctx e post0 db) db
            else created_active e pl (make_ctx e post0 db) db)"
  using assms by (simp add: manage_offer_def Let_def)

lemma gate_answer: "gate e pl = Some r \<Longrightarrow> r \<noteq> Ok200_offer a d"
  by (auto simp add: gate_def Let_def split: if_splits option.splits jsval.splits)

lemma created_deletion_answer: "snd (created_deletion e cx db) \<noteq> Ok200_offer a d"
  by (simp add: created_deletion_def Let_def)

lemma created_table_step:
  assumes post: "p_post pl = Some post0" and ty: "p_type pl = Some (JStr (js ''POST_CREATED''))"
  shows "(\<forall>a d. snd (manage_offer e pl db) \<noteq> Ok200_offer a d)
     \<and> (offers (fst (manage_offer e pl db)) = offers db
        \<or> gate e pl = None \<and>
           ((\<exists>ts. offers (fst (manage_offer e pl db))
                    = markOfferDeleted e (c_docIdToUse (make_ctx e post0 db)) ts (offers db))
            \<or> offers (fst (manage_offer e pl db)) = hardDeleteOffer (c_docIdToUse (make_ctx e post0 db)) (offers db)))
   \<or> gate e pl = None
     \<and> snd (manage_offer e pl db) = Ok200_offer ''created'' (c_docIdToUse (make_ctx e post0 db))
     \<and> (\<exists>row. row ''offer_id'' = c_docIdToUse (make_ctx e post0 db)
            \<and> offers (fst (manage_offer e pl db)) = insertOrUpdateOffer row (offers db))"
proof (cases "gate e pl")
  case (Some r)
  then show ?thesis using gate_answer[OF Some] by (simp add: manage_offer_rejected)
next
  case None
  let ?cx = "make_ctx e post0 db"
  note m = manage_offer_created[OF None post ty, of db]
  show ?thesis
  proof (cases "isExpiredOrDeleted (c_post ?cx)")
    case True
    with m have r: "manage_offer e pl db = created_deletion e ?cx db" by simp
    show ?thesis
      unfolding r using created_deletion_table[of e ?cx db] created_deletion_answer[of e ?cx db] None
      by blast
  next
    case False
    with m have r: "manage_offer e pl db = created_active e pl ?cx db" by simp
    from created_active_outcome[of e pl ?cx db]
    consider (same) "offers (fst (created_active e pl ?cx db)) = offers db"
        "\<forall>a d. snd (created_active e pl ?cx db) \<noteq> Ok200_offer a d"
      | (written) row where "row ''offer_id'' = c_docIdToUse ?cx"
        "offers (fst (created_active e pl ?cx db)) = insertOrUpdateOffer row (offers db)"
        "snd (created_active e pl ?cx db) = Ok200_offer ''created'' (c_docIdToUse ?cx)"
      by auto
    then show ?thesis
    proof cases
      case same
      then show ?thesis unfolding r by simp
    next
      case written
      then show ?thesis unfolding r using None by blast
    qed
  qed
qed

lemma has_code_mark [simp]: "has_code c (mark_deleted_row ts r) = has_code c r"
  by (simp add: has_code_def mark_deleted_row_def)

lemma length_filter_map_same:
  assumes "\<And>x. P (g x) = P x"
  shows "length (filter P (map g xs)) = length (filter P xs)"
  using assms by (induction xs) simp_all

lemma markOfferDeleted_code_rows:
  "length (filter (has_code c) (markOfferDeleted e oid ts tbl)) = length (filter (has_code c) tbl)"
  unfolding markOfferDeleted_def by (rule length_filter_map_same) simp

lemma pg_ids_mark:
  "map (\<lambda>r. pg_text (r ''offer_id'')) (markOfferDeleted e oid ts tbl) = map (\<lambda>r. pg_text (r ''offer_id'')) tbl"
  by (simp add: markOfferDeleted_def mark_deleted_row_def)

lemma markOfferDeleted_unique:
  "offer_ids_unique tbl \<Longrightarrow> offer_ids_unique (markOfferDeleted e oid ts tbl)"
  by (simp add: offer_ids_unique_def pg_ids_mark)

lemma hardDeleteOffer_unique:
  "offer_ids_unique tbl \<Longrightarrow> offer_ids_unique (hardDeleteOffer oid tbl)"
  by (auto simp add: offer_ids_unique_def hardDeleteOffer_def distinct_map_filter)

lemma hardDeleteOffer_code_rows:
  "length (filter (has_code c) (hardDeleteOffer oid tbl)) \<le> length (filter (has_code c) tbl)"
proof -
  have "filter (has_code c) (hardDeleteOffer oid tbl)
          = filter (\<lambda>r. \<not> has_offer_id oid r) (filter (has_code c) tbl)"
    by (simp add: hardDeleteOffer_def conj_commute)
  also have "length \<dots> \<le> length (filter (has_code c) tbl)"
    by (rule length_filter_le)
  finally show ?thesis .
qed

lemma distinct_map_at_most_one:
  "distinct (map f xs) \<Longrightarrow> length (filter (\<lambda>x. f x = v) xs) \<le> 1"
proof (induction xs)
  case Nil
  show ?case by simp
next
  case (Cons x xs)
  show ?case
  proof (cases "f x = v")
    case True
    have "\<forall>y\<in>set xs. f y \<noteq> v"
    proof
      fix y assume "y \<in> set xs"
      then have "f y \<in> f ` set xs" by (rule imageI)
      with Cons.prems True show "f y \<noteq> v" by auto
    qed
    then have "filter (\<lambda>y. f y = v) xs = []"
      by (simp add: filter_empty_conv)
    with True show ?thesis by simp
  next
    case False
    with Cons show ?thesis by simp
  qed
qed

lemma unique_ids_not_null:
  assumes "offer_ids_unique tbl" "r \<in> set tbl"
  shows "pg_text (r ''offer_id'') \<noteq> None"
proof
  assume "pg_text (r ''offer_id'') = None"
  then have "None = pg_text (r ''offer_id'')" by (rule sym)
  then have "None \<in> (\<lambda>r. pg_text (r ''offer_id'')) ` set tbl" using assms(2) by (rule image_eqI)
  moreover from assms(1) have "None \<notin> (\<lambda>r. pg_text (r ''offer_id'')) ` set tbl"
    unfolding offer_ids_unique_def set_map by (rule conjunct2)
  ultimately show False by (rule notE[rotated])
qed

lemma has_offer_id_text:
  assumes "pg_text (r ''offer_id'') \<noteq> None"
  shows "has_offer_id d r = (pg_text (r ''offer_id'') = pg_text d)"
  using assms unfolding has_offer_id_def sql_eq_def by blast

lemma rows_of_id_at_most_one:
  assumes "offer_ids_unique tbl"
  shows "length (filter (has_offer_id d) tbl) \<le> 1"
proof -
  have "filter (has_offer_id d) tbl = filter (\<lambda>r. pg_text (r ''offer_id'') = pg_text d) tbl"
  proof (rule filter_cong[OF refl])
    fix r assume "r \<in> set tbl"
    with assms have "pg_text (r ''offer_id'') \<noteq> None" by (rule unique_ids_not_null)
    then show "has_offer_id d r = (pg_text (r ''offer_id'') = pg_text d)" by (rule has_offer_id_text)
  qed
  moreover from assms have "distinct (map (\<lambda>r. pg_text (r ''offer_id'')) tbl)"
    unfolding offer_ids_unique_def by (rule conjunct1)
  then have "length (filter (\<lambda>r. pg_text (r ''offer_id'') = pg_text d) tbl) \<le> 1"
    by (rule distinct_map_at_most_one)
  ultimately show ?thesis by simp
qed

lemma length_filter_map_update:
  "length (filter P (map (\<lambda>r. if Q r then u r else r) xs))
     \<le> length (filter P (filter (\<lambda>r. \<not> Q r) xs)) + length (filter Q xs)"
  by (induction xs) auto


lemma has_offer_id_update [simp]:
  "has_offer_id d (update_columns row r) = has_offer_id d r"
  by (simp add: has_offer_id_def update_columns_def)

lemma pg_ids_update:
  "map (\<lambda>r. pg_text (r ''offer_id'')) (map (\<lambda>r. if has_offer_id d r then update_columns row r else r) tbl)
     = map (\<lambda>r. pg_text (r ''offer_id'')) tbl"
  by (induction tbl) (simp_all add: update_columns_def)

lemma upsert_unique:
  assumes u: "offer_ids_unique tbl" and d: "pg_text (row ''offer_id'') \<noteq> None"
  shows "offer_ids_unique (insertOrUpdateOffer row tbl)"
proof (cases "filter (has_offer_id (row ''offer_id'')) tbl = []")
  case True
  have fresh: "pg_text (row ''offer_id'') \<notin> set (map (\<lambda>r. pg_text (r ''offer_id'')) tbl)"
  proof
    assume "pg_text (row ''offer_id'') \<in> set (map (\<lambda>r. pg_text (r ''offer_id'')) tbl)"
    then obtain r where r: "r \<in> set tbl" "pg_text (r ''offer_id'') = pg_text (row ''offer_id'')" by auto
    then have "has_offer_id (row ''offer_id'') r" using d by (simp add: has_offer_id_def sql_eq_def)
    with r(1) True show False by (simp add: filter_empty_conv)
  qed
  from True have "insertOrUpdateOffer row tbl = tbl @ [row]" by (rule insertOrUpdateOffer_absent)
  with u d fresh show ?thesis by (auto simp add: offer_ids_unique_def)
next
  case False
  then have "insertOrUpdateOffer row tbl
      = map (\<lambda>r. if has_offer_id (row ''offer_id'') r then update_columns row r else r) tbl"
    by (simp add: insertOrUpdateOffer_def)
  then have "map (\<lambda>r. pg_text (r ''offer_id'')) (insertOrUpdateOffer row tbl)
      = map (\<lambda>r. pg_text (r ''offer_id'')) tbl"
    by (simp only: pg_ids_update)
  with u show ?thesis unfolding offer_ids_unique_def by simp
qed

lemma upsert_code_rows:
  assumes u: "offer_ids_unique tbl" and one: "length (filter (has_code c) tbl) \<le> 1"
    and d: "row ''offer_id'' = (case getOfferByCode c tbl of None \<Rightarrow> p | Some ex \<Rightarrow> ex ''offer_id'')"
  shows "length (filter (has_code c) (insertOrUpdateOffer row tbl)) \<le> 1"
proof -
  let ?d = "row ''offer_id''"
  have others: "filter (has_code c) (filter (\<lambda>r. \<not> has_offer_id ?d r) tbl) = []"
  proof (cases "getOfferByCode c tbl")
    case None
    then have "filter (has_code c) tbl = []" by (simp add: getOfferByCode_None)
    then show ?thesis by (simp add: filter_empty_conv)
  next
    case (Some ex)
    from getOfferByCode_Some[OF Some] have ex: "ex \<in> set tbl" "has_code c ex" by simp_all
    then have "ex \<in> set (filter (has_code c) tbl)" by simp
    with one have only: "filter (has_code c) tbl = [ex]"
      by (cases "filter (has_code c) tbl") (auto simp add: le_Suc_eq)
    have "pg_text (ex ''offer_id'') \<noteq> None" using u ex(1) by (rule unique_ids_not_null)
    moreover have "?d = ex ''offer_id''" using d Some by simp
    ultimately have "has_offer_id ?d ex" by (simp add: has_offer_id_def sql_eq_def)
    have "filter (has_code c) (filter (\<lambda>r. \<not> has_offer_id ?d r) tbl)
            = filter (\<lambda>r. \<not> has_offer_id ?d r) (filter (has_code c) tbl)"
      by (simp add: conj_commute)
    also have "\<dots> = []" using only \<open>has_offer_id ?d ex\<close> by simp
    finally show ?thesis .
  qed
  show ?thesis
  proof (cases "filter (has_offer_id ?d) tbl = []")
    case True
    then have all: "filter (\<lambda>r. \<not> has_offer_id ?d r) tbl = tbl"
      by (simp add: filter_empty_conv)
    with others have "filter (has_code c) tbl = []" by simp
    moreover from True have "insertOrUpdateOffer row tbl = tbl @ [row]" by (rule insertOrUpdateOffer_absent)
    ultimately show ?thesis by simp
  next
    case False
    then have "insertOrUpdateOffer row tbl
        = map (\<lambda>r. if has_offer_id ?d r then update_columns row r else r) tbl"
      by (simp add: insertOrUpdateOffer_def)
    then have "length (filter (has_code c) (insertOrUpdateOffer row tbl))
        \<le> length (filter (has_code c) (filter (\<lambda>r. \<not> has_offer_id ?d r) tbl))
            + length (filter (has_offer_id ?d) tbl)"
      using length_filter_map_update[of "has_code c" "has_offer_id ?d" "update_columns row" tbl] by simp
    also have "\<dots> \<le> 1" using others rows_of_id_at_most_one[OF u, of ?d] by simp
    finally show ?thesis .
  qed
qed


lemma docId_not_null:
  assumes "gate e pl = None" "p_post pl = Some post0" "offer_ids_unique (offers db)"
  shows "pg_text (c_docIdToUse (make_ctx e post0 db)) \<noteq> None"
proof (cases "getOfferByCode (post0 ''code'') (offers db)")
  case None
  then show ?thesis using truthy_pg_text[OF gate_passed(1)[OF assms(1,2)]] by (simp add: make_ctx_fields)
next
  case (Some ex)
  from getOfferByCode_Some[OF Some] have "ex \<in> set (offers db)" by simp
  with assms(3) have "pg_text (ex ''offer_id'') \<noteq> None" by (rule unique_ids_not_null)
  with Some show ?thesis by (simp add: make_ctx_fields)
qed

lemma created_keeps_invariant:
  assumes post: "p_post pl = Some post0" and ty: "p_type pl = Some (JStr (js ''POST_CREATED''))"
    and u: "offer_ids_unique (offers db)"
    and one: "length (filter (has_code (post0 ''code'')) (offers db)) \<le> 1"
  shows "offer_ids_unique (offers (fst (manage_offer e pl db)))
         \<and> length (filter (has_code (post0 ''code'')) (offers (fst (manage_offer e pl db)))) \<le> 1"
proof -
  let ?t = "offers (fst (manage_offer e pl db))"
  let ?d = "c_docIdToUse (make_ctx e post0 db)"
  let ?c = "post0 ''code''"
  from created_table_step[OF post ty, of e db]
  consider (same) "?t = offers db"
    | (mark) ts where "?t = markOfferDeleted e ?d ts (offers db)"
    | (hard) "?t = hardDeleteOffer ?d (offers db)"
    | (upsert) row where "gate e pl = None" "row ''offer_id'' = ?d" "?t = insertOrUpdateOffer row (offers db)"
    by blast
  then show ?thesis
  proof cases
    case same
    with u one show ?thesis by simp
  next
    case mark
    with u one show ?thesis by (simp add: markOfferDeleted_unique markOfferDeleted_code_rows)
  next
    case hard
    have "length (filter (has_code ?c) (hardDeleteOffer ?d (offers db))) \<le> 1"
      using hardDeleteOffer_code_rows[of ?c ?d "offers db"] one by simp
    with hard u show ?thesis by (simp add: hardDeleteOffer_unique)
  next
    case upsert
    have nn: "pg_text (row ''offer_id'') \<noteq> None"
      using docId_not_null[OF upsert(1) post u] upsert(2) by simp
    have d: "row ''offer_id'' = (case getOfferByCode ?c (offers db) of None \<Rightarrow> post0 ''offer_id''
                                  | Some ex \<Rightarrow> ex ''offer_id'')"
      using upsert(2) by (simp add: make_ctx_fields)
    from upsert_unique[where row=row and tbl="offers db", OF u nn]
      upsert_code_rows[where row=row and tbl="offers db", OF u one d] upsert(3) show ?thesis by simp
  qed
qed


lemma ids_update:
  "map (\<lambda>r. r ''offer_id'') (map (\<lambda>r. if has_offer_id d r then update_columns row r else r) tbl)
     = map (\<lambda>r. r ''offer_id'') tbl"
  by (induction tbl) (simp_all add: update_columns_def)

lemma upsert_existing_id:
  assumes u: "offer_ids_unique tbl" and ex: "ex \<in> set tbl" and d: "row ''offer_id'' = ex ''offer_id''"
  shows "length (insertOrUpdateOffer row tbl) = length tbl"
    and "column ''offer_id'' (insertOrUpdateOffer row tbl) = column ''offer_id'' tbl"
proof -
  from u ex have "pg_text (ex ''offer_id'') \<noteq> None" by (rule unique_ids_not_null)
  then have "has_offer_id (row ''offer_id'') ex" by (simp add: has_offer_id_text d)
  with ex have "ex \<in> set (filter (has_offer_id (row ''offer_id'')) tbl)" by simp
  then have ne: "filter (has_offer_id (row ''offer_id'')) tbl \<noteq> []" by (metis empty_iff list.set(1))
  then show "length (insertOrUpdateOffer row tbl) = length tbl" by (simp add: insertOrUpdateOffer_def)
  from ne show "column ''offer_id'' (insertOrUpdateOffer row tbl) = column ''offer_id'' tbl"
    by (simp only: insertOrUpdateOffer_def column_def if_False ids_update)
qed

lemma created_existing_reuse:
  assumes post: "p_post pl = Some post0" and ty: "p_type pl = Some (JStr (js ''POST_CREATED''))"
    and u: "offer_ids_unique (offers db)"
    and ex: "getOfferByCode (post0 ''code'') (offers db) = Some ex"
  shows "c_docIdToUse (make_ctx e post0 db) = ex ''offer_id''"
    and "length (offers (fst (manage_offer e pl db))) \<le> length (offers db)"
    and "snd (manage_offer e pl db) = Ok200_offer a d \<Longrightarrow>
           a = ''created'' \<and> d = ex ''offer_id''
           \<and> column ''offer_id'' (offers (fst (manage_offer e pl db))) = column ''offer_id'' (offers db)"
proof -
  let ?t = "offers (fst (manage_offer e pl db))"
  let ?d = "c_docIdToUse (make_ctx e post0 db)"
  show d: "?d = ex ''offer_id''" using ex by (simp add: make_ctx_fields)
  from getOfferByCode_Some[OF ex] have mem: "ex \<in> set (offers db)" by simp
  from created_table_step[OF post ty, of e db]
  consider (same) "\<forall>a d. snd (manage_offer e pl db) \<noteq> Ok200_offer a d" "?t = offers db"
    | (mark) ts where "\<forall>a d. snd (manage_offer e pl db) \<noteq> Ok200_offer a d"
        "?t = markOfferDeleted e ?d ts (offers db)"
    | (hard) "\<forall>a d. snd (manage_offer e pl db) \<noteq> Ok200_offer a d" "?t = hardDeleteOffer ?d (offers db)"
    | (upsert) row where "snd (manage_offer e pl db) = Ok200_offer ''created'' ?d"
        "row ''offer_id'' = ?d" "?t = insertOrUpdateOffer row (offers db)"
    by blast
  then have "length ?t \<le> length (offers db)
      \<and> (snd (manage_offer e pl db) = Ok200_offer a d \<longrightarrow>
           a = ''created'' \<and> d = ex ''offer_id'' \<and> column ''offer_id'' ?t = column ''offer_id'' (offers db))"
  proof cases
    case same
    then show ?thesis by simp
  next
    case mark
    then show ?thesis by simp
  next
    case hard
    then show ?thesis by (simp add: hardDeleteOffer_length)
  next
    case upsert
    from upsert(2) d have rd: "row ''offer_id'' = ex ''offer_id''" by simp
    from upsert_existing_id[where row=row and ex=ex and tbl="offers db", OF u mem rd] upsert(1,3) d
    show ?thesis by simp
  qed
  then show "length ?t \<le> length (offers db)"
    and "snd (manage_offer e pl db) = Ok200_offer a d \<Longrightarrow>
           a = ''created'' \<and> d = ex ''offer_id'' \<and> column ''offer_id'' ?t = column ''offer_id'' (offers db)"
    by blast+
qed

text \<open>
  Claim C5. Processing the same \<open>POST_CREATED\<close> request twice leaves at most one row of
  its code. Over a table whose rows have distinct \<open>offer_id\<close>s and at most one row of
  the code, the table after the second processing still has at most one row of the code and
  distinct \<open>offer_id\<close>s. When the second processing finds a row by the code, the id it
  works on is that row's \<open>offer_id\<close>, the table does not grow, and an answer
  \<open>created\<close> carries that id and leaves the \<open>offer_id\<close> column as it was: the row
  is updated in place.
\<close>

theorem created_twice_one_row:
  assumes ty: "p_type pl = Some (JStr (js ''POST_CREATED''))" and post: "p_post pl = Some post0"
    and keys: "offer_ids_unique (offers db)"
    and one: "length (filter (has_code (post0 ''code'')) (offers db)) \<le> 1"
    and run1: "manage_offer e1 pl db = (db1, r1)"
    and run2: "manage_offer e2 pl db1 = (db2, r2)"
  shows "length (filter (has_code (post0 ''code'')) (offers db2)) \<le> 1
       \<and> offer_ids_unique (offers db2)
       \<and> (\<forall>ex. getOfferByCode (post0 ''code'') (offers db1) = Some ex \<longrightarrow>
              c_docIdToUse (make_ctx e2 post0 db1) = ex ''offer_id''
            \<and> length (offers db2) \<le> length (offers db1)
            \<and> (\<forall>a d. r2 = Ok200_offer a d \<longrightarrow>
                   a = ''created'' \<and> d = ex ''offer_id''
                   \<and> column ''offer_id'' (offers db2) = column ''offer_id'' (offers db1)))"
proof -
  from run1 have d1: "db1 = fst (manage_offer e1 pl db)" by simp
  from run2 have d2: "db2 = fst (manage_offer e2 pl db1)" and a2: "r2 = snd (manage_offer e2 pl db1)"
    by simp_all
  from created_keeps_invariant[OF post ty keys one, of e1]
  have u1: "offer_ids_unique (offers db1)"
    and o1: "length (filter (has_code (post0 ''code'')) (offers db1)) \<le> 1"
    unfolding d1 by simp_all
  from created_keeps_invariant[OF post ty u1 o1, of e2]
  have inv: "length (filter (has_code (post0 ''code'')) (offers db2)) \<le> 1 \<and> offer_ids_unique (offers db2)"
    unfolding d2 by simp
  have reuse: "c_docIdToUse (make_ctx e2 post0 db1) = ex ''offer_id''
            \<and> length (offers db2) \<le> length (offers db1)
            \<and> (\<forall>a d. r2 = Ok200_offer a d \<longrightarrow>
                   a = ''created'' \<and> d = ex ''offer_id''
                   \<and> column ''offer_id'' (offers db2) = column ''offer_id'' (offers db1))"
    if ex: "getOfferByCode (post0 ''code'') (offers db1) = Some ex" for ex
    unfolding d2 a2
    using created_existing_reuse(1)[OF post ty u1 ex] created_existing_reuse(2)[OF post ty u1 ex, of e2]
      created_existing_reuse(3)[OF post ty u1 ex, of e2] by blast
  from inv reuse show ?thesis by blast
qed

theorem created_twice_one_row_witness:
  "offer_ids_unique (offers (example_store []))
   \<and> column ''code'' (offers (fst (manage_offer example_env
          (example_request ''POST_CREATED'' (example_post ''o1'' ''c1'' ''other'')) (example_store []))))
       = [Some (JStr (js ''c1''))]
   \<and> snd (manage_offer example_env (example_request ''POST_CREATED'' (example_post ''o1'' ''c1'' ''other''))
          (fst (manage_offer example_env
             (example_request ''POST_CREATED'' (example_post ''o1'' ''c1'' ''other'')) (example_store []))))
       = Ok200_offer ''created'' (Some (JStr (js ''o1'')))
   \<and> length (filter (has_code (Some (JStr (js ''c1''))))
         (offers (fst (manage_offer example_env
            (example_request ''POST_CREATED'' (example_post ''o1'' ''c1'' ''other''))
            (fst (manage_offer example_env
               (example_request ''POST_CREATED'' (example_post ''o1'' ''c1'' ''other'')) (example_store []))))))) \<le> 1
   \<and> column ''offer_id'' (offers (fst (manage_offer example_env
            (example_request ''POST_CREATED'' (example_post ''o1'' ''c1'' ''other''))
            (fst (manage_offer example_env
               (example_request ''POST_CREATED'' (example_post ''o1'' ''c1'' ''other'')) (example_store []))))))
       = [Some (JStr (js ''o1''))]"
proof -
  let ?post = "example_post ''o1'' ''c1'' ''other''"
  let ?pl = "example_request ''POST_CREATED'' ?post"
  let ?db = "example_store []"
  let ?db1 = "fst (manage_offer example_env ?pl ?db)"
  let ?db2 = "fst (manage_offer example_env ?pl ?db1)"
  have ty: "p_type ?pl = Some (JStr (js ''POST_CREATED''))" by (simp add: example_request_def)
  have p: "p_post ?pl = Some ?post" by (simp add: example_request_def)
  have k: "offer_ids_unique (offers ?db)" by (simp add: offer_ids_unique_def example_store_def)
  have o: "length (filter (has_code (?post ''code'')) (offers ?db)) \<le> 1" by (simp add: example_store_def)
  have c: "?post ''code'' = Some (JStr (js ''c1''))" by (simp add: example_post_def)
  have t1: "column ''code'' (offers ?db1) = [Some (JStr (js ''c1''))]" by code_simp
  have i1: "column ''offer_id'' (offers ?db1) = [Some (JStr (js ''o1''))]" by code_simp
  have a2: "snd (manage_offer example_env ?pl ?db1) = Ok200_offer ''created'' (Some (JStr (js ''o1'')))"
    by code_simp
  have f: "getOfferByCode (?post ''code'') (offers ?db1) \<noteq> None" by code_simp
  then obtain ex where ex: "getOfferByCode (?post ''code'') (offers ?db1) = Some ex" by blast
  from created_twice_one_row[where ?e1.0=example_env and ?e2.0=example_env,
      OF ty p k o surjective_pairing surjective_pairing]
  have "length (filter (has_code (?post ''code'')) (offers ?db2)) \<le> 1"
    and "column ''offer_id'' (offers ?db2) = column ''offer_id'' (offers ?db1)"
    using ex a2 by blast+
  with k t1 a2 i1 c show ?thesis by simp
qed

end
